theory Spec2Isabelle
  imports Main "HOL-Library.Sublist"
begin

section \<open>Strings, paths and the file system the scaffolder works on\<close>

text \<open>
  A JavaScript string is modelled as a \<^typ>\<open>string\<close>, one \<^typ>\<open>char\<close> per code unit; the
  project names the prompt accepts are ASCII (\<open>/^[a-z0-9-_]+$/i\<close>).

  A path is the list of its segments below the root: \<open>/home/u/app\<close> is
  \<open>[''home'', ''u'', ''app'']\<close> and \<open>[]\<close> is the root. On such normalised absolute paths
  and for a joined segment that is a plain name (no separator, not \<open>.\<close> or \<open>..\<close>),
  Node's \<open>path.join\<close>, \<open>path.dirname\<close> and \<open>path.basename\<close> are the following.
\<close>

type_synonym path = "string list"

definition path_join :: "path \<Rightarrow> string list \<Rightarrow> path" where
  "path_join p segments = p @ segments"

definition path_dirname :: "path \<Rightarrow> path" where
  "path_dirname p = butlast p"

definition path_basename :: "path \<Rightarrow> string" where
  "path_basename p = (if p = [] then [] else last p)"

text \<open>
  A JavaScript \<open>Error\<close> with its message. For the errors of \<open>fs\<close> the message is
  abbreviated to the error code.
\<close>

datatype error = Error string

text \<open>
  The file system: the entries below the root, each a directory or a regular file with
  its content. The root itself always is a directory. The order of the entries is the
  order in which \<open>fs.readdir\<close> lists them.
\<close>

datatype node = Dir | File string

type_synonym fs = "(path \<times> node) list"

definition lookup :: "fs \<Rightarrow> path \<Rightarrow> node option" where
  "lookup fs p = (if p = [] then Some Dir else map_of fs p)"

fun isFile :: "node option \<Rightarrow> bool" where
  "isFile (Some (File c)) = True"
| "isFile other = False"

fun ancestorsFrom :: "path \<Rightarrow> string list \<Rightarrow> path list" where
  "ancestorsFrom pre [] = []"
| "ancestorsFrom pre (s # rest) = (pre @ [s]) # ancestorsFrom (pre @ [s]) rest"

definition ancestors :: "path \<Rightarrow> path list" where
  \<comment> \<open>the path itself and every directory above it except the root, outermost first\<close>
  "ancestors p = ancestorsFrom [] p"

definition below :: "path \<Rightarrow> path \<Rightarrow> bool" where
  \<comment> \<open>\<open>q\<close> is \<open>p\<close> or lies in the subtree of \<open>p\<close>\<close>
  "below p q = (take (length p) q = p)"

subsection \<open>The helpers of file-system.ts\<close>

text \<open>
  \<open>pathExists\<close>: \<open>fs.access\<close> succeeds or the error is caught.
\<close>

definition pathExists :: "path \<Rightarrow> fs \<Rightarrow> bool" where
  "pathExists filePath fs = (lookup fs filePath \<noteq> None)"

text \<open>
  \<open>createDirectory\<close> is \<open>fs.mkdir(dirPath, { recursive: true })\<close>, the error rethrown:
  every missing directory on the way is created, an existing directory is accepted, a
  regular file on the way fails with \<open>ENOTDIR\<close> and a regular file at the path itself with
  \<open>EEXIST\<close>.
\<close>

definition createDirectory :: "path \<Rightarrow> fs \<Rightarrow> error + fs" where
  "createDirectory dirPath fs =
     (case filter (\<lambda>q. isFile (lookup fs q)) (ancestors dirPath) of
        q # qs \<Rightarrow> Inl (Error (if q = dirPath then ''EEXIST'' else ''ENOTDIR''))
      | [] \<Rightarrow> Inr (fs @ map (\<lambda>q. (q, Dir)) (filter (\<lambda>q. lookup fs q = None) (ancestors dirPath))))"

text \<open>
  A run of \<open>await createDirectory(...)\<close> statements: in order, stopping at the first
  that throws.
\<close>

fun createDirectories :: "path list \<Rightarrow> fs \<Rightarrow> error + fs" where
  "createDirectories [] fs = Inr fs"
| "createDirectories (p # ps) fs =
     (case createDirectory p fs of
        Inl e \<Rightarrow> Inl e
      | Inr fs' \<Rightarrow> createDirectories ps fs')"

text \<open>
  \<open>fs.writeFile\<close> and \<open>fs.readFile\<close> of \<open>fs/promises\<close>: writing replaces the content of a
  regular file or adds the file to an existing directory.
\<close>

definition setEntry :: "path \<Rightarrow> node \<Rightarrow> fs \<Rightarrow> fs" where
  \<comment> \<open>an existing entry keeps its place in the listing\<close>
  "setEntry p n fs = map (\<lambda>(q, m). if q = p then (q, n) else (q, m)) fs"

definition fs_writeFile :: "path \<Rightarrow> string \<Rightarrow> fs \<Rightarrow> error + fs" where
  "fs_writeFile filePath content fs =
     (case lookup fs filePath of
        Some Dir \<Rightarrow> Inl (Error ''EISDIR'')
      | Some (File old) \<Rightarrow> Inr (setEntry filePath (File content) fs)
      | None \<Rightarrow>
          (case lookup fs (path_dirname filePath) of
             Some Dir \<Rightarrow> Inr (fs @ [(filePath, File content)])
           | Some (File c) \<Rightarrow> Inl (Error ''ENOTDIR'')
           | None \<Rightarrow> Inl (Error ''ENOENT'')))"

definition fs_readFile :: "path \<Rightarrow> fs \<Rightarrow> error + string" where
  "fs_readFile filePath fs =
     (case lookup fs filePath of
        Some (File content) \<Rightarrow> Inr content
      | Some Dir \<Rightarrow> Inl (Error ''EISDIR'')
      | None \<Rightarrow> Inl (Error ''ENOENT''))"

text \<open>
  \<open>writeFile\<close> of file-system.ts creates the directory of the file first.
\<close>

definition writeFile :: "path \<Rightarrow> string \<Rightarrow> fs \<Rightarrow> error + fs" where
  "writeFile filePath content fs =
     (case createDirectory (path_dirname filePath) fs of
        Inl e \<Rightarrow> Inl e
      | Inr fs' \<Rightarrow> fs_writeFile filePath content fs')"

text \<open>
  \<open>readDirectory\<close>: the names in a directory; a failing \<open>fs.readdir\<close> is logged and
  gives the empty list.
\<close>

definition readDirectory :: "path \<Rightarrow> fs \<Rightarrow> string list" where
  "readDirectory dirPath fs =
     (if lookup fs dirPath = Some Dir
      then remdups (map (\<lambda>(q, n). last q)
             (filter (\<lambda>(q, n). q \<noteq> [] \<and> butlast q = dirPath) fs))
      else [])"

text \<open>
  \<open>fs.rename\<close>: a regular file replaces a regular file or takes a free name in an
  existing directory; a directory is moved with everything below it, onto a free name
  or an empty directory.
\<close>

definition fs_rename :: "path \<Rightarrow> path \<Rightarrow> fs \<Rightarrow> error + fs" where
  "fs_rename src dest fs =
     (case lookup fs src of
        None \<Rightarrow> Inl (Error ''ENOENT'')
      | Some (File content) \<Rightarrow>
          (if src = dest then Inr fs
           else case lookup fs dest of
             Some Dir \<Rightarrow> Inl (Error ''EISDIR'')
           | Some (File old) \<Rightarrow>
               Inr (setEntry dest (File content) (filter (\<lambda>(q, n). q \<noteq> src) fs))
           | None \<Rightarrow>
               (case lookup fs (path_dirname dest) of
                  Some Dir \<Rightarrow> Inr (filter (\<lambda>(q, n). q \<noteq> src) fs @ [(dest, File content)])
                | Some (File c) \<Rightarrow> Inl (Error ''ENOTDIR'')
                | None \<Rightarrow> Inl (Error ''ENOENT'')))
      | Some Dir \<Rightarrow>
          (if src = dest then Inr fs
           else if src = [] then Inl (Error ''EBUSY'')
           else if below src dest then Inl (Error ''EINVAL'')
           else case lookup fs dest of
             Some (File old) \<Rightarrow> Inl (Error ''ENOTDIR'')
           | Some Dir \<Rightarrow>
               (if dest = [] \<or> readDirectory dest fs \<noteq> [] then Inl (Error ''ENOTEMPTY'')
                else Inr (map (\<lambda>(q, n). if below src q then (dest @ drop (length src) q, n) else (q, n))
                            (filter (\<lambda>(q, n). q \<noteq> dest) fs)))
           | None \<Rightarrow>
               (case lookup fs (path_dirname dest) of
                  Some Dir \<Rightarrow>
                    Inr (map (\<lambda>(q, n). if below src q then (dest @ drop (length src) q, n) else (q, n)) fs)
                | Some (File c) \<Rightarrow> Inl (Error ''ENOTDIR'')
                | None \<Rightarrow> Inl (Error ''ENOENT''))))"

text \<open>
  \<open>moveFile\<close>: the directory of the destination is created, then the entry is renamed;
  every error is rethrown.
\<close>

definition moveFile :: "path \<Rightarrow> path \<Rightarrow> fs \<Rightarrow> error + fs" where
  "moveFile src dest fs =
     (case createDirectory (path_dirname dest) fs of
        Inl e \<Rightarrow> Inl e
      | Inr fs' \<Rightarrow> fs_rename src dest fs')"

text \<open>
  Child processes. What a command does is not the scaffolder's: \<open>execSync\<close> is a
  parameter that, for a command line and a working directory, tells whether the process
  exits with zero (\<open>False\<close>: \<open>execSync\<close> throws) and what the file system is afterwards.
\<close>

type_synonym shell = "string \<Rightarrow> path option \<Rightarrow> fs \<Rightarrow> bool \<times> fs"

definition checkCommandExists :: "shell \<Rightarrow> string \<Rightarrow> fs \<Rightarrow> bool \<times> fs" where
  "checkCommandExists execSync command fs = execSync (''which '' @ command) None fs"

text \<open>
  \<open>executeCommand\<close> wraps a failure into its own error; the file system is the one
  the process leaves in either case.
\<close>

definition executeCommand :: "shell \<Rightarrow> string \<Rightarrow> path \<Rightarrow> fs \<Rightarrow> error option \<times> fs" where
  "executeCommand execSync command cwd fs =
     (case execSync command (Some cwd) fs of
        (True, fs') \<Rightarrow> (None, fs')
      | (False, fs') \<Rightarrow> (Some (Error (''Failed to execute command: '' @ command)), fs'))"

text \<open>
  \<open>detectPackageManager\<close> (package-manager.ts): the first of pnpm, bun, yarn, npm
  whose \<open>--version\<close> runs; npm when none does.
\<close>

fun detectAmong :: "shell \<Rightarrow> string list \<Rightarrow> fs \<Rightarrow> string \<times> fs" where
  "detectAmong execSync [] fs = (''npm'', fs)"
| "detectAmong execSync (manager # managers) fs =
     (case execSync (manager @ '' --version'') None fs of
        (True, fs') \<Rightarrow> (manager, fs')
      | (False, fs') \<Rightarrow> detectAmong execSync managers fs')"

definition detectPackageManager :: "shell \<Rightarrow> fs \<Rightarrow> string \<times> fs" where
  "detectPackageManager execSync fs = detectAmong execSync [''pnpm'', ''bun'', ''yarn'', ''npm''] fs"

section \<open>The Skeleton Builder (project-scaffolding.ts)\<close>

text \<open>
  The type \<open>Language\<close> and the type \<open>Project\<close> of the configuration. Their declarations
  (types/languages.ts, types/projects.ts) are not among the sources; the values are the
  ones the scaffolder compares with and the prompt offers.
\<close>

datatype Language = TypeScript | JavaScript | Python | Go

datatype Project = Backend | Frontend | Fullstack

definition createMVCStructure :: "path \<Rightarrow> Language \<Rightarrow> fs \<Rightarrow> error + fs" where
  "createMVCStructure projectPath language =
     (let srcDir = (if language = Python then projectPath else path_join projectPath [''src''])
      in createDirectories
           ([path_join srcDir [''models''],
             path_join srcDir [''views''],
             path_join srcDir [''controllers''],
             path_join srcDir [''routes''],
             path_join srcDir [''config''],
             path_join srcDir [''middlewares''],
             path_join srcDir [''utils'']]
            @ (if language \<noteq> Python
               then [path_join projectPath [''tests'']]
               else [path_join projectPath [''tests'']])))"

definition createHexagonalStructure :: "path \<Rightarrow> Language \<Rightarrow> fs \<Rightarrow> error + fs" where
  "createHexagonalStructure projectPath language =
     (let srcDir = (if language = Python then projectPath else path_join projectPath [''src''])
      in createDirectories
           [path_join srcDir [''domain'', ''entities''],
            path_join srcDir [''domain'', ''repositories''],
            path_join srcDir [''domain'', ''services''],
            path_join srcDir [''application'', ''use-cases''],
            path_join srcDir [''application'', ''dto''],
            path_join srcDir [''infrastructure'', ''adapters''],
            path_join srcDir [''infrastructure'', ''persistence''],
            path_join srcDir [''infrastructure'', ''http''],
            path_join projectPath [''tests'']])"

definition createLayeredStructure :: "path \<Rightarrow> Language \<Rightarrow> fs \<Rightarrow> error + fs" where
  "createLayeredStructure projectPath language =
     (let srcDir = (if language = Python then projectPath else path_join projectPath [''src''])
      in createDirectories
           [path_join srcDir [''presentation''],
            path_join srcDir [''business''],
            path_join srcDir [''data''],
            path_join srcDir [''config''],
            path_join projectPath [''tests'']])"

definition createLayeredScreamingStructure :: "path \<Rightarrow> Language \<Rightarrow> fs \<Rightarrow> error + fs" where
  "createLayeredScreamingStructure projectPath language =
     (let srcDir = (if language = Python then projectPath else path_join projectPath [''src''])
      in createDirectories
           [path_join srcDir [''features'', ''example-feature'', ''presentation''],
            path_join srcDir [''features'', ''example-feature'', ''business''],
            path_join srcDir [''features'', ''example-feature'', ''data''],
            path_join srcDir [''shared'', ''config''],
            path_join srcDir [''shared'', ''utils''],
            path_join projectPath [''tests'']])"

definition createComponentBasedStructure :: "path \<Rightarrow> fs \<Rightarrow> error + fs" where
  "createComponentBasedStructure projectPath =
     createDirectories
       [path_join projectPath [''src'', ''components'', ''common''],
        path_join projectPath [''src'', ''components'', ''layout''],
        path_join projectPath [''src'', ''pages''],
        path_join projectPath [''src'', ''hooks''],
        path_join projectPath [''src'', ''utils''],
        path_join projectPath [''src'', ''styles''],
        path_join projectPath [''src'', ''assets''],
        path_join projectPath [''public'']]"

definition createFeatureBasedStructure :: "path \<Rightarrow> fs \<Rightarrow> error + fs" where
  "createFeatureBasedStructure projectPath =
     createDirectories
       [path_join projectPath [''src'', ''features'', ''example-feature'', ''components''],
        path_join projectPath [''src'', ''features'', ''example-feature'', ''hooks''],
        path_join projectPath [''src'', ''features'', ''example-feature'', ''utils''],
        path_join projectPath [''src'', ''shared'', ''components''],
        path_join projectPath [''src'', ''shared'', ''hooks''],
        path_join projectPath [''src'', ''shared'', ''utils''],
        path_join projectPath [''src'', ''styles''],
        path_join projectPath [''src'', ''assets''],
        path_join projectPath [''public'']]"

text \<open>Go-specific structures following Go conventions.\<close>

definition createGoLayeredStructure :: "path \<Rightarrow> fs \<Rightarrow> error + fs" where
  "createGoLayeredStructure projectPath =
     createDirectories
       [path_join projectPath [''cmd'', ''api''],
        path_join projectPath [''internal'', ''delivery'', ''http'', ''handler''],
        path_join projectPath [''internal'', ''delivery'', ''http'', ''middleware''],
        path_join projectPath [''internal'', ''business''],
        path_join projectPath [''internal'', ''data'', ''repository''],
        path_join projectPath [''internal'', ''infrastructure'', ''database''],
        path_join projectPath [''internal'', ''infrastructure'', ''config''],
        path_join projectPath [''pkg'']]"

definition createGoMVCStructure :: "path \<Rightarrow> fs \<Rightarrow> error + fs" where
  "createGoMVCStructure projectPath =
     createDirectories
       [path_join projectPath [''cmd'', ''api''],
        path_join projectPath [''internal'', ''models''],
        path_join projectPath [''internal'', ''views''],
        path_join projectPath [''internal'', ''controllers''],
        path_join projectPath [''internal'', ''routes''],
        path_join projectPath [''internal'', ''middleware''],
        path_join projectPath [''internal'', ''infrastructure'', ''database''],
        path_join projectPath [''internal'', ''infrastructure'', ''config''],
        path_join projectPath [''pkg'']]"

definition createGoHexagonalStructure :: "path \<Rightarrow> fs \<Rightarrow> error + fs" where
  "createGoHexagonalStructure projectPath =
     createDirectories
       [path_join projectPath [''cmd'', ''api''],
        path_join projectPath [''internal'', ''domain'', ''entity''],
        path_join projectPath [''internal'', ''domain'', ''repository''],
        path_join projectPath [''internal'', ''usecase''],
        path_join projectPath [''internal'', ''delivery'', ''http'', ''handler''],
        path_join projectPath [''internal'', ''delivery'', ''http'', ''middleware''],
        path_join projectPath [''internal'', ''infrastructure'', ''database''],
        path_join projectPath [''internal'', ''infrastructure'', ''config''],
        path_join projectPath [''pkg'']]"

definition createGoLayeredScreamingStructure :: "path \<Rightarrow> fs \<Rightarrow> error + fs" where
  "createGoLayeredScreamingStructure projectPath =
     createDirectories
       [path_join projectPath [''cmd'', ''api''],
        path_join projectPath [''internal'', ''features'', ''example'', ''handler''],
        path_join projectPath [''internal'', ''features'', ''example'', ''business''],
        path_join projectPath [''internal'', ''features'', ''example'', ''repository''],
        path_join projectPath [''internal'', ''shared'', ''middleware''],
        path_join projectPath [''internal'', ''shared'', ''utils''],
        path_join projectPath [''internal'', ''infrastructure'', ''database''],
        path_join projectPath [''internal'', ''infrastructure'', ''config''],
        path_join projectPath [''pkg'']]"

definition createGoStructure :: "path \<Rightarrow> string \<Rightarrow> fs \<Rightarrow> error + fs" where
  "createGoStructure projectPath architecture =
     (if architecture = ''mvc'' then createGoMVCStructure projectPath
      else if architecture = ''hexagonal'' then createGoHexagonalStructure projectPath
      else if architecture = ''layered'' then createGoLayeredStructure projectPath
      else if architecture = ''layered-screaming'' then createGoLayeredScreamingStructure projectPath
      else createGoLayeredStructure projectPath)"

text \<open>
  Some CLIs normalize project names: \<open>toLowerCase()\<close>, then
  \<open>replace(/[^a-z0-9-]/g, "-")\<close>.
\<close>

definition upperCaseLetters :: string where
  "upperCaseLetters = ''ABCDEFGHIJKLMNOPQRSTUVWXYZ''"

definition lowerCaseLetters :: string where
  "lowerCaseLetters = ''abcdefghijklmnopqrstuvwxyz''"

definition toLowerChar :: "char \<Rightarrow> char" where
  "toLowerChar c =
     (case map_of (zip upperCaseLetters lowerCaseLetters) c of Some l \<Rightarrow> l | None \<Rightarrow> c)"

definition toLowerCase :: "string \<Rightarrow> string" where
  "toLowerCase s = map toLowerChar s"

definition kebabChars :: "char set" where
  \<comment> \<open>the class \<open>[a-z0-9-]\<close>\<close>
  "kebabChars = set ''abcdefghijklmnopqrstuvwxyz0123456789-''"

definition normalizeProjectName :: "string \<Rightarrow> string \<Rightarrow> string" where
  "normalizeProjectName framework projectName =
     (if framework = ''nestjs''
      then map (\<lambda>c. if c \<notin> kebabChars then CHR ''-'' else c) (toLowerCase projectName)
      else if framework = ''angular''
      then map (\<lambda>c. if c \<notin> kebabChars then CHR ''-'' else c) (toLowerCase projectName)
      else projectName)"

section \<open>Textual patches: the regular expressions of the Structure Reconciler\<close>

text \<open>
  The patterns of the reconciler are sequences of literals, single characters of a
  class and greedy repetitions of a class. \<open>matchPrefix\<close> matches a pattern at the
  start of a text with the priorities of a backtracking matcher (a repetition takes as
  much as it can and gives back when the rest fails) and returns what follows the match.
\<close>

datatype cls = Quote | Space | NotCloseBrace

fun inClass :: "cls \<Rightarrow> char \<Rightarrow> bool" where
  "inClass Quote c = (c = CHR 0x27 \<or> c = CHR 0x22)"
| "inClass Space c = (c \<in> {CHR 0x09, CHR 0x0A, CHR 0x0B, CHR 0x0C, CHR 0x0D, CHR 0x20, CHR 0xA0})"
| "inClass NotCloseBrace c = (c \<noteq> CHR ''}'')"

datatype item = Lit string | One cls | Many0 cls | Many1 cls

fun matchPrefix :: "item list \<Rightarrow> string \<Rightarrow> string option" where
  "matchPrefix [] s = Some s"
| "matchPrefix (Lit l # items) s =
     (if take (length l) s = l then matchPrefix items (drop (length l) s) else None)"
| "matchPrefix (One k # items) [] = None"
| "matchPrefix (One k # items) (c # s) = (if inClass k c then matchPrefix items s else None)"
| "matchPrefix (Many0 k # items) [] = matchPrefix items []"
| "matchPrefix (Many0 k # items) (c # s) =
     (if inClass k c
      then (case matchPrefix (Many0 k # items) s of
              Some r \<Rightarrow> Some r
            | None \<Rightarrow> matchPrefix items (c # s))
      else matchPrefix items (c # s))"
| "matchPrefix (Many1 k # items) [] = None"
| "matchPrefix (Many1 k # items) (c # s) =
     (if inClass k c then matchPrefix (Many0 k # items) s else None)"

text \<open>
  \<open>String.prototype.includes\<close> (here \<open>includesText\<close>), \<open>replace\<close> with a pattern without the flag \<open>g\<close>
  (the leftmost match is replaced) and \<open>replace\<close> with the flag \<open>g\<close> (every match,
  from the left, the search going on behind each match; behind an empty match it moves
  on by one character). None of the replacement texts of the reconciler contains a
  replacement pattern (\<open>$&\<close>, \<open>$1\<close>, ...), so they are inserted as they are.
\<close>

fun includesText :: "string \<Rightarrow> string \<Rightarrow> bool" where
  "includesText [] needle = (needle = [])"
| "includesText (c # s) needle = (take (length needle) (c # s) = needle \<or> includesText s needle)"

fun replaceFirst :: "item list \<Rightarrow> string \<Rightarrow> string \<Rightarrow> string" where
  "replaceFirst re rep [] = (case matchPrefix re [] of Some r \<Rightarrow> rep @ r | None \<Rightarrow> [])"
| "replaceFirst re rep (c # s) =
     (case matchPrefix re (c # s) of
        Some r \<Rightarrow> rep @ r
      | None \<Rightarrow> c # replaceFirst re rep s)"

function replaceAll :: "item list \<Rightarrow> string \<Rightarrow> string \<Rightarrow> string" where
  "replaceAll re rep s =
     (case matchPrefix re s of
        Some r \<Rightarrow>
          (if length r < length s then rep @ replaceAll re rep r
           else case s of [] \<Rightarrow> rep | c # s' \<Rightarrow> rep @ c # replaceAll re rep s')
      | None \<Rightarrow> (case s of [] \<Rightarrow> [] | c # s' \<Rightarrow> c # replaceAll re rep s'))"
  by pat_completeness auto
termination
  by (relation "measure (\<lambda>(re, rep, s). length s)") auto

declare replaceAll.simps [simp del]

text \<open>The patterns.\<close>

definition indexCssImport :: "item list" where
  \<comment> \<open>\<open>/import ['"]\.\/index\.css['"]/\<close>\<close>
  "indexCssImport = [Lit ''import '', One Quote, Lit ''./index.css'', One Quote]"

definition appCssImport :: "item list" where
  \<comment> \<open>\<open>/import ['"]\.\/App\.css['"]/\<close>\<close>
  "appCssImport = [Lit ''import '', One Quote, Lit ''./App.css'', One Quote]"

definition svelteCssImport :: "item list" where
  \<comment> \<open>\<open>/import ['"]\.\/app\.css['"]/\<close>\<close>
  "svelteCssImport = [Lit ''import '', One Quote, Lit ''./app.css'', One Quote]"

definition counterImportRelative :: "item list" where
  \<comment> \<open>\<open>/import\s+Counter\s+from\s+['"]\.\/lib\/Counter\.svelte['"]/\<close>\<close>
  "counterImportRelative =
     [Lit ''import'', Many1 Space, Lit ''Counter'', Many1 Space, Lit ''from'', Many1 Space,
      One Quote, Lit ''./lib/Counter.svelte'', One Quote]"

definition counterImportAlias :: "item list" where
  \<comment> \<open>\<open>/import\s+Counter\s+from\s+['"]\$lib\/Counter\.svelte['"]/\<close>\<close>
  "counterImportAlias =
     [Lit ''import'', Many1 Space, Lit ''Counter'', Many1 Space, Lit ''from'', Many1 Space,
      One Quote, Lit ''$lib/Counter.svelte'', One Quote]"

definition sveltePluginImport :: "item list" where
  \<comment> \<open>\<open>/import\s+{[^}]+}\s+from\s+['"]@sveltejs\/vite-plugin-svelte['"]/\<close>\<close>
  "sveltePluginImport =
     [Lit ''import'', Many1 Space, Lit ''{'', Many1 NotCloseBrace, Lit ''}'', Many1 Space,
      Lit ''from'', Many1 Space, One Quote, Lit ''@sveltejs/vite-plugin-svelte'', One Quote]"

definition pluginsEntry :: "item list" where
  \<comment> \<open>\<open>/plugins:\s*\[svelte\(\)\],/\<close>\<close>
  "pluginsEntry = [Lit ''plugins:'', Many0 Space, Lit ''[svelte()],'']"

definition compilerOptionsOpen :: "item list" where
  \<comment> \<open>\<open>/"compilerOptions":\s*{/\<close>\<close>
  "compilerOptionsOpen = [Lit ([CHR 0x22] @ ''compilerOptions'' @ [CHR 0x22] @ '':''), Many0 Space, Lit ''{'']"

text \<open>
  Notions for the statements about patches: the pattern matches somewhere in a text;
  a text cut into gaps with a matched piece between neighbouring gaps.
\<close>

fun hasMatch :: "item list \<Rightarrow> string \<Rightarrow> bool" where
  "hasMatch re [] = (matchPrefix re [] \<noteq> None)"
| "hasMatch re (c # s) = (matchPrefix re (c # s) \<noteq> None \<or> hasMatch re s)"

fun weave :: "string list \<Rightarrow> string list \<Rightarrow> string" where
  "weave [] pieces = []"
| "weave (g # gaps) [] = g"
| "weave (g # gaps) (m # pieces) = g @ m @ weave gaps pieces"

text \<open>
  The cut of a text at the occurrences of given texts, as a scan from the left finds
  them: no position of a gap, read with everything behind it, starts with one of the
  texts, and every piece is one of them. The last gap is read up to its end.
\<close>

fun occurrenceCut :: "string list \<Rightarrow> string list \<Rightarrow> string list \<Rightarrow> bool" where
  "occurrenceCut L [] pieces = True"
| "occurrenceCut L (g # gaps) [] =
     list_all (\<lambda>n. list_all (\<lambda>l. take (length l) (drop n g) \<noteq> l) L) [0..<Suc (length g)]"
| "occurrenceCut L (g # gaps) (m # pieces) =
     (list_all (\<lambda>n. list_all (\<lambda>l. take (length l) (drop n g @ m @ weave gaps pieces) \<noteq> l) L)
        [0..<length g]
      \<and> m \<in> set L
      \<and> occurrenceCut L gaps pieces)"

text \<open>
  The texts the pattern of the stylesheet import matches: \<open>import\<close>, a blank, a quote,
  \<open>./index.css\<close> and a quote, each quote single or double.
\<close>

definition indexCssImportTexts :: "string list" where
  "indexCssImportTexts =
     [''import '' @ [q1] @ ''./index.css'' @ [q2]. q1 \<leftarrow> [CHR 0x27, CHR 0x22], q2 \<leftarrow> [CHR 0x27, CHR 0x22]]"

section \<open>The Structure Reconciler (project-scaffolding.ts)\<close>

abbreviation sq :: string where "sq \<equiv> [CHR 0x27]"
abbreviation dq :: string where "dq \<equiv> [CHR 0x22]"
abbreviation nl :: string where "nl \<equiv> [CHR 0x0A]"

text \<open>
  Sequencing of steps that may throw, and the loop \<open>for (const x of xs) { ... }\<close> whose
  body may throw; \<open>continue\<close> is the body returning the state as it is.
\<close>

definition andThen :: "error + 'a \<Rightarrow> ('a \<Rightarrow> error + 'b) \<Rightarrow> error + 'b" where
  "andThen r f = (case r of Inl e \<Rightarrow> Inl e | Inr x \<Rightarrow> f x)"

fun forEach :: "('a \<Rightarrow> fs \<Rightarrow> error + fs) \<Rightarrow> 'a list \<Rightarrow> fs \<Rightarrow> error + fs" where
  "forEach body [] fs = Inr fs"
| "forEach body (x # xs) fs = andThen (body x fs) (forEach body xs)"

text \<open>
  The loop shared by \<open>updateMainCssImports\<close> and \<open>updateAppCssImports\<close>: the first of
  the candidate files that exists is read, edited and written back, and the loop is
  left (\<open>break\<close>).
\<close>

fun updateFirstExisting :: "(string \<Rightarrow> string) \<Rightarrow> path \<Rightarrow> string list \<Rightarrow> fs \<Rightarrow> error + fs" where
  "updateFirstExisting edit srcPath [] fs = Inr fs"
| "updateFirstExisting edit srcPath (file # files) fs =
     (let filePath = path_join srcPath [file] in
      if pathExists filePath fs
      then andThen (fs_readFile filePath fs)
             (\<lambda>content. fs_writeFile filePath (edit content) fs)
      else updateFirstExisting edit srcPath files fs)"

definition updateMainCssImports :: "path \<Rightarrow> string \<Rightarrow> fs \<Rightarrow> error + fs" where
  "updateMainCssImports srcPath architecture fs =
     updateFirstExisting
       (\<lambda>content.
          if architecture = ''feature-based''
          then replaceAll indexCssImport (''import '' @ sq @ ''./shared/styles/index.css'' @ sq) content
          else replaceAll indexCssImport (''import '' @ sq @ ''./styles/index.css'' @ sq) content)
       srcPath [''main.tsx'', ''main.jsx''] fs"

definition updateAppCssImports :: "path \<Rightarrow> string \<Rightarrow> string \<Rightarrow> fs \<Rightarrow> error + fs" where
  "updateAppCssImports srcPath cssPath architecture fs =
     updateFirstExisting
       (\<lambda>content.
          replaceAll appCssImport (''import '' @ sq @ ''./'' @ cssPath @ ''/App.css'' @ sq) content)
       srcPath [''App.tsx'', ''App.jsx'', ''App.svelte''] fs"

definition stripLibPrefix :: "string \<Rightarrow> string" where
  \<comment> \<open>\<open>counterRelativePath.replace(/^lib\//, '')\<close>\<close>
  "stripLibPrefix s = (if take 4 s = ''lib/'' then drop 4 s else s)"

definition updateSvelteAppImports :: "path \<Rightarrow> string \<Rightarrow> fs \<Rightarrow> error + fs" where
  "updateSvelteAppImports srcPath counterRelativePath fs =
     (let appPath = path_join srcPath [''App.svelte''] in
      if pathExists appPath fs
      then andThen (fs_readFile appPath fs)
             (\<lambda>content.
                let libPath = stripLibPrefix counterRelativePath;
                    content1 = replaceAll counterImportRelative
                      (''import Counter from '' @ sq @ ''$lib/'' @ libPath @ ''/Counter.svelte'' @ sq)
                      content;
                    content2 = replaceAll counterImportAlias
                      (''import Counter from '' @ sq @ ''$lib/'' @ libPath @ ''/Counter.svelte'' @ sq)
                      content1
                in fs_writeFile appPath content2 fs)
      else Inr fs)"

definition updateSvelteCssImport :: "path \<Rightarrow> string \<Rightarrow> fs \<Rightarrow> error + fs" where
  "updateSvelteCssImport srcPath architecture fs =
     (let mainPath = path_join srcPath [''main.ts''] in
      if pathExists mainPath fs
      then andThen (fs_readFile mainPath fs)
             (\<lambda>content.
                let cssPath = (if architecture = ''feature-based''
                               then ''$lib/shared/styles/app.css''
                               else ''$lib/styles/app.css'')
                in fs_writeFile mainPath
                     (replaceAll svelteCssImport (''import '' @ sq @ cssPath @ sq) content) fs)
      else Inr fs)"

definition reorganizeReactProject :: "path \<Rightarrow> string \<Rightarrow> fs \<Rightarrow> error + fs" where
  "reorganizeReactProject srcPath architecture fs =
     (let files = readDirectory srcPath fs in
      if architecture = ''feature-based'' then
        andThen (createDirectories
                   [path_join srcPath [''features'', ''example'', ''components''],
                    path_join srcPath [''features'', ''example'', ''hooks''],
                    path_join srcPath [''features'', ''example'', ''utils''],
                    path_join srcPath [''features'', ''example'', ''styles''],
                    path_join srcPath [''shared'', ''components''],
                    path_join srcPath [''shared'', ''hooks''],
                    path_join srcPath [''shared'', ''utils''],
                    path_join srcPath [''shared'', ''styles'']] fs)
         (\<lambda>fs1. andThen
            (forEach
               (\<lambda>file fs.
                  let filePath = path_join srcPath [file];
                      exists = pathExists filePath fs
                  in if \<not> exists \<or> file = ''assets'' then Inr fs
                     else if file = ''App.css''
                       then moveFile filePath
                              (path_join srcPath [''features'', ''example'', ''styles'', file]) fs
                     else if file = ''index.css''
                       then moveFile filePath (path_join srcPath [''shared'', ''styles'', file]) fs
                     else Inr fs)
               files fs1)
         (\<lambda>fs2. andThen (updateAppCssImports srcPath ''features/example/styles'' architecture fs2)
         (\<lambda>fs3. updateMainCssImports srcPath architecture fs3)))
      else
        andThen (createDirectories
                   [path_join srcPath [''components'', ''common''],
                    path_join srcPath [''components'', ''layout''],
                    path_join srcPath [''hooks''],
                    path_join srcPath [''utils''],
                    path_join srcPath [''styles'']] fs)
         (\<lambda>fs1. andThen
            (forEach
               (\<lambda>file fs.
                  let filePath = path_join srcPath [file];
                      exists = pathExists filePath fs
                  in if \<not> exists \<or> file = ''assets'' then Inr fs
                     else if file = ''App.css''
                       then moveFile filePath (path_join srcPath [''styles'', file]) fs
                     else if file = ''index.css''
                       then moveFile filePath (path_join srcPath [''styles'', file]) fs
                     else Inr fs)
               files fs1)
         (\<lambda>fs2. andThen (updateAppCssImports srcPath ''styles'' architecture fs2)
         (\<lambda>fs3. updateMainCssImports srcPath architecture fs3))))"

definition reorganizeSvelteProject :: "path \<Rightarrow> string \<Rightarrow> fs \<Rightarrow> error + fs" where
  "reorganizeSvelteProject srcPath architecture fs =
     (let libPath = path_join srcPath [''lib''];
          libFiles = readDirectory libPath fs
      in andThen
        (if architecture = ''feature-based'' then
           andThen (createDirectories
                      [path_join srcPath [''features'', ''example'', ''components''],
                       path_join srcPath [''features'', ''example'', ''stores''],
                       path_join srcPath [''features'', ''example'', ''utils''],
                       path_join libPath [''shared'', ''components''],
                       path_join libPath [''shared'', ''stores''],
                       path_join libPath [''shared'', ''utils''],
                       path_join libPath [''shared'', ''styles'']] fs)
            (\<lambda>fs1. andThen
               (forEach
                  (\<lambda>file fs.
                     let filePath = path_join libPath [file];
                         exists = pathExists filePath fs
                     in if \<not> exists then Inr fs
                        else if file = ''Counter.svelte''
                          then moveFile filePath (path_join libPath [''shared'', ''components'', file]) fs
                        else Inr fs)
                  libFiles fs1)
            (\<lambda>fs2. updateSvelteAppImports srcPath ''lib/shared/components'' fs2))
         else
           andThen (createDirectories
                      [path_join libPath [''components'', ''common''],
                       path_join libPath [''components'', ''layout''],
                       path_join libPath [''stores''],
                       path_join libPath [''utils''],
                       path_join libPath [''styles'']] fs)
            (\<lambda>fs1. andThen
               (forEach
                  (\<lambda>file fs.
                     let filePath = path_join libPath [file];
                         exists = pathExists filePath fs
                     in if \<not> exists then Inr fs
                        else if file = ''Counter.svelte''
                          then moveFile filePath (path_join libPath [''components'', ''common'', file]) fs
                        else Inr fs)
                  libFiles fs1)
            (\<lambda>fs2. updateSvelteAppImports srcPath ''lib/components/common'' fs2)))
        (\<lambda>fs3.
           let srcFiles = readDirectory srcPath fs3 in
           forEach
             (\<lambda>file fs.
                let filePath = path_join srcPath [file];
                    exists = pathExists filePath fs
                in if \<not> exists \<or> file = ''assets'' \<or> file = ''lib'' \<or> file = ''features''
                   then Inr fs
                   else if file = ''app.css''
                     then (let targetPath = path_join libPath [''shared'', ''styles'', file] in
                           andThen (moveFile filePath targetPath fs)
                             (\<lambda>fs'. updateSvelteCssImport srcPath architecture fs'))
                   else Inr fs)
             srcFiles fs3))"

definition reorganizeViteProject :: "path \<Rightarrow> string \<Rightarrow> string \<Rightarrow> fs \<Rightarrow> error + fs" where
  "reorganizeViteProject projectPath architecture framework fs =
     (let srcPath = path_join projectPath [''src''] in
      if framework = ''svelte''
      then reorganizeSvelteProject srcPath architecture fs
      else reorganizeReactProject srcPath architecture fs)"

text \<open>
  \<open>configureSvelteAliases\<close>: the two textual patches of \<open>vite.config.ts\<close>, each behind
  its marker check, then the patch of \<open>tsconfig.app.json\<close>, written only when applied.
\<close>

definition patchViteConfig :: "string \<Rightarrow> string" where
  "patchViteConfig viteContent =
     (let viteContent1 =
            (if \<not> includesText viteContent ''import path from''
             then replaceFirst sveltePluginImport
                    (''import { svelte } from '' @ dq @ ''@sveltejs/vite-plugin-svelte'' @ dq @ '';''
                     @ nl @ ''import path from '' @ dq @ ''node:path'' @ dq)
                    viteContent
             else viteContent);
          viteContent2 =
            (if \<not> includesText viteContent1 ''resolve:''
             then replaceFirst pluginsEntry
                    (''plugins: [svelte()],'' @ nl @ ''  resolve: {'' @ nl @ ''    alias: {'' @ nl
                     @ ''      $lib: path.resolve('' @ dq @ ''src/lib/'' @ dq @ ''),'' @ nl
                     @ ''    },'' @ nl @ ''  },'')
                    viteContent1
             else viteContent1)
      in viteContent2)"

definition patchTsconfig :: "string \<Rightarrow> string" where
  "patchTsconfig tsconfigContent =
     replaceFirst compilerOptionsOpen
       (dq @ ''compilerOptions'' @ dq @ '': {'' @ nl @ ''    '' @ dq @ ''paths'' @ dq @ '': {'' @ nl
        @ ''      '' @ dq @ ''$lib/*'' @ dq @ '': ['' @ dq @ ''src/lib/*'' @ dq @ '']'' @ nl
        @ ''    },'')
       tsconfigContent"

definition configureSvelteAliases :: "path \<Rightarrow> fs \<Rightarrow> error + fs" where
  "configureSvelteAliases projectPath fs =
     (let viteConfigPath = path_join projectPath [''vite.config.ts''];
          viteConfigExists = pathExists viteConfigPath fs
      in andThen
           (if viteConfigExists
            then andThen (fs_readFile viteConfigPath fs)
                   (\<lambda>viteContent. fs_writeFile viteConfigPath (patchViteConfig viteContent) fs)
            else Inr fs)
           (\<lambda>fs1.
              let tsconfigAppPath = path_join projectPath [''tsconfig.app.json''];
                  tsconfigAppExists = pathExists tsconfigAppPath fs1
              in if tsconfigAppExists
                 then andThen (fs_readFile tsconfigAppPath fs1)
                        (\<lambda>tsconfigContent.
                           if \<not> includesText tsconfigContent (dq @ ''paths'' @ dq)
                           then fs_writeFile tsconfigAppPath (patchTsconfig tsconfigContent) fs1
                           else Inr fs1)
                 else Inr fs1))"

section \<open>The Initialization Writer (project-scaffolding.ts)\<close>

text \<open>
  The long literal texts of the starter files (manifests, the Django read-me and
  ignore file, the rendered JSON objects, the framework starters) are parameters of the
  model, each with the values the source interpolates; the short texts are written out.
  What is proved holds whatever the long texts are.
\<close>

record StarterTexts =
  pyprojectContent :: "string \<Rightarrow> string \<Rightarrow> string"
  gitignoreContent :: string
  readmeContent :: "string \<Rightarrow> string"
  packageJson :: "string \<Rightarrow> Language \<Rightarrow> string \<Rightarrow> string"
  tsconfigContent :: string
  fastifyMainContent :: string
  fiberMainContent :: "string \<Rightarrow> string"
  ginMainContent :: string
  echoMainContent :: string

definition writeFiles :: "(path \<times> string) list \<Rightarrow> fs \<Rightarrow> error + fs" where
  \<comment> \<open>a run of \<open>await writeFile(...)\<close> statements\<close>
  "writeFiles ws fs = forEach (\<lambda>(filePath, content) fs. writeFile filePath content fs) ws fs"

definition initializeDjangoProject :: "StarterTexts \<Rightarrow> path \<Rightarrow> fs \<Rightarrow> error + fs" where
  "initializeDjangoProject texts projectPath fs =
     (let projectName = path_basename projectPath
      in writeFiles
           [(path_join projectPath [''.python-version''], ''3.11'' @ nl),
            (path_join projectPath [''.gitignore''], gitignoreContent texts),
            (path_join projectPath [''requirements.txt''],
             ''# Dependencies will be added via: uv pip freeze > requirements.txt'' @ nl),
            (path_join projectPath [''README.md''], readmeContent texts projectName)] fs)"

definition pythonMainContent :: "string \<Rightarrow> string" where
  "pythonMainContent framework =
     dq @ dq @ dq @ ''Main application entry point.'' @ dq @ dq @ dq @ nl
     @ nl
     @ ''def main() -> None:'' @ nl
     @ ''    '' @ dq @ dq @ dq @ ''Run the application.'' @ dq @ dq @ dq @ nl
     @ ''    print('' @ dq @ ''Hello from '' @ framework @ ''!'' @ dq @ '')'' @ nl
     @ nl
     @ ''if __name__ == '' @ dq @ ''__main__'' @ dq @ '':'' @ nl
     @ ''    main()'' @ nl"

definition initializePythonProject :: "StarterTexts \<Rightarrow> path \<Rightarrow> string \<Rightarrow> fs \<Rightarrow> error + fs" where
  "initializePythonProject texts projectPath framework fs =
     (if framework = ''django'' then initializeDjangoProject texts projectPath fs
      else writeFiles
             [(path_join projectPath [''pyproject.toml''],
               pyprojectContent texts (path_basename projectPath) framework),
              (path_join projectPath [''main.py''], pythonMainContent framework),
              (path_join projectPath [''.python-version''], ''3.11'' @ nl)] fs)"

definition initializeNodeProject ::
  "StarterTexts \<Rightarrow> path \<Rightarrow> Language \<Rightarrow> string \<Rightarrow> fs \<Rightarrow> error + fs" where
  "initializeNodeProject texts projectPath language framework fs =
     (let isTypeScript = (language = TypeScript);
          ext = (if isTypeScript then ''ts'' else ''js'')
      in andThen (writeFile (path_join projectPath [''package.json''])
                    (packageJson texts (path_basename projectPath) language framework) fs)
         (\<lambda>fs1. andThen
            (if isTypeScript
             then writeFile (path_join projectPath [''tsconfig.json'']) (tsconfigContent texts) fs1
             else Inr fs1)
         (\<lambda>fs2.
            let srcDir = path_join projectPath [''src''] in
            andThen (createDirectory srcDir fs2)
         (\<lambda>fs3.
            let mainContent =
                  (if framework = ''fastify'' \<and> isTypeScript then fastifyMainContent texts
                   else if framework = ''fastify'' \<and> \<not> isTypeScript then fastifyMainContent texts
                   else ''console.log('' @ dq @ ''Hello from '' @ framework @ ''!'' @ dq @ '');'' @ nl)
            in writeFile (path_join srcDir [''index.'' @ ext]) mainContent fs3))))"

definition goDefaultMainContent :: string where
  "goDefaultMainContent =
     ''package main'' @ nl @ nl @ ''import '' @ dq @ ''fmt'' @ dq @ nl @ nl
     @ ''func main() {'' @ nl
     @ [CHR 0x09] @ ''fmt.Println('' @ dq @ ''Hello from Go!'' @ dq @ '')'' @ nl
     @ ''}'' @ nl"

definition initializeGoProject :: "StarterTexts \<Rightarrow> shell \<Rightarrow> path \<Rightarrow> string \<Rightarrow> fs \<Rightarrow> error + fs" where
  "initializeGoProject texts execSync projectPath framework fs =
     (let moduleName = path_basename projectPath;
          fs1 = snd (executeCommand execSync (''go mod init '' @ moduleName) projectPath fs);
          mainPath = path_join projectPath [''cmd'', ''api'', ''main.go''];
          mainContent =
            (if framework = ''fiber'' then fiberMainContent texts moduleName
             else if framework = ''gin'' then ginMainContent texts
             else if framework = ''echo'' then echoMainContent texts
             else goDefaultMainContent)
      in writeFile mainPath mainContent fs1)"

text \<open>
  Frameworks that have official CLIs: the keys of the registry \<open>FRAMEWORK_CLIS\<close> with
  the command and the check command of each.
\<close>

definition FRAMEWORK_CLIS :: "(string \<times> string \<times> string) list" where
  "FRAMEWORK_CLIS =
     [(''nestjs'', ''nest'', ''nest --version''),
      (''nextjs'', ''npx'', ''npx --version''),
      (''react'', ''npx'', ''npx --version''),
      (''svelte'', ''npx'', ''npx --version''),
      (''angular'', ''ng'', ''ng version''),
      (''sveltekit'', ''npx'', ''npx --version'')]"

text \<open>
  The test \<open>FRAMEWORK_CLIS[framework]\<close> reads a property of a plain object: it is
  truthy for the six keys of the registry and also for every property name the object
  inherits from \<open>Object.prototype\<close>, whose values are functions and, for
  \<open>__proto__\<close>, the prototype itself.
\<close>

definition objectPrototypeKeys :: "string list" where
  "objectPrototypeKeys =
     [''constructor'', ''__defineGetter__'', ''__defineSetter__'', ''hasOwnProperty'',
      ''__lookupGetter__'', ''__lookupSetter__'', ''isPrototypeOf'', ''propertyIsEnumerable'',
      ''toString'', ''valueOf'', ''__proto__'', ''toLocaleString'']"

definition hasFrameworkCLI :: "string \<Rightarrow> bool" where
  "hasFrameworkCLI framework =
     (map_of FRAMEWORK_CLIS framework \<noteq> None \<or> framework \<in> set objectPrototypeKeys)"

section \<open>The configuration and the creation flow (project-scaffolding.ts)\<close>

record ProjectConfig =
  projectName :: string
  projectType :: Project
  language :: Language
  framework :: string
  architecture :: string
  projectPath :: path

definition createBackendStructure :: "ProjectConfig \<Rightarrow> fs \<Rightarrow> error + fs" where
  "createBackendStructure config fs =
     (if framework config = ''django'' then Inr fs
      else if language config = Go then createGoStructure (projectPath config) (architecture config) fs
      else if architecture config = ''mvc''
        then createMVCStructure (projectPath config) (language config) fs
      else if architecture config = ''hexagonal''
        then createHexagonalStructure (projectPath config) (language config) fs
      else if architecture config = ''layered''
        then createLayeredStructure (projectPath config) (language config) fs
      else if architecture config = ''layered-screaming''
        then createLayeredScreamingStructure (projectPath config) (language config) fs
      else createLayeredStructure (projectPath config) (language config) fs)"

definition createFrontendStructure :: "ProjectConfig \<Rightarrow> fs \<Rightarrow> error + fs" where
  "createFrontendStructure config fs =
     (if architecture config = ''feature-based''
      then createFeatureBasedStructure (projectPath config) fs
      else createComponentBasedStructure (projectPath config) fs)"

definition createFullstackStructure :: "ProjectConfig \<Rightarrow> fs \<Rightarrow> error + fs" where
  "createFullstackStructure config fs =
     createDirectories
       [path_join (projectPath config) [''src''],
        path_join (projectPath config) [''public'']] fs"

text \<open>
  The from-scratch branch of \<open>createProjectStructure\<close> (the statements after the
  attempt with the framework CLI): the base directory, then the structure for the
  project type; the requested path is returned.
\<close>

definition buildFromScratch :: "ProjectConfig \<Rightarrow> fs \<Rightarrow> error + (path option \<times> fs)" where
  "buildFromScratch config fs =
     (case createDirectory (projectPath config) fs of
        Inl e \<Rightarrow> Inl e
      | Inr fs1 \<Rightarrow>
          (case (case projectType config of
                   Backend \<Rightarrow> createBackendStructure config fs1
                 | Frontend \<Rightarrow> createFrontendStructure config fs1
                 | Fullstack \<Rightarrow> createFullstackStructure config fs1) of
             Inl e \<Rightarrow> Inl e
           | Inr fs2 \<Rightarrow> Inr (Some (projectPath config), fs2)))"

text \<open>
  \<open>initializeProject\<close>: nothing when the test of the registry is truthy for the
  framework, else the starter of the language.
\<close>

definition initializeProject :: "StarterTexts \<Rightarrow> shell \<Rightarrow> ProjectConfig \<Rightarrow> fs \<Rightarrow> error + fs" where
  "initializeProject texts execSync config fs =
     (if hasFrameworkCLI (framework config) then Inr fs
      else if language config = Python
        then initializePythonProject texts (projectPath config) (framework config) fs
      else if language config = TypeScript \<or> language config = JavaScript
        then initializeNodeProject texts (projectPath config) (language config) (framework config) fs
      else if language config = Go
        then initializeGoProject texts execSync (projectPath config) (framework config) fs
      else Inr fs)"

text \<open>
  \<open>createProjectWithCLI\<close>: the generator of the framework runs in the parent directory
  of the requested path under the normalized name. A generator that exits with an
  error is caught and gives \<open>null\<close>; so does a framework without a generator.
\<close>

definition runGenerator :: "shell \<Rightarrow> string \<Rightarrow> path \<Rightarrow> path \<Rightarrow> fs \<Rightarrow> path option \<times> fs" where
  \<comment> \<open>\<open>execSync(command, { cwd: parentDir }); return actualProjectPath\<close> inside the \<open>try\<close>\<close>
  "runGenerator execSync command parentDir actualProjectPath fs =
     (case execSync command (Some parentDir) fs of
        (True, fs') \<Rightarrow> (Some actualProjectPath, fs')
      | (False, fs') \<Rightarrow> (None, fs'))"

definition createProjectWithCLI :: "shell \<Rightarrow> ProjectConfig \<Rightarrow> fs \<Rightarrow> path option \<times> fs" where
  "createProjectWithCLI execSync config fs =
     (let (packageManager, fs0) = detectPackageManager execSync fs;
          parentDir = path_dirname (projectPath config);
          normalizedName = normalizeProjectName (framework config) (projectName config);
          actualProjectPath = path_join parentDir [normalizedName]
      in if framework config = ''nestjs'' then
           runGenerator execSync
             (''npx -y @nestjs/cli new '' @ normalizedName @ '' --package-manager='' @ packageManager)
             parentDir actualProjectPath fs0
         else if framework config = ''nextjs'' then
           runGenerator execSync
             (if language config = TypeScript
              then ''npx create-next-app@latest '' @ normalizedName
                   @ '' --typescript --app --eslint --tailwind --src-dir --no-turbopack''
              else ''npx create-next-app@latest '' @ normalizedName
                   @ '' --javascript --app --eslint --tailwind --src-dir --no-turbopack'')
             parentDir actualProjectPath fs0
         else if framework config = ''react'' then
           runGenerator execSync
             (''npx --yes create-vite@latest '' @ normalizedName @ '' --template ''
              @ (if language config = TypeScript then ''react-ts'' else ''react''))
             parentDir actualProjectPath fs0
         else if framework config = ''svelte'' then
           runGenerator execSync
             (''npx --yes create-vite@latest '' @ normalizedName @ '' --template ''
              @ (if language config = TypeScript then ''svelte-ts'' else ''svelte''))
             parentDir actualProjectPath fs0
         else if framework config = ''sveltekit'' then
           runGenerator execSync (''npx sv create '' @ normalizedName) parentDir actualProjectPath fs0
         else if framework config = ''angular'' then
           (case checkCommandExists execSync ''ng'' fs0 of
              (hasAngularCLI, fs1) \<Rightarrow>
                (case (if \<not> hasAngularCLI
                       then execSync ''npm install -g @angular/cli'' None fs1
                       else (True, fs1)) of
                   (False, fs2) \<Rightarrow> (None, fs2)
                 | (True, fs2) \<Rightarrow>
                     runGenerator execSync
                       (''ng new '' @ normalizedName @ '' --routing --style=scss --skip-git'')
                       parentDir actualProjectPath fs2))
         else (None, fs0))"

text \<open>
  The invocation of the generator in \<open>createProjectWithCLI\<close>: the command line the
  \<open>case\<close> of the framework passes to \<open>execSync\<close> with the parent directory as
  working directory, and the file system at that moment, which is the one left by the
  detection of the package manager and, for angular, by the check for \<open>ng\<close> and the
  installation of the Angular CLI. There is none for a framework without a \<open>case\<close>,
  nor when that installation has thrown.
\<close>

definition generatorInvocation :: "shell \<Rightarrow> ProjectConfig \<Rightarrow> fs \<Rightarrow> (string \<times> fs) option" where
  "generatorInvocation execSync config fs =
     (let (packageManager, fs0) = detectPackageManager execSync fs;
          normalizedName = normalizeProjectName (framework config) (projectName config)
      in if framework config = ''nestjs'' then
           Some (''npx -y @nestjs/cli new '' @ normalizedName @ '' --package-manager='' @ packageManager,
                 fs0)
         else if framework config = ''nextjs'' then
           Some (if language config = TypeScript
                 then ''npx create-next-app@latest '' @ normalizedName
                      @ '' --typescript --app --eslint --tailwind --src-dir --no-turbopack''
                 else ''npx create-next-app@latest '' @ normalizedName
                      @ '' --javascript --app --eslint --tailwind --src-dir --no-turbopack'',
                 fs0)
         else if framework config = ''react'' then
           Some (''npx --yes create-vite@latest '' @ normalizedName @ '' --template ''
                 @ (if language config = TypeScript then ''react-ts'' else ''react''), fs0)
         else if framework config = ''svelte'' then
           Some (''npx --yes create-vite@latest '' @ normalizedName @ '' --template ''
                 @ (if language config = TypeScript then ''svelte-ts'' else ''svelte''), fs0)
         else if framework config = ''sveltekit'' then
           Some (''npx sv create '' @ normalizedName, fs0)
         else if framework config = ''angular'' then
           (case checkCommandExists execSync ''ng'' fs0 of
              (hasAngularCLI, fs1) \<Rightarrow>
                (case (if \<not> hasAngularCLI
                       then execSync ''npm install -g @angular/cli'' None fs1
                       else (True, fs1)) of
                   (False, fs2) \<Rightarrow> None
                 | (True, fs2) \<Rightarrow>
                     Some (''ng new '' @ normalizedName @ '' --routing --style=scss --skip-git'', fs2)))
         else None)"

text \<open>
  \<open>createProjectStructure\<close>: with a path from the CLI the React and Svelte projects
  are reorganized and the Svelte aliases configured, and that path is returned; else
  the structure is built from scratch.
\<close>

definition createProjectStructure :: "shell \<Rightarrow> ProjectConfig \<Rightarrow> fs \<Rightarrow> error + (path option \<times> fs)" where
  "createProjectStructure execSync config fs =
     (case createProjectWithCLI execSync config fs of
        (Some actualPath, fs1) \<Rightarrow>
          andThen
            (if framework config = ''react'' \<or> framework config = ''svelte''
             then reorganizeViteProject actualPath (architecture config) (framework config) fs1
             else Inr fs1)
          (\<lambda>fs2. andThen
            (if framework config = ''svelte'' then configureSvelteAliases actualPath fs2 else Inr fs2)
          (\<lambda>fs3. Inr (Some actualPath, fs3)))
      | (None, fs1) \<Rightarrow> buildFromScratch config fs1)"

section \<open>Skill bundles (skills.ts)\<close>

text \<open>
  The interface \<open>Skill\<close> of the skill catalogue: display name, directory name below the
  bundled assets, description and the optional \<open>isDefault\<close> flag.
\<close>

record Skill =
  name :: string
  path :: string
  description :: string
  isDefault :: "bool option"

text \<open>
  \<open>combineSkills\<close>: the three lists are spread into one array, which is reduced from the
  left into an accumulator that starts empty; a skill is pushed at the end of the
  accumulator unless \<open>acc.find\<close> meets an element with the same \<open>path\<close>.
\<close>

definition combineSkills :: "Skill list \<Rightarrow> Skill list \<Rightarrow> Skill list \<Rightarrow> Skill list" where
  "combineSkills defaultSkills frameworkSkills additionalSkills =
     (let allSkills = defaultSkills @ frameworkSkills @ additionalSkills in
      foldl (\<lambda>acc skill.
               if find (\<lambda>s. path s = path skill) acc = None then acc @ [skill] else acc)
            [] allSkills)"

text \<open>
  The reading of the specification: walk the concatenation from the left and drop every
  skill whose path is the path of a skill met earlier.
\<close>

fun firstByPath :: "string list \<Rightarrow> Skill list \<Rightarrow> Skill list" where
  "firstByPath seen [] = []"
| "firstByPath seen (s # ss) =
     (if path s \<in> set seen then firstByPath seen ss
      else s # firstByPath (path s # seen) ss)"

section \<open>The command-line action (index.ts)\<close>

text \<open>
  What the prompts return when none of them is cancelled: the project type, the
  language, the framework, the project name, the architecture chosen when the
  architecture is asked for, the selected MCPs and the selected additional skills. An
  MCP entry is only passed on, so its type is left open.
\<close>

record 'mcp Answers =
  answeredProjectType :: Project
  answeredLanguage :: Language
  answeredFramework :: string
  answeredProjectName :: string
  selectedArchitecture :: string
  selectedMCPs :: "'mcp list"
  selectedAdditionalSkills :: "Skill list"

text \<open>
  The two steps whose work is outside the scaffolding core, the copy of the skill
  bundles and the writer of the MCP configuration, are calls to the environment, which
  performs them on the file system or throws.
\<close>

datatype 'mcp call = InstallSkills path "Skill list" | CreateMCPConfig path "'mcp list"

type_synonym 'mcp external = "'mcp call \<Rightarrow> fs \<Rightarrow> error + fs"

text \<open>
  The steps of a run after the creation of the project, with the path or name each one
  is given: the initialization, the dependency install (its command and working
  directory), the skill install, the MCP configuration, the Python environment and
  the \<open>cd\<close> line of the next steps.
\<close>

datatype 'mcp step =
    StepInitialize ProjectConfig
  | StepInstallDependencies string path
  | StepInstallSkills path "Skill list"
  | StepMCPConfig path "'mcp list"
  | StepPythonEnv path
  | StepPrintCd string

definition frameworksNeedingArchitecture :: "string list" where
  "frameworksNeedingArchitecture =
     [''fastapi'', ''express'', ''fastify'', ''flask'',
      ''fiber'', ''gin'', ''echo'',
      ''react'', ''svelte'']"

definition resolveArchitecture :: "'mcp Answers \<Rightarrow> string" where
  \<comment> \<open>Step 5 of the prompts: the chosen architecture, or the default of the project type\<close>
  "resolveArchitecture answers =
     (if answeredFramework answers \<in> set frameworksNeedingArchitecture
      then selectedArchitecture answers
      else if answeredProjectType answers = Backend \<or> answeredLanguage answers = Go
        then ''layered''
      else ''component-based'')"

text \<open>
  The Python set-up: with \<open>uv\<close> present the virtual environment is created and, for
  Django, Django is installed, the project started and migrated; the first failing
  command ends the set-up with a warning.
\<close>

fun runUntilFailure :: "shell \<Rightarrow> path \<Rightarrow> string list \<Rightarrow> fs \<Rightarrow> fs" where
  "runUntilFailure execSync cwd [] fs = fs"
| "runUntilFailure execSync cwd (command # commands) fs =
     (case execSync command (Some cwd) fs of
        (True, fs') \<Rightarrow> runUntilFailure execSync cwd commands fs'
      | (False, fs') \<Rightarrow> fs')"

definition pythonSetup :: "shell \<Rightarrow> string \<Rightarrow> path \<Rightarrow> fs \<Rightarrow> fs" where
  "pythonSetup execSync fw finalProjectPath fs =
     (case checkCommandExists execSync ''uv'' fs of
        (True, fs1) \<Rightarrow>
          runUntilFailure execSync finalProjectPath
            (''uv venv .venv''
             # (if fw = ''django''
                then [''uv pip install Django'',
                      ''source .venv/bin/activate && django-admin startproject config .'',
                      ''source .venv/bin/activate && python manage.py migrate'']
                else [])) fs1
      | (False, fs1) \<Rightarrow> fs1)"

text \<open>
  The body of the \<open>try\<close> block from the answers on, in two parts: the creation and
  initialization of the project, and (\<open>finishFlow\<close>) the steps after them. The result
  is the error thrown, if any, and the steps taken. The catalogues of default and
  framework skills (types/skills.ts) are parameters.
\<close>

definition installDependencies :: "shell \<Rightarrow> path \<Rightarrow> fs \<Rightarrow> string \<times> fs" where
  \<comment> \<open>the install for React and Svelte after the reorganization; a failure is a warning\<close>
  "installDependencies execSync finalProjectPath fs =
     (let (packageManager, fs1) = detectPackageManager execSync fs;
          installCmd =
            (if packageManager = ''npm'' then ''npm install''
             else if packageManager = ''pnpm'' then ''pnpm install''
             else if packageManager = ''bun'' then ''bun install''
             else ''yarn install'')
      in (installCmd, snd (execSync installCmd (Some finalProjectPath) fs1)))"

definition finishFlow ::
  "(Project \<Rightarrow> Skill list) \<Rightarrow> (string \<Rightarrow> Skill list) \<Rightarrow> shell \<Rightarrow> 'mcp external
   \<Rightarrow> 'mcp Answers \<Rightarrow> path \<Rightarrow> string \<Rightarrow> 'mcp step list \<Rightarrow> fs \<Rightarrow> error option \<times> 'mcp step list" where
  "finishFlow DEFAULT_SKILLS FRAMEWORK_SKILLS execSync env answers finalProjectPath finalProjectName
     steps1 fs2 =
     (let (steps2, fs3) =
            (if answeredFramework answers = ''react'' \<or> answeredFramework answers = ''svelte''
             then (case installDependencies execSync finalProjectPath fs2 of
                     (installCmd, fs') \<Rightarrow>
                       (steps1 @ [StepInstallDependencies installCmd finalProjectPath], fs'))
             else (steps1, fs2));
          allSkills = combineSkills
            (DEFAULT_SKILLS (answeredProjectType answers))
            (FRAMEWORK_SKILLS (answeredFramework answers))
            (selectedAdditionalSkills answers);
          steps3 = steps2 @ [StepInstallSkills finalProjectPath allSkills]
      in case env (InstallSkills finalProjectPath allSkills) fs3 of
           Inl e \<Rightarrow> (Some e, steps3)
         | Inr fs4 \<Rightarrow>
             (let steps4 =
                    (if selectedMCPs answers \<noteq> []
                     then steps3 @ [StepMCPConfig finalProjectPath (selectedMCPs answers)]
                     else steps3)
              in case (if selectedMCPs answers \<noteq> []
                       then env (CreateMCPConfig finalProjectPath (selectedMCPs answers)) fs4
                       else Inr fs4) of
                   Inl e \<Rightarrow> (Some e, steps4)
                 | Inr fs5 \<Rightarrow>
                     (let steps5 =
                            (if answeredLanguage answers = Python
                             then steps4 @ [StepPythonEnv finalProjectPath]
                             else steps4);
                          fs6 = (if answeredLanguage answers = Python
                                 then pythonSetup execSync (answeredFramework answers)
                                        finalProjectPath fs5
                                 else fs5)
                      in (None, steps5 @ [StepPrintCd finalProjectName]))))"

definition creationFlow ::
  "(Project \<Rightarrow> Skill list) \<Rightarrow> (string \<Rightarrow> Skill list) \<Rightarrow> StarterTexts \<Rightarrow> shell \<Rightarrow> 'mcp external
   \<Rightarrow> path \<Rightarrow> 'mcp Answers \<Rightarrow> fs \<Rightarrow> error option \<times> 'mcp step list" where
  "creationFlow DEFAULT_SKILLS FRAMEWORK_SKILLS texts execSync env cwd answers fs =
     (let architecture' = resolveArchitecture answers;
          projectPath' = path_join cwd [answeredProjectName answers];
          config = \<lparr>projectName = answeredProjectName answers,
                    projectType = answeredProjectType answers,
                    language = answeredLanguage answers,
                    framework = answeredFramework answers,
                    architecture = architecture',
                    projectPath = projectPath'\<rparr>
      in case createProjectStructure execSync config fs of
           Inl e \<Rightarrow> (Some e, [])
         | Inr (actualProjectPath, fs1) \<Rightarrow>
             (let finalProjectPath = (case actualProjectPath of Some p \<Rightarrow> p | None \<Rightarrow> projectPath');
                  finalProjectName = path_basename finalProjectPath;
                  finalConfig = config\<lparr>projectName := finalProjectName, projectPath := finalProjectPath\<rparr>
              in case initializeProject texts execSync finalConfig fs1 of
                   Inl e \<Rightarrow> (Some e, [StepInitialize finalConfig])
                 | Inr fs2 \<Rightarrow>
                     finishFlow DEFAULT_SKILLS FRAMEWORK_SKILLS execSync env answers
                       finalProjectPath finalProjectName [StepInitialize finalConfig] fs2))"

text \<open>
  The action: a cancelled prompt or an error of the flow reaches the \<open>catch\<close> handler,
  which exits with 0 for the error whose message is \<open>User force closed the prompt\<close>
  and with 1 for any other; a run that ends normally exits with 0. The result is the
  exit code and the steps taken.
\<close>

text \<open>
  The prompt library is not part of the repository. A prompt of inquirer that the user
  interrupts (Ctrl-C) is rejected with an \<open>ExitPromptError\<close> whose message names
  the signal.
\<close>

definition promptCancelled :: error where
  "promptCancelled = Error ''User force closed the prompt with SIGINT''"

definition exitCodeFor :: "error \<Rightarrow> nat" where
  "exitCodeFor e = (case e of Error message \<Rightarrow>
       if message = ''User force closed the prompt'' then 0 else 1)"

definition action ::
  "(Project \<Rightarrow> Skill list) \<Rightarrow> (string \<Rightarrow> Skill list) \<Rightarrow> StarterTexts \<Rightarrow> shell \<Rightarrow> 'mcp external
   \<Rightarrow> path \<Rightarrow> error + 'mcp Answers \<Rightarrow> fs \<Rightarrow> nat \<times> 'mcp step list" where
  "action DEFAULT_SKILLS FRAMEWORK_SKILLS texts execSync env cwd prompts fs =
     (case prompts of
        Inl e \<Rightarrow> (exitCodeFor e, [])
      | Inr answers \<Rightarrow>
          (case creationFlow DEFAULT_SKILLS FRAMEWORK_SKILLS texts execSync env cwd answers fs of
             (Some e, steps) \<Rightarrow> (exitCodeFor e, steps)
           | (None, steps) \<Rightarrow> (0, steps)))"

text \<open>
  A step works on the project at path \<open>p\<close> under the name \<open>nm\<close>: every path it is given
  is \<open>p\<close> and every name is \<open>nm\<close>.
\<close>

fun stepUses :: "path \<Rightarrow> string \<Rightarrow> 'mcp step \<Rightarrow> bool" where
  "stepUses p nm (StepInitialize config) = (projectPath config = p \<and> projectName config = nm)"
| "stepUses p nm (StepInstallDependencies installCmd cwd) = (cwd = p)"
| "stepUses p nm (StepInstallSkills projectPath' skills) = (projectPath' = p)"
| "stepUses p nm (StepMCPConfig projectPath' mcps) = (projectPath' = p)"
| "stepUses p nm (StepPythonEnv cwd) = (cwd = p)"
| "stepUses p nm (StepPrintCd finalProjectName) = (finalProjectName = nm)"

text \<open>
  An environment for the closed instances: every probe and generator succeeds without
  touching the file system, and the external steps succeed.
\<close>

definition quietShell :: shell where
  "quietShell command cwd fs = (True, fs)"

definition quietSteps :: "unit external" where
  "quietSteps c fs = Inr fs"

definition exampleTexts :: StarterTexts where
  "exampleTexts =
     \<lparr>pyprojectContent = (\<lambda>nm fw. ''[project] '' @ nm @ '' '' @ fw),
      gitignoreContent = ''# Python'',
      readmeContent = (\<lambda>nm. ''# '' @ nm),
      packageJson = (\<lambda>nm lang fw. ''{ name: '' @ nm @ '' }''),
      tsconfigContent = ''{ compilerOptions }'',
      fastifyMainContent = ''import Fastify'',
      fiberMainContent = (\<lambda>nm. ''package main // fiber '' @ nm),
      ginMainContent = ''package main // gin'',
      echoMainContent = ''package main // echo''\<rparr>"

definition exampleNestAnswers :: "unit Answers" where
  "exampleNestAnswers =
     \<lparr>answeredProjectType = Backend, answeredLanguage = TypeScript,
      answeredFramework = ''nestjs'', answeredProjectName = ''My_App'',
      selectedArchitecture = ''default'', selectedMCPs = [()],
      selectedAdditionalSkills = []\<rparr>"

definition exampleExpressAnswers :: "unit Answers" where
  "exampleExpressAnswers =
     \<lparr>answeredProjectType = Backend, answeredLanguage = TypeScript,
      answeredFramework = ''express'', answeredProjectName = ''shop-api'',
      selectedArchitecture = ''mvc'', selectedMCPs = [],
      selectedAdditionalSkills = []\<rparr>"

definition exampleBlockedHome :: fs where
  \<comment> \<open>a regular file stands where the project directory is wanted\<close>
  "exampleBlockedHome =
     [([''home''], Dir), ([''home'', ''dev''], Dir), ([''home'', ''dev'', ''shop-api''], File ''notes'')]"

text \<open>
  A generator that fails after it has written part of a project: every command run in
  a working directory makes \<open>shop-ui\<close> there with a \<open>package.json\<close> and exits with
  an error; the probes, which run without a working directory, succeed.
\<close>

definition partialGenerator :: shell where
  "partialGenerator command cwd fs =
     (case cwd of
        Some dir \<Rightarrow>
          (False, fs @ [(dir @ [''shop-ui''], Dir), (dir @ [''shop-ui'', ''package.json''], File ''{'')])
      | None \<Rightarrow> (True, fs))"

text \<open>
  A shell in which only the generator of the example fails: the \<open>create-vite\<close> command
  makes \<open>shop-ui\<close> with a \<open>package.json\<close> in its working directory and exits with
  an error; every other command succeeds and leaves the file system as it is.
\<close>

definition failingVite :: shell where
  "failingVite command cwd fs =
     (if command = ''npx --yes create-vite@latest shop-ui --template react-ts''
      then (case cwd of
              Some dir \<Rightarrow>
                (False,
                 fs @ [(dir @ [''shop-ui''], Dir), (dir @ [''shop-ui'', ''package.json''], File ''{'')])
            | None \<Rightarrow> (False, fs))
      else (True, fs))"

definition exampleFeatureConfig :: ProjectConfig where
  "exampleFeatureConfig =
     \<lparr>projectName = ''shop-ui'', projectType = Frontend, language = TypeScript,
      framework = ''react'', architecture = ''feature-based'',
      projectPath = [''home'', ''dev'', ''shop-ui'']\<rparr>"

section \<open>The directory tables of the specification\<close>

text \<open>
  Modelled from the spec: the mapping table of section 4.1, the directories relative to
  the source root, with the defaults of the builder for any other architecture tag
  (the catalogue of architecture tags, types/architecture.ts, is not among the
  sources).
\<close>

definition specTable :: "Project \<Rightarrow> string \<Rightarrow> path list" where
  "specTable kind arch =
     (case kind of
        Backend \<Rightarrow>
          (if arch = ''mvc'' then
             [[''models''], [''views''], [''controllers''], [''routes''], [''config''],
              [''middlewares''], [''utils'']]
           else if arch = ''hexagonal'' then
             [[''domain'', ''entities''], [''domain'', ''repositories''], [''domain'', ''services''],
              [''application'', ''use-cases''], [''application'', ''dto''],
              [''infrastructure'', ''adapters''], [''infrastructure'', ''persistence''],
              [''infrastructure'', ''http'']]
           else if arch = ''layered-screaming'' then
             [[''features'', ''example-feature'', ''presentation''],
              [''features'', ''example-feature'', ''business''],
              [''features'', ''example-feature'', ''data''],
              [''shared'', ''config''], [''shared'', ''utils'']]
           else
             [[''presentation''], [''business''], [''data''], [''config'']])
      | Frontend \<Rightarrow>
          (if arch = ''feature-based'' then
             [[''features'', ''example-feature'', ''components''],
              [''features'', ''example-feature'', ''hooks''],
              [''features'', ''example-feature'', ''utils''],
              [''shared'', ''components''], [''shared'', ''hooks''], [''shared'', ''utils''],
              [''styles''], [''assets'']]
           else
             [[''components'', ''common''], [''components'', ''layout''], [''pages''], [''hooks''],
              [''utils''], [''styles''], [''assets'']])
      | Fullstack \<Rightarrow> [])"

text \<open>
  Modelled from the spec: the source root is the project root for python and the
  nested \<open>src\<close> otherwise.
\<close>

definition sourceRoot :: "Language \<Rightarrow> path" where
  "sourceRoot lang = (if lang = Python then [] else [''src''])"

text \<open>
  The directory set the specification lists for a combination, relative to the project
  root: the table below the source root, and \<open>tests\<close> at the project root where the
  table says so (backend, mvc).
\<close>

definition specDirectories :: "Project \<Rightarrow> Language \<Rightarrow> string \<Rightarrow> path list" where
  "specDirectories kind lang arch =
     map (\<lambda>r. sourceRoot lang @ r) (specTable kind arch)
     @ (if kind = Backend \<and> arch = ''mvc'' then [[''tests'']] else [])"

text \<open>
  The table of the Go structures, relative to the project root.
\<close>

definition goTable :: "string \<Rightarrow> path list" where
  "goTable arch =
     (if arch = ''mvc'' then
        [[''cmd'', ''api''], [''internal'', ''models''], [''internal'', ''views''],
         [''internal'', ''controllers''], [''internal'', ''routes''], [''internal'', ''middleware''],
         [''internal'', ''infrastructure'', ''database''],
         [''internal'', ''infrastructure'', ''config''], [''pkg'']]
      else if arch = ''hexagonal'' then
        [[''cmd'', ''api''], [''internal'', ''domain'', ''entity''],
         [''internal'', ''domain'', ''repository''], [''internal'', ''usecase''],
         [''internal'', ''delivery'', ''http'', ''handler''],
         [''internal'', ''delivery'', ''http'', ''middleware''],
         [''internal'', ''infrastructure'', ''database''],
         [''internal'', ''infrastructure'', ''config''], [''pkg'']]
      else if arch = ''layered-screaming'' then
        [[''cmd'', ''api''], [''internal'', ''features'', ''example'', ''handler''],
         [''internal'', ''features'', ''example'', ''business''],
         [''internal'', ''features'', ''example'', ''repository''],
         [''internal'', ''shared'', ''middleware''], [''internal'', ''shared'', ''utils''],
         [''internal'', ''infrastructure'', ''database''],
         [''internal'', ''infrastructure'', ''config''], [''pkg'']]
      else
        [[''cmd'', ''api''], [''internal'', ''delivery'', ''http'', ''handler''],
         [''internal'', ''delivery'', ''http'', ''middleware''], [''internal'', ''business''],
         [''internal'', ''data'', ''repository''],
         [''internal'', ''infrastructure'', ''database''],
         [''internal'', ''infrastructure'', ''config''], [''pkg'']])"

text \<open>
  The directories the builder is asked for, relative to the project root: the table of
  the specification below the source root with \<open>tests\<close> for every backend architecture
  and \<open>public\<close> for the frontend; the Go table for go; nothing for django; \<open>src\<close> and
  \<open>public\<close> for a fullstack project.
\<close>

definition builtDirectories :: "Project \<Rightarrow> Language \<Rightarrow> string \<Rightarrow> string \<Rightarrow> path list" where
  "builtDirectories kind lang fw arch =
     (case kind of
        Backend \<Rightarrow>
          (if fw = ''django'' then []
           else if lang = Go then goTable arch
           else map (\<lambda>r. sourceRoot lang @ r) (specTable Backend arch) @ [[''tests'']])
      | Frontend \<Rightarrow> map (\<lambda>r. [''src''] @ r) (specTable Frontend arch) @ [[''public'']]
      | Fullstack \<Rightarrow> [[''src''], [''public'']])"

text \<open>
  A list of directories with the directories above them, in the order \<open>mkdir\<close> makes
  them.
\<close>

definition addDirs :: "path list \<Rightarrow> path \<Rightarrow> path list" where
  "addDirs rs r = rs @ filter (\<lambda>x. x \<notin> set rs) (ancestors r)"

definition withParents :: "path list \<Rightarrow> path list" where
  "withParents rels = foldl addDirs [] rels"

text \<open>
  An empty root: nothing lies below the project path, and no regular file stands at it
  or above it.
\<close>

definition emptyRoot :: "path \<Rightarrow> fs \<Rightarrow> bool" where
  "emptyRoot root fs =
     (list_all (\<lambda>(q, n). below root q \<longrightarrow> q = root) fs
      \<and> list_all (\<lambda>q. \<not> isFile (lookup fs q)) (ancestors root))"

text \<open>
  The state of the tree below a root during a run of directory creations: the root and
  everything above it are directories, and exactly the listed relative paths exist
  below it, as directories.
\<close>

definition rooted :: "path \<Rightarrow> fs \<Rightarrow> path list \<Rightarrow> bool" where
  "rooted p S rs = ((\<forall>q\<in>set (ancestors p). lookup S q = Some Dir)
     \<and> (\<forall>x. x \<noteq> [] \<longrightarrow> lookup S (p @ x) = (if x \<in> set rs then Some Dir else None)))"

text \<open>Example configurations and file systems, for the closed instances of the theorems.\<close>

definition exampleHome :: fs where
  "exampleHome = [([''home''], Dir), ([''home'', ''dev''], Dir)]"

definition exampleMvcConfig :: ProjectConfig where
  "exampleMvcConfig =
     \<lparr>projectName = ''shop-api'', projectType = Backend, language = TypeScript,
      framework = ''express'', architecture = ''mvc'',
      projectPath = [''home'', ''dev'', ''shop-api'']\<rparr>"

definition exampleGoConfig :: ProjectConfig where
  "exampleGoConfig =
     \<lparr>projectName = ''ledger'', projectType = Backend, language = Go,
      framework = ''gin'', architecture = ''hexagonal'',
      projectPath = [''home'', ''dev'', ''ledger'']\<rparr>"

definition exampleGoMvcConfig :: ProjectConfig where
  "exampleGoMvcConfig =
     \<lparr>projectName = ''shop-api'', projectType = Backend, language = Go,
      framework = ''gin'', architecture = ''mvc'',
      projectPath = [''home'', ''dev'', ''shop-api'']\<rparr>"

definition exampleFrontendConfig :: ProjectConfig where
  "exampleFrontendConfig =
     \<lparr>projectName = ''shop-ui'', projectType = Frontend, language = TypeScript,
      framework = ''react'', architecture = ''component-based'',
      projectPath = [''home'', ''dev'', ''shop-ui'']\<rparr>"

definition exampleMainTsx :: fs where
  "exampleMainTsx =
     [([''app''], Dir), ([''app'', ''src''], Dir),
      ([''app'', ''src'', ''main.tsx''],
       File (''import App from '' @ sq @ ''./App'' @ sq @ nl
             @ ''import '' @ sq @ ''./index.css'' @ sq @ nl))]"

definition exampleMainTsxTwice :: fs where
  \<comment> \<open>the stylesheet imported twice, once in each quote style\<close>
  "exampleMainTsxTwice =
     [([''app''], Dir), ([''app'', ''src''], Dir),
      ([''app'', ''src'', ''main.tsx''],
       File (''import '' @ sq @ ''./index.css'' @ sq @ nl
             @ ''import '' @ dq @ ''./index.css'' @ dq @ nl))]"

definition exampleMainTsxDoubleQuoted :: fs where
  "exampleMainTsxDoubleQuoted =
     [([''app''], Dir), ([''app'', ''src''], Dir),
      ([''app'', ''src'', ''main.tsx''], File (''import '' @ dq @ ''./index.css'' @ dq @ nl))]"

text \<open>
  The starter files of a configuration whose framework has no CLI, relative to the
  project path and in the order they are written, with their contents.
\<close>

definition starterFiles :: "StarterTexts \<Rightarrow> ProjectConfig \<Rightarrow> (path \<times> string) list" where
  "starterFiles texts cfg =
     (case language cfg of
        Python \<Rightarrow>
          (if framework cfg = ''django''
           then [([''.python-version''], ''3.11'' @ nl),
                 ([''.gitignore''], gitignoreContent texts),
                 ([''requirements.txt''],
                  ''# Dependencies will be added via: uv pip freeze > requirements.txt'' @ nl),
                 ([''README.md''], readmeContent texts (path_basename (projectPath cfg)))]
           else [([''pyproject.toml''],
                  pyprojectContent texts (path_basename (projectPath cfg)) (framework cfg)),
                 ([''main.py''], pythonMainContent (framework cfg)),
                 ([''.python-version''], ''3.11'' @ nl)])
      | TypeScript \<Rightarrow>
          [([''package.json''],
            packageJson texts (path_basename (projectPath cfg)) TypeScript (framework cfg)),
           ([''tsconfig.json''], tsconfigContent texts),
           ([''src'', ''index.ts''],
            if framework cfg = ''fastify'' then fastifyMainContent texts
            else ''console.log('' @ dq @ ''Hello from '' @ framework cfg @ ''!'' @ dq @ '');'' @ nl)]
      | JavaScript \<Rightarrow>
          [([''package.json''],
            packageJson texts (path_basename (projectPath cfg)) JavaScript (framework cfg)),
           ([''src'', ''index.js''],
            if framework cfg = ''fastify'' then fastifyMainContent texts
            else ''console.log('' @ dq @ ''Hello from '' @ framework cfg @ ''!'' @ dq @ '');'' @ nl)]
      | Go \<Rightarrow>
          [([''cmd'', ''api'', ''main.go''],
            if framework cfg = ''fiber'' then fiberMainContent texts (path_basename (projectPath cfg))
            else if framework cfg = ''gin'' then ginMainContent texts
            else if framework cfg = ''echo'' then echoMainContent texts
            else goDefaultMainContent)])"

text \<open>
  The files can be written: none of them is the root or an existing directory, and on
  the way to each there is no regular file and none of the files themselves.
\<close>

definition writable :: "(path \<times> string) list \<Rightarrow> fs \<Rightarrow> bool" where
  "writable ws fs =
     list_all (\<lambda>(f, c). f \<noteq> [] \<and> lookup fs f \<noteq> Some Dir
        \<and> list_all (\<lambda>q. \<not> isFile (lookup fs q) \<and> q \<notin> fst ` set ws) (ancestors (butlast f))) ws"

definition exampleDjangoConfig :: ProjectConfig where
  "exampleDjangoConfig =
     \<lparr>projectName = ''blog'', projectType = Backend, language = Python,
      framework = ''django'', architecture = ''layered'',
      projectPath = [''home'', ''dev'', ''blog'']\<rparr>"

definition exampleFlaskConfig :: ProjectConfig where
  "exampleFlaskConfig =
     \<lparr>projectName = ''blog'', projectType = Backend, language = Python,
      framework = ''flask'', architecture = ''layered'',
      projectPath = [''home'', ''dev'', ''blog'']\<rparr>"

section \<open>The relocation table of the Structure Reconciler\<close>

text \<open>
  The body of the loops of \<open>reorganizeReactProject\<close> in normal form: the entry named
  \<open>na\<close> is moved from \<open>A\<close> to \<open>dA\<close> and the entry named \<open>nb\<close> from \<open>B\<close> to \<open>dB\<close>, each
  when it exists; every other entry is passed over.
\<close>

definition relocation ::
  "string \<Rightarrow> path \<Rightarrow> path \<Rightarrow> string \<Rightarrow> path \<Rightarrow> path \<Rightarrow> string \<Rightarrow> fs \<Rightarrow> error + fs" where
  "relocation na A dA nb B dB x s =
     (if x = na \<and> lookup s A \<noteq> None then moveFile A dA s
      else if x = nb \<and> lookup s B \<noteq> None then moveFile B dB s
      else Inr s)"

text \<open>
  What the reconciler does to a Vite project, as tables relative to the \<open>src\<close>
  directory of the project: the overlay directories it creates for the framework and
  the architecture, the files it relocates with their destinations, and the entry
  files whose imports it rewrites. Every framework but \<open>svelte\<close> is treated as React.
\<close>

definition overlayDirectories :: "string \<Rightarrow> string \<Rightarrow> path list" where
  "overlayDirectories fw arch =
     (if fw = ''svelte'' then
        (if arch = ''feature-based''
         then [[''features'', ''example'', ''components''],
               [''features'', ''example'', ''stores''],
               [''features'', ''example'', ''utils''],
               [''lib'', ''shared'', ''components''],
               [''lib'', ''shared'', ''stores''],
               [''lib'', ''shared'', ''utils''],
               [''lib'', ''shared'', ''styles'']]
         else [[''lib'', ''components'', ''common''],
               [''lib'', ''components'', ''layout''],
               [''lib'', ''stores''],
               [''lib'', ''utils''],
               [''lib'', ''styles'']])
      else
        (if arch = ''feature-based''
         then [[''features'', ''example'', ''components''],
               [''features'', ''example'', ''hooks''],
               [''features'', ''example'', ''utils''],
               [''features'', ''example'', ''styles''],
               [''shared'', ''components''],
               [''shared'', ''hooks''],
               [''shared'', ''utils''],
               [''shared'', ''styles'']]
         else [[''components'', ''common''],
               [''components'', ''layout''],
               [''hooks''],
               [''utils''],
               [''styles'']]))"

definition relocationTable :: "string \<Rightarrow> string \<Rightarrow> (path \<times> path) list" where
  "relocationTable fw arch =
     (if fw = ''svelte'' then
        [([''lib'', ''Counter.svelte''],
          if arch = ''feature-based''
          then [''lib'', ''shared'', ''components'', ''Counter.svelte'']
          else [''lib'', ''components'', ''common'', ''Counter.svelte'']),
         ([''app.css''], [''lib'', ''shared'', ''styles'', ''app.css''])]
      else
        [([''App.css''],
          if arch = ''feature-based''
          then [''features'', ''example'', ''styles'', ''App.css'']
          else [''styles'', ''App.css'']),
         ([''index.css''],
          if arch = ''feature-based''
          then [''shared'', ''styles'', ''index.css'']
          else [''styles'', ''index.css''])])"

definition rewrittenFiles :: "string \<Rightarrow> path list" where
  "rewrittenFiles fw =
     (if fw = ''svelte'' then [[''App.svelte''], [''main.ts'']]
      else [[''App.tsx''], [''App.jsx''], [''App.svelte''], [''main.tsx''], [''main.jsx'']])"

text \<open>
  A generator output the reconciler can work on: no regular file stands where an
  overlay directory or the directory of a destination is needed, a relocatable file
  that is present is a regular file in an existing directory, no destination is a
  directory, and no entry file is a directory.
\<close>

definition reconcilable :: "path \<Rightarrow> string \<Rightarrow> string \<Rightarrow> fs \<Rightarrow> bool" where
  "reconcilable projectDir arch fw fs =
     (let src = projectDir @ [''src''];
          table = relocationTable fw arch
      in list_all (\<lambda>dir. list_all (\<lambda>q. \<not> isFile (lookup fs q)) (ancestors (src @ dir)))
           (overlayDirectories fw arch @ map (\<lambda>(a, d). butlast d) table)
       \<and> list_all (\<lambda>(a, d). lookup fs (src @ a) \<noteq> Some Dir \<and> lookup fs (src @ d) \<noteq> Some Dir
                      \<and> (lookup fs (src @ a) = None \<or> lookup fs (src @ butlast a) = Some Dir))
           table
       \<and> list_all (\<lambda>f. lookup fs (src @ f) \<noteq> Some Dir) (rewrittenFiles fw))"

text \<open>
  Generators for the closed instances: a command run in a working directory writes
  the given entries there and succeeds; the probes, which run without a working
  directory, succeed. The first output is a React project of \<open>create-vite\<close> without
  its \<open>index.css\<close>; the second has in addition a regular file named \<open>hooks\<close> in
  \<open>src\<close>.
\<close>

definition generatorWriting :: "(path \<times> node) list \<Rightarrow> shell" where
  "generatorWriting entries command cwd fs =
     (case cwd of
        Some dir \<Rightarrow> (True, fs @ map (\<lambda>(q, n). (dir @ q, n)) entries)
      | None \<Rightarrow> (True, fs))"

definition exampleViteOutput :: "(path \<times> node) list" where
  "exampleViteOutput =
     [([''shop-ui''], Dir),
      ([''shop-ui'', ''src''], Dir),
      ([''shop-ui'', ''src'', ''App.tsx''], File (''import '' @ sq @ ''./App.css'' @ sq)),
      ([''shop-ui'', ''src'', ''App.css''], File ''#root {}''),
      ([''shop-ui'', ''src'', ''main.tsx''], File (''import App from '' @ sq @ ''./App.tsx'' @ sq))]"

definition exampleBlockedViteOutput :: "(path \<times> node) list" where
  "exampleBlockedViteOutput =
     exampleViteOutput @ [([''shop-ui'', ''src'', ''hooks''], File ''export {}'')]"

definition exampleReactAnswers :: "unit Answers" where
  "exampleReactAnswers =
     \<lparr>answeredProjectType = Frontend, answeredLanguage = TypeScript,
      answeredFramework = ''react'', answeredProjectName = ''shop-ui'',
      selectedArchitecture = ''component-based'', selectedMCPs = [],
      selectedAdditionalSkills = []\<rparr>"

section \<open>Facts about the file-system helpers\<close>

lemma ancestorsFrom_append:
  "ancestorsFrom pre (p @ r) = ancestorsFrom pre p @ ancestorsFrom (pre @ p) r"
  by (induction p arbitrary: pre) simp_all

lemma ancestorsFrom_shift: "ancestorsFrom pre r = map (\<lambda>x. pre @ x) (ancestorsFrom [] r)"
proof (induction r arbitrary: pre rule: rev_induct)
  case Nil
  show ?case by simp
next
  case (snoc s r)
  show ?case
    using snoc [of pre] by (simp add: ancestorsFrom_append)
qed

lemma ancestors_append: "ancestors (p @ r) = ancestors p @ map (\<lambda>x. p @ x) (ancestors r)"
  using ancestorsFrom_shift [of p r] by (simp add: ancestors_def ancestorsFrom_append)

lemma ancestors_nonempty: "q \<in> set (ancestors p) \<Longrightarrow> q \<noteq> []"
proof -
  have "q \<in> set (ancestorsFrom pre p) \<Longrightarrow> q \<noteq> []" for pre
    by (induction p arbitrary: pre) auto
  then show "q \<in> set (ancestors p) \<Longrightarrow> q \<noteq> []"
    by (simp add: ancestors_def)
qed

lemma ancestors_simps [simp]:
  "ancestors [] = []"
  "ancestors (s # r) = [s] # map (\<lambda>x. s # x) (ancestors r)"
  using ancestors_append [of "[s]" r] by (simp_all add: ancestors_def)

lemma lookup_append:
  "lookup (fs @ es) q = (case lookup fs q of Some n \<Rightarrow> Some n | None \<Rightarrow> lookup es q)"
  by (auto simp: lookup_def map_add_def split: option.splits)

lemma lookup_dirs:
  "q \<noteq> [] \<Longrightarrow> lookup (map (\<lambda>x. (f x, Dir)) xs) q = (if q \<in> f ` set xs then Some Dir else None)"
  by (induction xs) (auto simp: lookup_def)

section \<open>Directory creation below a root\<close>

lemma rootedD1: "rooted p S rs \<Longrightarrow> q \<in> set (ancestors p) \<Longrightarrow> lookup S q = Some Dir"
  by (simp add: rooted_def)

lemma rootedD2:
  "rooted p S rs \<Longrightarrow> x \<in> set (ancestors r) \<Longrightarrow>
   lookup S (p @ x) = (if x \<in> set rs then Some Dir else None)"
  using ancestors_nonempty [of x r] by (simp add: rooted_def)

lemma createDirectory_rooted:
  assumes "rooted p S rs"
  shows "createDirectory (p @ r) S = Inr (S @ map (\<lambda>x. (p @ x, Dir)) (filter (\<lambda>x. x \<notin> set rs) (ancestors r)))"
proof -
  have nf: "filter (\<lambda>q. isFile (lookup S q)) (ancestors (p @ r)) = []"
    using rootedD1 [OF assms] rootedD2 [OF assms, of _ r]
    by (auto simp: ancestors_append filter_empty_conv)
  have "filter (\<lambda>q. lookup S q = None) (ancestors p) = []"
    using rootedD1 [OF assms] by (auto simp: filter_empty_conv)
  moreover have "filter (\<lambda>q. lookup S q = None) (map (\<lambda>x. p @ x) (ancestors r))
      = map (\<lambda>x. p @ x) (filter (\<lambda>x. x \<notin> set rs) (ancestors r))"
    unfolding filter_map comp_def
    by (rule arg_cong [where f = "map _"], rule filter_cong) (simp_all add: rootedD2 [OF assms, of _ r])
  ultimately have "filter (\<lambda>q. lookup S q = None) (ancestors (p @ r))
      = map (\<lambda>x. p @ x) (filter (\<lambda>x. x \<notin> set rs) (ancestors r))"
    by (simp add: ancestors_append)
  then show ?thesis using nf by (simp add: createDirectory_def comp_def)
qed

lemma rooted_step:
  assumes "rooted p S rs"
  shows "rooted p (S @ map (\<lambda>x. (p @ x, Dir)) (filter (\<lambda>x. x \<notin> set rs) (ancestors r))) (addDirs rs r)"
  using assms
  by (auto simp: rooted_def addDirs_def lookup_append lookup_dirs split: option.splits)

lemma createDirectories_rooted:
  "rooted p S rs \<Longrightarrow>
   \<exists>ns. createDirectories (map (\<lambda>r. p @ r) rels) S = Inr (S @ map (\<lambda>x. (p @ x, Dir)) ns)
      \<and> rs @ ns = foldl addDirs rs rels"
proof (induction rels arbitrary: S rs)
  case Nil
  show ?case by simp
next
  case (Cons r rels)
  let ?new = "filter (\<lambda>x. x \<notin> set rs) (ancestors r)"
  let ?S = "S @ map (\<lambda>x. (p @ x, Dir)) ?new"
  have "rooted p ?S (addDirs rs r)" by (rule rooted_step [OF Cons.prems])
  from Cons.IH [OF this] obtain ns where
    ns: "createDirectories (map (\<lambda>r. p @ r) rels) ?S = Inr (?S @ map (\<lambda>x. (p @ x, Dir)) ns)"
    "addDirs rs r @ ns = foldl addDirs (addDirs rs r) rels" by blast
  have "createDirectories (map (\<lambda>r. p @ r) (r # rels)) S
        = Inr (S @ map (\<lambda>x. (p @ x, Dir)) (?new @ ns))"
    using ns(1) by (simp add: createDirectory_rooted [OF Cons.prems])
  moreover have "rs @ ?new @ ns = foldl addDirs rs (r # rels)"
    using ns(2) by (simp add: addDirs_def)
  ultimately show ?case by blast
qed

lemma createDirectories_from_root:
  assumes "rooted p S []"
  shows "createDirectories (map (\<lambda>r. p @ r) rels) S
         = Inr (S @ map (\<lambda>x. (p @ x, Dir)) (withParents rels))"
  using createDirectories_rooted [OF assms, of rels] by (auto simp: withParents_def)

lemma ancestors_set: "set (ancestors p) = {take n p |n. 1 \<le> n \<and> n \<le> length p}"
proof (induction p)
  case Nil
  show ?case by simp
next
  case (Cons s p)
  show ?case
  proof (rule set_eqI, rule iffI)
    fix q assume "q \<in> set (ancestors (s # p))"
    then consider "q = [s]" | x where "q = s # x" "x \<in> set (ancestors p)" by auto
    then show "q \<in> {take n (s # p) |n. 1 \<le> n \<and> n \<le> length (s # p)}"
    proof cases
      case 1
      then have "q = take 1 (s # p)" by simp
      then show ?thesis by (intro CollectI exI [of _ 1]) simp
    next
      case 2
      then obtain n where "x = take n p" "1 \<le> n" "n \<le> length p" using Cons by auto
      then have "q = take (Suc n) (s # p)" using 2 by simp
      then show ?thesis using \<open>n \<le> length p\<close> by (intro CollectI exI [of _ "Suc n"]) simp
    qed
  next
    fix q assume "q \<in> {take n (s # p) |n. 1 \<le> n \<and> n \<le> length (s # p)}"
    then obtain n where n: "q = take n (s # p)" "1 \<le> n" "n \<le> length (s # p)" by auto
    then obtain m where m: "n = Suc m" by (cases n) auto
    show "q \<in> set (ancestors (s # p))"
    proof (cases m)
      case 0
      then show ?thesis using n m by simp
    next
      case (Suc k)
      then have "take m p \<in> set (ancestors p)" using Cons n m by auto
      then show ?thesis using n m by simp
    qed
  qed
qed

lemma ancestors_not_below_strict:
  "q \<in> set (ancestors p) \<Longrightarrow> x \<noteq> [] \<Longrightarrow> q \<noteq> p @ x"
proof
  assume q: "q \<in> set (ancestors p)" and x: "x \<noteq> []" and e: "q = p @ x"
  from q obtain n where "q = take n p" by (auto simp: ancestors_set)
  then have "length q \<le> length p" by simp
  with e x show False by simp
qed

lemma createDirectory_root:
  assumes "emptyRoot p fs"
  shows "createDirectory p fs
         = Inr (fs @ map (\<lambda>q. (q, Dir)) (filter (\<lambda>q. lookup fs q = None) (ancestors p)))"
    and "rooted p (fs @ map (\<lambda>q. (q, Dir)) (filter (\<lambda>q. lookup fs q = None) (ancestors p))) []"
proof -
  have nf: "filter (\<lambda>q. isFile (lookup fs q)) (ancestors p) = []"
    using assms by (auto simp: emptyRoot_def filter_empty_conv list_all_iff)
  then show "createDirectory p fs
         = Inr (fs @ map (\<lambda>q. (q, Dir)) (filter (\<lambda>q. lookup fs q = None) (ancestors p)))"
    by (simp add: createDirectory_def)
  have below_none: "lookup fs (p @ x) = None" if "x \<noteq> []" for x
  proof (rule ccontr)
    assume "lookup fs (p @ x) \<noteq> None"
    moreover have "p @ x \<noteq> []" using that by simp
    ultimately obtain n where "map_of fs (p @ x) = Some n" by (auto simp: lookup_def)
    then have "(p @ x, n) \<in> set fs" by (rule map_of_SomeD)
    then show False using assms that by (auto simp: emptyRoot_def list_all_iff below_def)
  qed
  have anc: "lookup fs q \<noteq> None \<Longrightarrow> lookup fs q = Some Dir" if "q \<in> set (ancestors p)" for q
  proof -
    from that nf have "\<not> isFile (lookup fs q)" by (auto simp: filter_empty_conv)
    then show "lookup fs q \<noteq> None \<Longrightarrow> lookup fs q = Some Dir"
      by (cases "lookup fs q" rule: isFile.cases) auto
  qed
  show "rooted p (fs @ map (\<lambda>q. (q, Dir)) (filter (\<lambda>q. lookup fs q = None) (ancestors p))) []"
    unfolding rooted_def
  proof (intro conjI ballI allI impI)
    fix q assume q: "q \<in> set (ancestors p)"
    then have "q \<noteq> []" by (rule ancestors_nonempty)
    then show "lookup (fs @ map (\<lambda>q. (q, Dir)) (filter (\<lambda>q. lookup fs q = None) (ancestors p))) q = Some Dir"
      using q anc [OF q] by (auto simp: lookup_append lookup_dirs split: option.splits)
  next
    fix x :: path assume x: "x \<noteq> []"
    then show "lookup (fs @ map (\<lambda>q. (q, Dir)) (filter (\<lambda>q. lookup fs q = None) (ancestors p))) (p @ x)
          = (if x \<in> set [] then Some Dir else None)"
      using below_none [OF x] ancestors_not_below_strict [of _ p x]
      by (auto simp: lookup_append lookup_dirs split: option.splits)
  qed
qed


lemmas structure_defs =
  createBackendStructure_def createFrontendStructure_def createFullstackStructure_def
  createGoStructure_def createGoMVCStructure_def createGoHexagonalStructure_def
  createGoLayeredStructure_def createGoLayeredScreamingStructure_def
  createMVCStructure_def createHexagonalStructure_def createLayeredStructure_def
  createLayeredScreamingStructure_def createComponentBasedStructure_def
  createFeatureBasedStructure_def

lemma structure_as_table:
  "(case projectType cfg of
      Backend \<Rightarrow> createBackendStructure cfg S
    | Frontend \<Rightarrow> createFrontendStructure cfg S
    | Fullstack \<Rightarrow> createFullstackStructure cfg S)
   = createDirectories
       (map (\<lambda>r. projectPath cfg @ r)
          (builtDirectories (projectType cfg) (language cfg) (framework cfg) (architecture cfg))) S"
  by (simp add: structure_defs builtDirectories_def specTable_def goTable_def sourceRoot_def
      path_join_def Let_def del: createDirectories.simps split: Project.splits) simp

lemma buildFromScratch_emptyRoot:
  assumes "emptyRoot (projectPath cfg) fs"
  shows "buildFromScratch cfg fs =
     Inr (Some (projectPath cfg),
          fs @ map (\<lambda>q. (q, Dir)) (filter (\<lambda>q. lookup fs q = None) (ancestors (projectPath cfg)))
             @ map (\<lambda>x. (projectPath cfg @ x, Dir))
                 (withParents (builtDirectories (projectType cfg) (language cfg) (framework cfg)
                    (architecture cfg))))"
  using createDirectory_root [OF assms]
  by (simp add: buildFromScratch_def structure_as_table createDirectories_from_root
      del: createDirectories.simps)


lemma set_foldl_addDirs:
  "set (foldl addDirs rs rels) = set rs \<union> (\<Union>r\<in>set rels. set (ancestors r))"
  by (induction rels arbitrary: rs) (auto simp: addDirs_def)

lemma set_withParents: "set (withParents rels) = (\<Union>r\<in>set rels. set (ancestors r))"
  by (simp add: withParents_def set_foldl_addDirs)

lemma buildFromScratch_lookup:
  assumes "emptyRoot (projectPath cfg) fs"
  shows "\<exists>fs'. buildFromScratch cfg fs = Inr (Some (projectPath cfg), fs')
     \<and> (\<forall>x. x \<noteq> [] \<longrightarrow> lookup fs' (projectPath cfg @ x) =
           (if x \<in> set (withParents (builtDirectories (projectType cfg) (language cfg)
                  (framework cfg) (architecture cfg)))
            then Some Dir else None))
     \<and> (\<forall>q\<in>set (ancestors (projectPath cfg)). lookup fs' q = Some Dir)
     \<and> (\<forall>q. \<not> below (projectPath cfg) q \<and> q \<notin> set (ancestors (projectPath cfg))
            \<longrightarrow> lookup fs' q = lookup fs q)"
proof -
  let ?p = "projectPath cfg"
  let ?t = "withParents (builtDirectories (projectType cfg) (language cfg) (framework cfg) (architecture cfg))"
  define S where "S = fs @ map (\<lambda>q. (q, Dir)) (filter (\<lambda>q. lookup fs q = None) (ancestors ?p))"
  let ?fs' = "S @ map (\<lambda>x. (?p @ x, Dir)) ?t"
  have b: "buildFromScratch cfg fs = Inr (Some ?p, ?fs')"
    using buildFromScratch_emptyRoot [OF assms] by (simp add: S_def)
  have r: "rooted ?p S []"
    unfolding S_def by (rule createDirectory_root(2) [OF assms])
  have 1: "lookup ?fs' (?p @ x) = (if x \<in> set ?t then Some Dir else None)" if "x \<noteq> []" for x
    using r that by (auto simp: rooted_def lookup_append lookup_dirs)
  have 2: "lookup ?fs' q = Some Dir" if "q \<in> set (ancestors ?p)" for q
    using rootedD1 [OF r that] by (simp add: lookup_append)
  have 3: "lookup ?fs' q = lookup fs q"
    if "\<not> below ?p q \<and> q \<notin> set (ancestors ?p)" for q
  proof (cases "q = []")
    case True
    then show ?thesis by (simp add: lookup_def)
  next
    case False
    have "q \<notin> (\<lambda>x. ?p @ x) ` set ?t" using that by (auto simp: below_def)
    then show ?thesis using that False
      by (auto simp: S_def lookup_append lookup_dirs split: option.splits)
  qed
  from b 1 2 3 show ?thesis by blast
qed

lemma self_in_ancestors: "r \<noteq> [] \<Longrightarrow> r \<in> set (ancestors r)"
  unfolding ancestors_set by (rule CollectI, rule exI [of _ "length r"]) (cases r, simp_all)

lemma ancestors_hd: "q \<in> set (ancestors r) \<Longrightarrow> hd q = hd r"
  by (cases r) (auto simp: ancestors_set hd_take)

lemma in_withParents: "r \<in> set rels \<Longrightarrow> r \<noteq> [] \<Longrightarrow> r \<in> set (withParents rels)"
  using self_in_ancestors by (auto simp: set_withParents)

lemma withParents_hd: "x \<in> set (withParents rels) \<Longrightarrow> \<exists>r\<in>set rels. hd x = hd r"
  using ancestors_hd by (auto simp: set_withParents)

lemma specTable_nonempty: "r \<in> set (specTable kind arch) \<Longrightarrow> r \<noteq> []"
  by (auto simp: specTable_def split: Project.splits if_splits)

lemma goTable_nonempty: "r \<in> set (goTable arch) \<Longrightarrow> r \<noteq> []"
  by (auto simp: goTable_def split: if_splits)

lemma specTable_Backend_hd: "r \<in> set (specTable Backend arch) \<Longrightarrow> hd r \<noteq> ''src''"
  by (auto simp: specTable_def split: if_splits)

lemma goTable_hd: "r \<in> set (goTable arch) \<Longrightarrow> hd r \<in> {''cmd'', ''internal'', ''pkg''}"
  by (auto simp: goTable_def split: if_splits)

lemma createDirectory_Inr:
  assumes "createDirectory p fs = Inr fs'"
  shows "fs' = fs @ map (\<lambda>q. (q, Dir)) (filter (\<lambda>q. lookup fs q = None) (ancestors p))"
    and "\<forall>q\<in>set (ancestors p). \<not> isFile (lookup fs q)"
  using assms
  by (auto simp: createDirectory_def filter_empty_conv split: list.splits)

lemma createDirectory_lookup:
  assumes "createDirectory p fs = Inr fs'"
  shows "lookup fs' q = (if lookup fs q = None \<and> q \<in> set (ancestors p) then Some Dir else lookup fs q)"
proof (cases "q = []")
  case True
  then show ?thesis by (simp add: lookup_def)
next
  case False
  have "lookup (map (\<lambda>q. (q, Dir)) (filter (\<lambda>q. lookup fs q = None) (ancestors p))) q
      = (if q \<in> set (ancestors p) \<and> lookup fs q = None then Some Dir else None)"
    using False lookup_dirs [of q "\<lambda>x. x" "filter (\<lambda>q. lookup fs q = None) (ancestors p)"]
    by auto
  then show ?thesis
    unfolding createDirectory_Inr(1) [OF assms] lookup_append
    by (auto split: option.splits)
qed

lemma createDirectory_succeeds:
  "\<forall>q\<in>set (ancestors p). \<not> isFile (lookup fs q) \<Longrightarrow> \<exists>fs'. createDirectory p fs = Inr fs'"
  by (auto simp: createDirectory_def filter_empty_conv split: list.splits)

lemma createDirectories_lookup:
  "createDirectories ps fs = Inr fs' \<Longrightarrow>
   lookup fs' q = (if lookup fs q = None \<and> q \<in> (\<Union>p\<in>set ps. set (ancestors p))
                   then Some Dir else lookup fs q)"
proof (induction ps arbitrary: fs)
  case Nil
  then show ?case by simp
next
  case (Cons p ps)
  from Cons.prems obtain fs1 where
    1: "createDirectory p fs = Inr fs1" and 2: "createDirectories ps fs1 = Inr fs'"
    by (auto split: sum.splits)
  show ?case
    unfolding Cons.IH [OF 2] createDirectory_lookup [OF 1] by auto
qed

lemma buildFromScratch_lookup_general:
  assumes "buildFromScratch cfg fs = Inr (r, fs')"
  shows "r = Some (projectPath cfg)"
    and "lookup fs' q =
       (if lookup fs q = None
           \<and> q \<in> set (ancestors (projectPath cfg))
                 \<union> (\<lambda>x. projectPath cfg @ x)
                     ` set (withParents (builtDirectories (projectType cfg) (language cfg)
                              (framework cfg) (architecture cfg)))
        then Some Dir else lookup fs q)"
proof -
  let ?t = "builtDirectories (projectType cfg) (language cfg) (framework cfg) (architecture cfg)"
  from assms obtain fs1 where
    1: "createDirectory (projectPath cfg) fs = Inr fs1"
    and 2: "createDirectories (map (\<lambda>r. projectPath cfg @ r) ?t) fs1 = Inr fs'"
    and 3: "r = Some (projectPath cfg)"
    unfolding buildFromScratch_def structure_as_table
    by (auto split: sum.splits)
  show "r = Some (projectPath cfg)" by (rule 3)
  have u: "(\<Union>p\<in>set (map (\<lambda>r. projectPath cfg @ r) ?t). set (ancestors p))
      \<subseteq> set (ancestors (projectPath cfg)) \<union> (\<lambda>x. projectPath cfg @ x) ` set (withParents ?t)"
    by (auto simp: ancestors_append set_withParents)
  have v: "(\<lambda>x. projectPath cfg @ x) ` set (withParents ?t)
      \<subseteq> (\<Union>p\<in>set (map (\<lambda>r. projectPath cfg @ r) ?t). set (ancestors p))"
    by (auto simp: ancestors_append set_withParents)
  show "lookup fs' q =
       (if lookup fs q = None
           \<and> q \<in> set (ancestors (projectPath cfg)) \<union> (\<lambda>x. projectPath cfg @ x) ` set (withParents ?t)
        then Some Dir else lookup fs q)"
    unfolding createDirectories_lookup [OF 2] createDirectory_lookup [OF 1]
    using u v by auto
qed

section \<open>The directories the Skeleton Builder creates\<close>

text \<open>
  Claim C2, as the specification states it, at the combination frontend, typescript,
  component-based: on an empty root the builder also creates \<open>public\<close> at the
  project root, which the table of section 4.1 does not list.
\<close>

theorem skeleton_table_counterexample:
  "emptyRoot (projectPath exampleFrontendConfig) exampleHome
   \<and> buildFromScratch exampleFrontendConfig exampleHome =
       Inr (Some [''home'', ''dev'', ''shop-ui''],
            [([''home''], Dir), ([''home'', ''dev''], Dir),
             ([''home'', ''dev'', ''shop-ui''], Dir),
             ([''home'', ''dev'', ''shop-ui'', ''src''], Dir),
             ([''home'', ''dev'', ''shop-ui'', ''src'', ''components''], Dir),
             ([''home'', ''dev'', ''shop-ui'', ''src'', ''components'', ''common''], Dir),
             ([''home'', ''dev'', ''shop-ui'', ''src'', ''components'', ''layout''], Dir),
             ([''home'', ''dev'', ''shop-ui'', ''src'', ''pages''], Dir),
             ([''home'', ''dev'', ''shop-ui'', ''src'', ''hooks''], Dir),
             ([''home'', ''dev'', ''shop-ui'', ''src'', ''utils''], Dir),
             ([''home'', ''dev'', ''shop-ui'', ''src'', ''styles''], Dir),
             ([''home'', ''dev'', ''shop-ui'', ''src'', ''assets''], Dir),
             ([''home'', ''dev'', ''shop-ui'', ''public''], Dir)])
   \<and> [''public''] \<notin> set (withParents (specDirectories Frontend TypeScript ''component-based''))"
  by (simp add: emptyRoot_def below_def set_withParents specDirectories_def specTable_def
      sourceRoot_def buildFromScratch_def exampleFrontendConfig_def exampleHome_def
      createFrontendStructure_def createComponentBasedStructure_def createDirectory_def
      path_join_def lookup_def)

text \<open>
  Claim C2, amended. On an empty root the builder succeeds, returns the requested path
  and leaves below the root exactly the directories of \<open>builtDirectories\<close> with the
  directories above them; outside the root it only makes the missing directories on
  the way to the root. The directories are those of the table of section 4.1 below
  the source root, and in addition \<open>tests\<close> at the project root for every backend
  architecture and \<open>public\<close> at the project root for the frontend; go has its own
  table, django gets no directory and a fullstack project gets \<open>src\<close> and \<open>public\<close>.
\<close>

theorem skeleton_directories_exact:
  assumes "emptyRoot (projectPath cfg) fs"
  shows "(\<exists>fs'. buildFromScratch cfg fs = Inr (Some (projectPath cfg), fs')
     \<and> (\<forall>x. x \<noteq> [] \<longrightarrow> lookup fs' (projectPath cfg @ x) =
           (if x \<in> set (withParents (builtDirectories (projectType cfg) (language cfg)
                  (framework cfg) (architecture cfg)))
            then Some Dir else None))
     \<and> (\<forall>q\<in>set (ancestors (projectPath cfg)). lookup fs' q = Some Dir)
     \<and> (\<forall>q. \<not> below (projectPath cfg) q \<and> q \<notin> set (ancestors (projectPath cfg))
            \<longrightarrow> lookup fs' q = lookup fs q))
   \<and> (fw \<noteq> ''django'' \<and> lang \<noteq> Go \<longrightarrow>
        set (withParents (builtDirectories Backend lang fw arch))
        = set (withParents (specDirectories Backend lang arch)) \<union> {[''tests'']})
   \<and> (lang \<noteq> Python \<longrightarrow>
        set (withParents (builtDirectories Frontend lang fw arch))
        = set (withParents (specDirectories Frontend lang arch)) \<union> {[''public'']})
   \<and> (fw \<noteq> ''django'' \<longrightarrow>
        set (withParents (builtDirectories Backend Go fw arch)) = set (withParents (goTable arch)))
   \<and> set (withParents (builtDirectories Backend lang ''django'' arch)) = {}
   \<and> set (withParents (builtDirectories Fullstack lang fw arch)) = {[''src''], [''public'']}"
proof -
  have 1: "fw \<noteq> ''django'' \<and> lang \<noteq> Go \<longrightarrow>
        set (withParents (builtDirectories Backend lang fw arch))
        = set (withParents (specDirectories Backend lang arch)) \<union> {[''tests'']}"
    by (auto simp: set_withParents builtDirectories_def specDirectories_def)
  have 2: "lang \<noteq> Python \<longrightarrow>
        set (withParents (builtDirectories Frontend lang fw arch))
        = set (withParents (specDirectories Frontend lang arch)) \<union> {[''public'']}"
    by (auto simp: set_withParents builtDirectories_def specDirectories_def sourceRoot_def)
  have 3: "fw \<noteq> ''django'' \<longrightarrow>
        set (withParents (builtDirectories Backend Go fw arch)) = set (withParents (goTable arch))"
    by (simp add: builtDirectories_def)
  have 4: "set (withParents (builtDirectories Backend lang ''django'' arch)) = {}"
    by (simp add: builtDirectories_def withParents_def)
  have 5: "set (withParents (builtDirectories Fullstack lang fw arch)) = {[''src''], [''public'']}"
    by (auto simp: set_withParents builtDirectories_def)
  from buildFromScratch_lookup [OF assms] 1 2 3 4 5 show ?thesis by blast
qed



theorem skeleton_directories_exact_witness:
  "emptyRoot (projectPath exampleMvcConfig) exampleHome
   \<and> buildFromScratch exampleMvcConfig exampleHome =
       Inr (Some [''home'', ''dev'', ''shop-api''],
            [([''home''], Dir), ([''home'', ''dev''], Dir),
             ([''home'', ''dev'', ''shop-api''], Dir),
             ([''home'', ''dev'', ''shop-api'', ''src''], Dir),
             ([''home'', ''dev'', ''shop-api'', ''src'', ''models''], Dir),
             ([''home'', ''dev'', ''shop-api'', ''src'', ''views''], Dir),
             ([''home'', ''dev'', ''shop-api'', ''src'', ''controllers''], Dir),
             ([''home'', ''dev'', ''shop-api'', ''src'', ''routes''], Dir),
             ([''home'', ''dev'', ''shop-api'', ''src'', ''config''], Dir),
             ([''home'', ''dev'', ''shop-api'', ''src'', ''middlewares''], Dir),
             ([''home'', ''dev'', ''shop-api'', ''src'', ''utils''], Dir),
             ([''home'', ''dev'', ''shop-api'', ''tests''], Dir)])
   \<and> (\<exists>fs'. buildFromScratch exampleMvcConfig exampleHome
               = Inr (Some (projectPath exampleMvcConfig), fs')
          \<and> lookup fs' (projectPath exampleMvcConfig @ [''src'', ''models'']) = Some Dir
          \<and> lookup fs' (projectPath exampleMvcConfig @ [''tests'']) = Some Dir
          \<and> lookup fs' (projectPath exampleMvcConfig @ [''models'']) = None)"
proof -
  have h: "emptyRoot (projectPath exampleMvcConfig) exampleHome"
    by (simp add: emptyRoot_def exampleMvcConfig_def exampleHome_def below_def lookup_def)
  have e: "buildFromScratch exampleMvcConfig exampleHome =
       Inr (Some [''home'', ''dev'', ''shop-api''],
            [([''home''], Dir), ([''home'', ''dev''], Dir),
             ([''home'', ''dev'', ''shop-api''], Dir),
             ([''home'', ''dev'', ''shop-api'', ''src''], Dir),
             ([''home'', ''dev'', ''shop-api'', ''src'', ''models''], Dir),
             ([''home'', ''dev'', ''shop-api'', ''src'', ''views''], Dir),
             ([''home'', ''dev'', ''shop-api'', ''src'', ''controllers''], Dir),
             ([''home'', ''dev'', ''shop-api'', ''src'', ''routes''], Dir),
             ([''home'', ''dev'', ''shop-api'', ''src'', ''config''], Dir),
             ([''home'', ''dev'', ''shop-api'', ''src'', ''middlewares''], Dir),
             ([''home'', ''dev'', ''shop-api'', ''src'', ''utils''], Dir),
             ([''home'', ''dev'', ''shop-api'', ''tests''], Dir)])"
    by (simp add: buildFromScratch_def exampleMvcConfig_def exampleHome_def createBackendStructure_def
        createMVCStructure_def createDirectory_def path_join_def lookup_def)
  from skeleton_directories_exact [OF h, THEN conjunct1] obtain fs' where
    b: "buildFromScratch exampleMvcConfig exampleHome = Inr (Some (projectPath exampleMvcConfig), fs')"
    and l: "\<And>x. x \<noteq> [] \<Longrightarrow> lookup fs' (projectPath exampleMvcConfig @ x) =
           (if x \<in> set (withParents (builtDirectories (projectType exampleMvcConfig)
                  (language exampleMvcConfig) (framework exampleMvcConfig)
                  (architecture exampleMvcConfig)))
            then Some Dir else None)"
    by (elim exE conjE) simp
  have t: "builtDirectories (projectType exampleMvcConfig)
                  (language exampleMvcConfig) (framework exampleMvcConfig)
                  (architecture exampleMvcConfig)
         = [[''src'', ''models''], [''src'', ''views''], [''src'', ''controllers''],
            [''src'', ''routes''], [''src'', ''config''], [''src'', ''middlewares''],
            [''src'', ''utils''], [''tests'']]"
    by (simp add: builtDirectories_def specTable_def sourceRoot_def exampleMvcConfig_def)
  have l1: "lookup fs' (projectPath exampleMvcConfig @ [''src'', ''models'']) = Some Dir"
    using l [of "[''src'', ''models'']"] by (simp add: t set_withParents)
  have l2: "lookup fs' (projectPath exampleMvcConfig @ [''tests'']) = Some Dir"
    using l [of "[''tests'']"] by (simp add: t set_withParents)
  have l3: "lookup fs' (projectPath exampleMvcConfig @ [''models'']) = None"
    using l [of "[''models'']"] by (simp add: t set_withParents)
  show ?thesis
    by (intro conjI exI [of _ fs']) (fact h e b l1 l2 l3)+
qed

section \<open>The source root of each language\<close>

text \<open>
  Claim C8, as the specification states it, at two configurations on an empty root.
  For python with django the builder returns before it creates any directory of the
  table: only the project directory exists. For go with the \<open>mvc\<close> architecture the
  Go table has \<open>models\<close>, \<open>views\<close>, \<open>controllers\<close>, \<open>routes\<close> and
  \<open>middleware\<close>, and none of \<open>handler\<close>, \<open>usecase\<close>, \<open>repository\<close>.
\<close>

theorem source_root_counterexample:
  "buildFromScratch exampleDjangoConfig exampleHome =
     Inr (Some [''home'', ''dev'', ''blog''],
          [([''home''], Dir), ([''home'', ''dev''], Dir), ([''home'', ''dev'', ''blog''], Dir)])
   \<and> buildFromScratch exampleGoMvcConfig exampleHome =
     Inr (Some [''home'', ''dev'', ''shop-api''],
          [([''home''], Dir), ([''home'', ''dev''], Dir), ([''home'', ''dev'', ''shop-api''], Dir),
           ([''home'', ''dev'', ''shop-api'', ''cmd''], Dir),
           ([''home'', ''dev'', ''shop-api'', ''cmd'', ''api''], Dir),
           ([''home'', ''dev'', ''shop-api'', ''internal''], Dir),
           ([''home'', ''dev'', ''shop-api'', ''internal'', ''models''], Dir),
           ([''home'', ''dev'', ''shop-api'', ''internal'', ''views''], Dir),
           ([''home'', ''dev'', ''shop-api'', ''internal'', ''controllers''], Dir),
           ([''home'', ''dev'', ''shop-api'', ''internal'', ''routes''], Dir),
           ([''home'', ''dev'', ''shop-api'', ''internal'', ''middleware''], Dir),
           ([''home'', ''dev'', ''shop-api'', ''internal'', ''infrastructure''], Dir),
           ([''home'', ''dev'', ''shop-api'', ''internal'', ''infrastructure'', ''database''], Dir),
           ([''home'', ''dev'', ''shop-api'', ''internal'', ''infrastructure'', ''config''], Dir),
           ([''home'', ''dev'', ''shop-api'', ''pkg''], Dir)])"
proof -
  have 1: "buildFromScratch exampleDjangoConfig exampleHome =
     Inr (Some [''home'', ''dev'', ''blog''],
          [([''home''], Dir), ([''home'', ''dev''], Dir), ([''home'', ''dev'', ''blog''], Dir)])"
    by (simp add: buildFromScratch_def createBackendStructure_def exampleDjangoConfig_def
        exampleHome_def createDirectory_def lookup_def)
  have 2: "buildFromScratch exampleGoMvcConfig exampleHome =
     Inr (Some [''home'', ''dev'', ''shop-api''],
          [([''home''], Dir), ([''home'', ''dev''], Dir), ([''home'', ''dev'', ''shop-api''], Dir),
           ([''home'', ''dev'', ''shop-api'', ''cmd''], Dir),
           ([''home'', ''dev'', ''shop-api'', ''cmd'', ''api''], Dir),
           ([''home'', ''dev'', ''shop-api'', ''internal''], Dir),
           ([''home'', ''dev'', ''shop-api'', ''internal'', ''models''], Dir),
           ([''home'', ''dev'', ''shop-api'', ''internal'', ''views''], Dir),
           ([''home'', ''dev'', ''shop-api'', ''internal'', ''controllers''], Dir),
           ([''home'', ''dev'', ''shop-api'', ''internal'', ''routes''], Dir),
           ([''home'', ''dev'', ''shop-api'', ''internal'', ''middleware''], Dir),
           ([''home'', ''dev'', ''shop-api'', ''internal'', ''infrastructure''], Dir),
           ([''home'', ''dev'', ''shop-api'', ''internal'', ''infrastructure'', ''database''], Dir),
           ([''home'', ''dev'', ''shop-api'', ''internal'', ''infrastructure'', ''config''], Dir),
           ([''home'', ''dev'', ''shop-api'', ''pkg''], Dir)])"
  proof -
    have e: "emptyRoot (projectPath exampleGoMvcConfig) exampleHome"
      by (simp add: emptyRoot_def exampleGoMvcConfig_def exampleHome_def below_def lookup_def)
    show ?thesis
      unfolding buildFromScratch_emptyRoot [OF e]
      by (simp add: exampleGoMvcConfig_def exampleHome_def builtDirectories_def goTable_def
          withParents_def addDirs_def lookup_def)
  qed
  from 1 2 show ?thesis by (rule conjI)
qed

text \<open>
  Claim C8, amended. On an empty root the builder succeeds, and what it creates below
  the project root depends on the kind, the framework and the language as follows. A
  backend with the framework django: nothing. Any other backend in python: the
  directories of the backend table directly below the project root, and nothing named
  \<open>src\<close>. Any other backend in typescript or javascript: the directories of the
  table below \<open>src\<close>, the only other directory at the project root being \<open>tests\<close>.
  A frontend: the directories of the frontend table below \<open>src\<close>, the only other
  directory at the project root being \<open>public\<close>. A fullstack project: \<open>src\<close> and
  \<open>public\<close> only. Any other backend in go: the Go table, with \<open>cmd/api\<close>,
  everything below \<open>cmd\<close>, \<open>internal\<close> or \<open>pkg\<close> and nothing below \<open>src\<close>; of the
  folder names \<open>handler\<close>, \<open>usecase\<close> and \<open>repository\<close> it has all three for
  hexagonal, none for mvc, and \<open>handler\<close> and \<open>repository\<close> without \<open>usecase\<close>
  for layered-screaming and for every other architecture tag.
\<close>

theorem source_root_per_language:
  assumes "emptyRoot (projectPath cfg) fs"
  shows "\<exists>fs'. buildFromScratch cfg fs = Inr (Some (projectPath cfg), fs')
     \<and> (projectType cfg = Backend \<and> framework cfg = ''django'' \<longrightarrow>
           (\<forall>x. x \<noteq> [] \<longrightarrow> lookup fs' (projectPath cfg @ x) = None))
     \<and> (projectType cfg = Backend \<and> framework cfg \<noteq> ''django'' \<and> language cfg = Python \<longrightarrow>
           (\<forall>r\<in>set (specTable Backend (architecture cfg)).
               lookup fs' (projectPath cfg @ r) = Some Dir)
         \<and> (\<forall>x. lookup fs' (projectPath cfg @ ''src'' # x) = None))
     \<and> (projectType cfg = Backend \<and> framework cfg \<noteq> ''django''
          \<and> language cfg \<in> {TypeScript, JavaScript} \<longrightarrow>
           (\<forall>r\<in>set (specTable Backend (architecture cfg)).
               lookup fs' (projectPath cfg @ ''src'' # r) = Some Dir)
         \<and> (\<forall>x. x \<noteq> [] \<and> lookup fs' (projectPath cfg @ x) \<noteq> None
                \<longrightarrow> hd x = ''src'' \<or> x = [''tests'']))
     \<and> (projectType cfg = Frontend \<longrightarrow>
           (\<forall>r\<in>set (specTable Frontend (architecture cfg)).
               lookup fs' (projectPath cfg @ ''src'' # r) = Some Dir)
         \<and> (\<forall>x. x \<noteq> [] \<and> lookup fs' (projectPath cfg @ x) \<noteq> None
                \<longrightarrow> hd x = ''src'' \<or> x = [''public'']))
     \<and> (projectType cfg = Fullstack \<longrightarrow>
           (\<forall>x. x \<noteq> [] \<longrightarrow>
              (lookup fs' (projectPath cfg @ x) \<noteq> None) = (x = [''src''] \<or> x = [''public''])))
     \<and> (projectType cfg = Backend \<and> framework cfg \<noteq> ''django'' \<and> language cfg = Go \<longrightarrow>
           lookup fs' (projectPath cfg @ [''cmd'', ''api'']) = Some Dir
         \<and> (\<forall>r\<in>set (goTable (architecture cfg)). lookup fs' (projectPath cfg @ r) = Some Dir)
         \<and> (\<forall>x. x \<noteq> [] \<and> lookup fs' (projectPath cfg @ x) \<noteq> None
                \<longrightarrow> hd x \<in> {''cmd'', ''internal'', ''pkg''})
         \<and> (\<forall>x. lookup fs' (projectPath cfg @ ''src'' # x) = None)
         \<and> (architecture cfg = ''hexagonal'' \<longrightarrow>
               lookup fs' (projectPath cfg @ [''internal'', ''usecase'']) = Some Dir
             \<and> lookup fs' (projectPath cfg @ [''internal'', ''delivery'', ''http'', ''handler'']) = Some Dir
             \<and> lookup fs' (projectPath cfg @ [''internal'', ''domain'', ''repository'']) = Some Dir)
         \<and> (architecture cfg = ''mvc'' \<longrightarrow>
               (\<forall>x. x \<noteq> [] \<and> lookup fs' (projectPath cfg @ x) \<noteq> None \<longrightarrow>
                  ''handler'' \<notin> set x \<and> ''usecase'' \<notin> set x \<and> ''repository'' \<notin> set x))
         \<and> (architecture cfg = ''layered-screaming'' \<longrightarrow>
               lookup fs' (projectPath cfg @ [''internal'', ''features'', ''example'', ''handler'']) = Some Dir
             \<and> lookup fs' (projectPath cfg @ [''internal'', ''features'', ''example'', ''repository''])
                 = Some Dir
             \<and> (\<forall>x. x \<noteq> [] \<and> lookup fs' (projectPath cfg @ x) \<noteq> None \<longrightarrow> ''usecase'' \<notin> set x))
         \<and> (architecture cfg \<notin> {''mvc'', ''hexagonal'', ''layered-screaming''} \<longrightarrow>
               lookup fs' (projectPath cfg @ [''internal'', ''delivery'', ''http'', ''handler'']) = Some Dir
             \<and> lookup fs' (projectPath cfg @ [''internal'', ''data'', ''repository'']) = Some Dir
             \<and> (\<forall>x. x \<noteq> [] \<and> lookup fs' (projectPath cfg @ x) \<noteq> None \<longrightarrow> ''usecase'' \<notin> set x)))"
proof -
  let ?p = "projectPath cfg"
  let ?t = "builtDirectories (projectType cfg) (language cfg) (framework cfg) (architecture cfg)"
  from buildFromScratch_lookup [OF assms] obtain fs' where
    b: "buildFromScratch cfg fs = Inr (Some ?p, fs')"
    and l: "\<And>x. x \<noteq> [] \<Longrightarrow> lookup fs' (?p @ x) = (if x \<in> set (withParents ?t) then Some Dir else None)"
    by (elim exE conjE) simp
  have present: "x \<in> set (withParents ?t)" if "x \<noteq> []" "lookup fs' (?p @ x) \<noteq> None" for x
    using l [OF that(1)] that(2) by (simp split: if_splits)
  have dj: "\<forall>x. x \<noteq> [] \<longrightarrow> lookup fs' (?p @ x) = None"
    if "projectType cfg = Backend \<and> framework cfg = ''django''"
  proof -
    have "?t = []" using that by (simp add: builtDirectories_def)
    then show ?thesis using l by (simp add: withParents_def)
  qed
  have py: "(\<forall>r\<in>set (specTable Backend (architecture cfg)). lookup fs' (?p @ r) = Some Dir)
         \<and> (\<forall>x. lookup fs' (?p @ ''src'' # x) = None)"
    if "projectType cfg = Backend \<and> framework cfg \<noteq> ''django'' \<and> language cfg = Python"
  proof -
    have "map ((@) []) zs = zs" for zs :: "path list"
      by (induction zs) simp_all
    then have t: "?t = specTable Backend (architecture cfg) @ [[''tests'']]"
      using that by (auto simp: builtDirectories_def sourceRoot_def)
    have "lookup fs' (?p @ r) = Some Dir" if "r \<in> set (specTable Backend (architecture cfg))" for r
      using l [of r] specTable_nonempty [OF that] in_withParents [of r ?t] that t by simp
    moreover have "lookup fs' (?p @ ''src'' # x) = None" for x
    proof -
      have "''src'' # x \<notin> set (withParents ?t)"
      proof
        assume "''src'' # x \<in> set (withParents ?t)"
        from withParents_hd [OF this] obtain r where "r \<in> set ?t" "hd r = ''src''" by auto
        then show False using specTable_Backend_hd [of r "architecture cfg"] by (auto simp: t)
      qed
      then show ?thesis using l [of "''src'' # x"] by simp
    qed
    ultimately show ?thesis by blast
  qed
  have js: "(\<forall>r\<in>set (specTable Backend (architecture cfg)).
               lookup fs' (?p @ ''src'' # r) = Some Dir)
         \<and> (\<forall>x. x \<noteq> [] \<and> lookup fs' (?p @ x) \<noteq> None \<longrightarrow> hd x = ''src'' \<or> x = [''tests''])"
    if "projectType cfg = Backend \<and> framework cfg \<noteq> ''django''
          \<and> language cfg \<in> {TypeScript, JavaScript}"
  proof -
    have t: "?t = map (\<lambda>r. ''src'' # r) (specTable Backend (architecture cfg)) @ [[''tests'']]"
      using that by (auto simp: builtDirectories_def sourceRoot_def)
    have "lookup fs' (?p @ ''src'' # r) = Some Dir"
      if "r \<in> set (specTable Backend (architecture cfg))" for r
      using l [of "''src'' # r"] in_withParents [of "''src'' # r" ?t] that t by simp
    moreover have "hd x = ''src'' \<or> x = [''tests'']"
      if "x \<noteq> []" "lookup fs' (?p @ x) \<noteq> None" for x
      using present [OF that] by (auto simp: t set_withParents split: if_splits)
    ultimately show ?thesis by blast
  qed
  have fe: "(\<forall>r\<in>set (specTable Frontend (architecture cfg)).
               lookup fs' (?p @ ''src'' # r) = Some Dir)
         \<and> (\<forall>x. x \<noteq> [] \<and> lookup fs' (?p @ x) \<noteq> None \<longrightarrow> hd x = ''src'' \<or> x = [''public''])"
    if "projectType cfg = Frontend"
  proof -
    have t: "?t = map (\<lambda>r. ''src'' # r) (specTable Frontend (architecture cfg)) @ [[''public'']]"
      using that by (simp add: builtDirectories_def)
    have "lookup fs' (?p @ ''src'' # r) = Some Dir"
      if "r \<in> set (specTable Frontend (architecture cfg))" for r
      using l [of "''src'' # r"] in_withParents [of "''src'' # r" ?t] that t by simp
    moreover have "hd x = ''src'' \<or> x = [''public'']"
      if "x \<noteq> []" "lookup fs' (?p @ x) \<noteq> None" for x
      using present [OF that] by (auto simp: t set_withParents split: if_splits)
    ultimately show ?thesis by blast
  qed
  have fu: "\<forall>x. x \<noteq> [] \<longrightarrow> (lookup fs' (?p @ x) \<noteq> None) = (x = [''src''] \<or> x = [''public''])"
    if "projectType cfg = Fullstack"
  proof -
    have t: "?t = [[''src''], [''public'']]" using that by (simp add: builtDirectories_def)
    show ?thesis using l by (auto simp: t set_withParents)
  qed
  have go: "lookup fs' (?p @ [''cmd'', ''api'']) = Some Dir
         \<and> (\<forall>r\<in>set (goTable (architecture cfg)). lookup fs' (?p @ r) = Some Dir)
         \<and> (\<forall>x. x \<noteq> [] \<and> lookup fs' (?p @ x) \<noteq> None
                \<longrightarrow> hd x \<in> {''cmd'', ''internal'', ''pkg''})
         \<and> (\<forall>x. lookup fs' (?p @ ''src'' # x) = None)
         \<and> (architecture cfg = ''hexagonal'' \<longrightarrow>
               lookup fs' (?p @ [''internal'', ''usecase'']) = Some Dir
             \<and> lookup fs' (?p @ [''internal'', ''delivery'', ''http'', ''handler'']) = Some Dir
             \<and> lookup fs' (?p @ [''internal'', ''domain'', ''repository'']) = Some Dir)
         \<and> (architecture cfg = ''mvc'' \<longrightarrow>
               (\<forall>x. x \<noteq> [] \<and> lookup fs' (?p @ x) \<noteq> None \<longrightarrow>
                  ''handler'' \<notin> set x \<and> ''usecase'' \<notin> set x \<and> ''repository'' \<notin> set x))
         \<and> (architecture cfg = ''layered-screaming'' \<longrightarrow>
               lookup fs' (?p @ [''internal'', ''features'', ''example'', ''handler'']) = Some Dir
             \<and> lookup fs' (?p @ [''internal'', ''features'', ''example'', ''repository'']) = Some Dir
             \<and> (\<forall>x. x \<noteq> [] \<and> lookup fs' (?p @ x) \<noteq> None \<longrightarrow> ''usecase'' \<notin> set x))
         \<and> (architecture cfg \<notin> {''mvc'', ''hexagonal'', ''layered-screaming''} \<longrightarrow>
               lookup fs' (?p @ [''internal'', ''delivery'', ''http'', ''handler'']) = Some Dir
             \<and> lookup fs' (?p @ [''internal'', ''data'', ''repository'']) = Some Dir
             \<and> (\<forall>x. x \<noteq> [] \<and> lookup fs' (?p @ x) \<noteq> None \<longrightarrow> ''usecase'' \<notin> set x))"
    if "projectType cfg = Backend \<and> framework cfg \<noteq> ''django'' \<and> language cfg = Go"
  proof -
    have t: "?t = goTable (architecture cfg)"
      using that by (auto simp: builtDirectories_def)
    have all: "lookup fs' (?p @ r) = Some Dir" if "r \<in> set (goTable (architecture cfg))" for r
      using l [of r] goTable_nonempty [OF that] in_withParents [of r ?t] that t by simp
    have hd: "hd x \<in> {''cmd'', ''internal'', ''pkg''}"
      if "x \<noteq> []" "lookup fs' (?p @ x) \<noteq> None" for x
    proof -
      from withParents_hd [OF present [OF that]] obtain r where
        "r \<in> set (goTable (architecture cfg))" "hd x = hd r"
        by (auto simp: t)
      then show ?thesis using goTable_hd [of r "architecture cfg"] by simp
    qed
    have nosrc: "lookup fs' (?p @ ''src'' # x) = None" for x
    proof (rule ccontr)
      assume "lookup fs' (?p @ ''src'' # x) \<noteq> None"
      then show False using hd [of "''src'' # x"] by simp
    qed
    have api: "[''cmd'', ''api''] \<in> set (goTable (architecture cfg))"
      by (simp add: goTable_def)
    have hex: "architecture cfg = ''hexagonal'' \<longrightarrow>
               lookup fs' (?p @ [''internal'', ''usecase'']) = Some Dir
             \<and> lookup fs' (?p @ [''internal'', ''delivery'', ''http'', ''handler'']) = Some Dir
             \<and> lookup fs' (?p @ [''internal'', ''domain'', ''repository'']) = Some Dir"
      using all by (simp add: goTable_def)
    have mvc: "architecture cfg = ''mvc'' \<longrightarrow>
               (\<forall>x. x \<noteq> [] \<and> lookup fs' (?p @ x) \<noteq> None \<longrightarrow>
                  ''handler'' \<notin> set x \<and> ''usecase'' \<notin> set x \<and> ''repository'' \<notin> set x)"
    proof (intro impI allI)
      fix x assume a: "architecture cfg = ''mvc''" and x: "x \<noteq> [] \<and> lookup fs' (?p @ x) \<noteq> None"
      have "x \<in> set (withParents (goTable ''mvc''))" using present [of x] x a t by simp
      then show "''handler'' \<notin> set x \<and> ''usecase'' \<notin> set x \<and> ''repository'' \<notin> set x"
        by (auto simp: set_withParents goTable_def)
    qed
    have scr: "architecture cfg = ''layered-screaming'' \<longrightarrow>
               lookup fs' (?p @ [''internal'', ''features'', ''example'', ''handler'']) = Some Dir
             \<and> lookup fs' (?p @ [''internal'', ''features'', ''example'', ''repository'']) = Some Dir
             \<and> (\<forall>x. x \<noteq> [] \<and> lookup fs' (?p @ x) \<noteq> None \<longrightarrow> ''usecase'' \<notin> set x)"
    proof (intro impI conjI allI)
      assume a: "architecture cfg = ''layered-screaming''"
      show "lookup fs' (?p @ [''internal'', ''features'', ''example'', ''handler'']) = Some Dir"
        using all a by (simp add: goTable_def)
      show "lookup fs' (?p @ [''internal'', ''features'', ''example'', ''repository'']) = Some Dir"
        using all a by (simp add: goTable_def)
      fix x assume x: "x \<noteq> [] \<and> lookup fs' (?p @ x) \<noteq> None"
      have "x \<in> set (withParents (goTable ''layered-screaming''))" using present [of x] x a t by simp
      then show "''usecase'' \<notin> set x"
        by (auto simp: set_withParents goTable_def)
    qed
    have lay: "architecture cfg \<notin> {''mvc'', ''hexagonal'', ''layered-screaming''} \<longrightarrow>
               lookup fs' (?p @ [''internal'', ''delivery'', ''http'', ''handler'']) = Some Dir
             \<and> lookup fs' (?p @ [''internal'', ''data'', ''repository'']) = Some Dir
             \<and> (\<forall>x. x \<noteq> [] \<and> lookup fs' (?p @ x) \<noteq> None \<longrightarrow> ''usecase'' \<notin> set x)"
    proof (intro impI conjI allI)
      assume a: "architecture cfg \<notin> {''mvc'', ''hexagonal'', ''layered-screaming''}"
      show "lookup fs' (?p @ [''internal'', ''delivery'', ''http'', ''handler'']) = Some Dir"
        using all a by (simp add: goTable_def)
      show "lookup fs' (?p @ [''internal'', ''data'', ''repository'']) = Some Dir"
        using all a by (simp add: goTable_def)
      fix x assume x: "x \<noteq> [] \<and> lookup fs' (?p @ x) \<noteq> None"
      have "x \<in> set (withParents (goTable (architecture cfg)))" using present [of x] x t by simp
      then show "''usecase'' \<notin> set x"
        using a by (auto simp: set_withParents goTable_def)
    qed
    have a1: "lookup fs' (?p @ [''cmd'', ''api'']) = Some Dir" by (rule all [OF api])
    have a2: "\<forall>r\<in>set (goTable (architecture cfg)). lookup fs' (?p @ r) = Some Dir"
      using all by blast
    have a3: "\<forall>x. x \<noteq> [] \<and> lookup fs' (?p @ x) \<noteq> None \<longrightarrow> hd x \<in> {''cmd'', ''internal'', ''pkg''}"
      using hd by blast
    have a4: "\<forall>x. lookup fs' (?p @ ''src'' # x) = None" using nosrc by blast
    show ?thesis by (intro conjI) (fact a1 a2 a3 a4 hex mvc scr lay)+
  qed
  show ?thesis
    by (intro exI [of _ fs'] conjI)
       (fact b, (rule impI, erule dj), (rule impI, erule py), (rule impI, erule js),
        (rule impI, erule fe), (rule impI, erule fu), (rule impI, erule go))
qed

theorem source_root_per_language_witness:
  "emptyRoot (projectPath exampleGoConfig) exampleHome
   \<and> projectType exampleGoConfig = Backend
   \<and> framework exampleGoConfig \<noteq> ''django''
   \<and> language exampleGoConfig = Go
   \<and> architecture exampleGoConfig = ''hexagonal''
   \<and> (\<exists>fs'. buildFromScratch exampleGoConfig exampleHome
               = Inr (Some (projectPath exampleGoConfig), fs')
          \<and> lookup fs' (projectPath exampleGoConfig @ [''cmd'', ''api'']) = Some Dir
          \<and> lookup fs' (projectPath exampleGoConfig @ [''internal'', ''usecase'']) = Some Dir
          \<and> lookup fs' (projectPath exampleGoConfig @ [''internal'', ''delivery'', ''http'', ''handler''])
              = Some Dir
          \<and> lookup fs' (projectPath exampleGoConfig @ [''internal'', ''domain'', ''repository''])
              = Some Dir
          \<and> lookup fs' (projectPath exampleGoConfig @ [''src'']) = None)"
proof -
  have h: "emptyRoot (projectPath exampleGoConfig) exampleHome"
    by (simp add: emptyRoot_def exampleGoConfig_def exampleHome_def below_def lookup_def)
  have c: "projectType exampleGoConfig = Backend" "framework exampleGoConfig \<noteq> ''django''"
    "language exampleGoConfig = Go" "architecture exampleGoConfig = ''hexagonal''"
    by (simp_all add: exampleGoConfig_def)
  from source_root_per_language [OF h] obtain fs' where
    b: "buildFromScratch exampleGoConfig exampleHome = Inr (Some (projectPath exampleGoConfig), fs')"
    and g: "projectType exampleGoConfig = Backend \<and> framework exampleGoConfig \<noteq> ''django''
           \<and> language exampleGoConfig = Go \<longrightarrow>
           lookup fs' (projectPath exampleGoConfig @ [''cmd'', ''api'']) = Some Dir
         \<and> (\<forall>r\<in>set (goTable (architecture exampleGoConfig)).
               lookup fs' (projectPath exampleGoConfig @ r) = Some Dir)
         \<and> (\<forall>x. x \<noteq> [] \<and> lookup fs' (projectPath exampleGoConfig @ x) \<noteq> None
                \<longrightarrow> hd x \<in> {''cmd'', ''internal'', ''pkg''})
         \<and> (\<forall>x. lookup fs' (projectPath exampleGoConfig @ ''src'' # x) = None)
         \<and> (architecture exampleGoConfig = ''hexagonal'' \<longrightarrow>
               lookup fs' (projectPath exampleGoConfig @ [''internal'', ''usecase'']) = Some Dir
             \<and> lookup fs' (projectPath exampleGoConfig @ [''internal'', ''delivery'', ''http'', ''handler'']) = Some Dir
             \<and> lookup fs' (projectPath exampleGoConfig @ [''internal'', ''domain'', ''repository'']) = Some Dir)
         \<and> (architecture exampleGoConfig = ''mvc'' \<longrightarrow>
               (\<forall>x. x \<noteq> [] \<and> lookup fs' (projectPath exampleGoConfig @ x) \<noteq> None \<longrightarrow>
                  ''handler'' \<notin> set x \<and> ''usecase'' \<notin> set x \<and> ''repository'' \<notin> set x))
         \<and> (architecture exampleGoConfig = ''layered-screaming'' \<longrightarrow>
               lookup fs' (projectPath exampleGoConfig @ [''internal'', ''features'', ''example'', ''handler'']) = Some Dir
             \<and> lookup fs' (projectPath exampleGoConfig @ [''internal'', ''features'', ''example'', ''repository''])
                 = Some Dir
             \<and> (\<forall>x. x \<noteq> [] \<and> lookup fs' (projectPath exampleGoConfig @ x) \<noteq> None \<longrightarrow> ''usecase'' \<notin> set x))
         \<and> (architecture exampleGoConfig \<notin> {''mvc'', ''hexagonal'', ''layered-screaming''} \<longrightarrow>
               lookup fs' (projectPath exampleGoConfig @ [''internal'', ''delivery'', ''http'', ''handler'']) = Some Dir
             \<and> lookup fs' (projectPath exampleGoConfig @ [''internal'', ''data'', ''repository'']) = Some Dir
             \<and> (\<forall>x. x \<noteq> [] \<and> lookup fs' (projectPath exampleGoConfig @ x) \<noteq> None \<longrightarrow> ''usecase'' \<notin> set x))"
    by (elim exE conjE) (rule that)
  note g' = g [THEN mp, OF conjI [OF c(1) conjI [OF c(2) c(3)]]]
  have l: "lookup fs' (projectPath exampleGoConfig @ [''cmd'', ''api'']) = Some Dir"
    "lookup fs' (projectPath exampleGoConfig @ [''internal'', ''usecase'']) = Some Dir"
    "lookup fs' (projectPath exampleGoConfig @ [''internal'', ''delivery'', ''http'', ''handler'']) = Some Dir"
    "lookup fs' (projectPath exampleGoConfig @ [''internal'', ''domain'', ''repository'']) = Some Dir"
    "lookup fs' (projectPath exampleGoConfig @ [''src'']) = None"
    using g' c(4) by simp_all
  show ?thesis
    by (intro conjI exI [of _ fs']) (fact h c b l)+
qed

section \<open>Facts about the textual patches\<close>

lemma includesText_iff: "includesText s needle = (\<exists>pre suf. s = pre @ needle @ suf)"
proof (induction s)
  case Nil
  show ?case by auto
next
  case (Cons c s)
  show ?case
  proof
    assume "includesText (c # s) needle"
    then consider "take (length needle) (c # s) = needle" | "includesText s needle" by auto
    then show "\<exists>pre suf. c # s = pre @ needle @ suf"
    proof cases
      case 1
      then have "c # s = [] @ needle @ drop (length needle) (c # s)"
        by (metis append_Nil append_take_drop_id)
      then show ?thesis by blast
    next
      case 2
      then obtain pre suf where "s = pre @ needle @ suf" using Cons by auto
      then have "c # s = (c # pre) @ needle @ suf" by simp
      then show ?thesis by blast
    qed
  next
    assume "\<exists>pre suf. c # s = pre @ needle @ suf"
    then obtain pre suf where e: "c # s = pre @ needle @ suf" by auto
    show "includesText (c # s) needle"
    proof (cases pre)
      case Nil
      then show ?thesis using e by (metis append_Nil append_eq_conv_conj includesText.simps(2))
    next
      case (Cons d pre')
      then have "s = pre' @ needle @ suf" using e by simp
      then show ?thesis using Cons.IH by auto
    qed
  qed
qed

lemma replaceAll_Nil:
  "replaceAll re rep [] = (case matchPrefix re [] of Some r \<Rightarrow> rep | None \<Rightarrow> [])"
  by (subst replaceAll.simps) (simp split: option.splits)

lemma replaceAll_Cons_None:
  "matchPrefix re (c # s) = None \<Longrightarrow> replaceAll re rep (c # s) = c # replaceAll re rep s"
  by (subst replaceAll.simps) simp

lemma replaceAll_Some:
  "matchPrefix re s = Some r \<Longrightarrow> length r < length s \<Longrightarrow>
   replaceAll re rep s = rep @ replaceAll re rep r"
  by (subst replaceAll.simps) simp

lemma replaceAll_no_match: "\<not> hasMatch re s \<Longrightarrow> replaceAll re rep s = s"
proof (induction s)
  case Nil
  then show ?case by (simp add: replaceAll_Nil)
next
  case (Cons c s)
  then show ?case by (simp add: replaceAll_Cons_None)
qed

lemma hasMatch_iff: "hasMatch re s = (\<exists>pre suf. s = pre @ suf \<and> matchPrefix re suf \<noteq> None)"
proof (induction s)
  case Nil
  show ?case by simp
next
  case (Cons c s)
  show ?case
  proof
    assume "hasMatch re (c # s)"
    then consider "matchPrefix re (c # s) \<noteq> None" | "hasMatch re s" by auto
    then show "\<exists>pre suf. c # s = pre @ suf \<and> matchPrefix re suf \<noteq> None"
    proof cases
      case 1
      then have "c # s = [] @ (c # s) \<and> matchPrefix re (c # s) \<noteq> None" by simp
      then show ?thesis by blast
    next
      case 2
      then obtain pre suf where "s = pre @ suf" "matchPrefix re suf \<noteq> None" using Cons by auto
      then have "c # s = (c # pre) @ suf \<and> matchPrefix re suf \<noteq> None" by simp
      then show ?thesis by blast
    qed
  next
    assume "\<exists>pre suf. c # s = pre @ suf \<and> matchPrefix re suf \<noteq> None"
    then obtain pre suf where e: "c # s = pre @ suf" "matchPrefix re suf \<noteq> None" by auto
    show "hasMatch re (c # s)"
    proof (cases pre)
      case Nil
      then have "matchPrefix re (c # s) \<noteq> None" using e by simp
      then show ?thesis by simp
    next
      case (Cons d pre')
      then have "s = pre' @ suf" using e by simp
      then show ?thesis using e(2) Cons.IH by auto
    qed
  qed
qed

lemma replaceAll_includes_rep:
  "hasMatch re s \<Longrightarrow> includesText (replaceAll re rep s) rep"
proof (induction s)
  case Nil
  then have "replaceAll re rep [] = [] @ rep @ []"
    by (auto simp: replaceAll_Nil)
  then show ?case unfolding includesText_iff by blast
next
  case (Cons c s)
  show ?case
  proof (cases "matchPrefix re (c # s)")
    case (Some r)
    have "\<exists>suf. replaceAll re rep (c # s) = [] @ rep @ suf"
      using Some by (subst replaceAll.simps) auto
    then show ?thesis unfolding includesText_iff by blast
  next
    case None
    then have "hasMatch re s" using Cons.prems by simp
    then have "includesText (replaceAll re rep s) rep" by (rule Cons.IH)
    then obtain pre suf where "replaceAll re rep s = pre @ rep @ suf"
      unfolding includesText_iff by blast
    then have "replaceAll re rep (c # s) = (c # pre) @ rep @ suf"
      using None by (subst replaceAll.simps) simp
    then show ?thesis unfolding includesText_iff by blast
  qed
qed


lemma matchPrefix_suffix: "matchPrefix re s = Some r \<Longrightarrow> \<exists>m. s = m @ r"
proof (induction re s arbitrary: r rule: matchPrefix.induct)
  case (1 s)
  then show ?case by simp
next
  case (2 l items s)
  then have t: "take (length l) s = l" and m: "matchPrefix items (drop (length l) s) = Some r"
    by (auto split: if_splits)
  from 2(1) [OF t m] obtain m' where "drop (length l) s = m' @ r" by blast
  then have "s = (take (length l) s @ m') @ r"
    by (metis append_assoc append_take_drop_id)
  then show ?case by blast
next
  case (3 k items)
  then show ?case by simp
next
  case (4 k items c s)
  then have "inClass k c" "matchPrefix items s = Some r" by (auto split: if_splits)
  from 4(1) [OF this] obtain m where "s = m @ r" by blast
  then have "c # s = (c # m) @ r" by simp
  then show ?case by blast
next
  case (5 k items)
  then show ?case by simp
next
  case (6 k items c s)
  show ?case
  proof (cases "inClass k c")
    case True
    show ?thesis
    proof (cases "matchPrefix (Many0 k # items) s")
      case None
      then have "matchPrefix items (c # s) = Some r" using 6(4) True by simp
      from 6(2) [OF True None this] show ?thesis .
    next
      case (Some r')
      then have "r' = r" using 6(4) True by simp
      with 6(1) [OF True] Some obtain m where "s = m @ r" by blast
      then have "c # s = (c # m) @ r" by simp
      then show ?thesis by blast
    qed
  next
    case False
    then have "matchPrefix items (c # s) = Some r" using 6(4) by simp
    from 6(3) [OF False this] show ?thesis .
  qed
next
  case (7 k items)
  then show ?case by simp
next
  case (8 k items c s)
  then have "inClass k c" "matchPrefix (Many0 k # items) s = Some r" by (auto split: if_splits)
  from 8(1) [OF this] obtain m where "s = m @ r" by blast
  then have "c # s = (c # m) @ r" by simp
  then show ?case by blast
qed

lemma replaceAll_weave:
  "\<exists>gaps pieces. length gaps = Suc (length pieces) \<and> s = weave gaps pieces
      \<and> replaceAll re rep s = weave gaps (map (\<lambda>m. rep) pieces)
      \<and> (\<forall>m\<in>set pieces. \<exists>r. matchPrefix re (m @ r) = Some r)"
proof (induction "length s" arbitrary: s rule: less_induct)
  case less
  let ?P = "\<lambda>s gaps pieces. length gaps = Suc (length pieces) \<and> s = weave gaps pieces
      \<and> replaceAll re rep s = weave gaps (map (\<lambda>m. rep) pieces)
      \<and> (\<forall>m\<in>set pieces. \<exists>r. matchPrefix re (m @ r) = Some r)"
  have step: "\<exists>gaps pieces. ?P t gaps pieces" if "length t < length s" for t
    using less [OF that] .
  have cons: "\<exists>gaps pieces. ?P (c # t) gaps pieces"
    if "replaceAll re rep (c # t) = c # replaceAll re rep t" "length t < length s" for c t
  proof -
    from step [OF that(2)] obtain gaps pieces where p: "?P t gaps pieces" by blast
    then obtain g gs where g: "gaps = g # gs" by (cases gaps) auto
    have "?P (c # t) ((c # g) # gs) pieces"
      using p g that(1) by (cases pieces) auto
    then show ?thesis by blast
  qed
  show ?case
  proof (cases "matchPrefix re s")
    case None
    show ?thesis
    proof (cases s)
      case Nil
      then have "?P s [[]] []" using None by (simp add: replaceAll_Nil)
      then show ?thesis by blast
    next
      case (Cons c t)
      then show ?thesis using cons [of c t] None by (simp add: replaceAll_Cons_None)
    qed
  next
    case (Some r)
    from matchPrefix_suffix [OF Some] obtain m where m: "s = m @ r" by blast
    show ?thesis
    proof (cases "length r < length s")
      case True
      from step [OF True] obtain gaps pieces where p: "?P r gaps pieces" by blast
      have "?P s ([] # gaps) (m # pieces)"
        using p m Some True by (auto simp: replaceAll_Some)
      then show ?thesis by blast
    next
      case False
      then have e: "m = []" "r = s" using m by auto
      show ?thesis
      proof (cases s)
        case Nil
        then have "matchPrefix re ([] @ []) = Some []" using Some e by simp
        then have "\<exists>r. matchPrefix re ([] @ r) = Some r" by blast
        then have "?P s [[], []] [[]]" using Some Nil by (simp add: replaceAll_Nil)
        then show ?thesis by blast
      next
        case (Cons c t)
        have r: "replaceAll re rep s = rep @ c # replaceAll re rep t"
          using Some e Cons by (subst replaceAll.simps) simp
        from step [of t] Cons obtain gaps pieces where p: "?P t gaps pieces" by auto
        then obtain g gs where g: "gaps = g # gs" by (cases gaps) auto
        have "matchPrefix re ([] @ s) = Some s" using Some e by simp
        then have x: "\<exists>r. matchPrefix re ([] @ r) = Some r" by blast
        have "?P s ([] # (c # g) # gs) ([] # pieces)"
          using p g r Cons x by (cases pieces) auto
        then show ?thesis by blast
      qed
    qed
  qed
qed


lemma matchPrefix_Lit:
  "(matchPrefix (Lit l # items) s = Some r) = (\<exists>t. s = l @ t \<and> matchPrefix items t = Some r)"
proof
  assume a: "matchPrefix (Lit l # items) s = Some r"
  then have "take (length l) s = l" "matchPrefix items (drop (length l) s) = Some r"
    by (auto split: if_splits)
  then have "s = l @ drop (length l) s \<and> matchPrefix items (drop (length l) s) = Some r"
    by (metis append_take_drop_id)
  then show "\<exists>t. s = l @ t \<and> matchPrefix items t = Some r" by blast
next
  assume "\<exists>t. s = l @ t \<and> matchPrefix items t = Some r"
  then show "matchPrefix (Lit l # items) s = Some r" by auto
qed

lemma matchPrefix_One:
  "(matchPrefix (One k # items) s = Some r)
   = (\<exists>c t. s = c # t \<and> inClass k c \<and> matchPrefix items t = Some r)"
  by (cases s) (auto split: if_splits)

lemma matchPrefix_indexCssImport:
  "(matchPrefix indexCssImport s = Some r)
   = (\<exists>q1 q2. inClass Quote q1 \<and> inClass Quote q2
        \<and> s = ''import '' @ [q1] @ ''./index.css'' @ [q2] @ r)"
  unfolding indexCssImport_def matchPrefix_Lit matchPrefix_One
  by (simp del: inClass.simps) blast

lemma hasMatch_indexCssImport:
  "hasMatch indexCssImport s
   = (\<exists>q1 q2. inClass Quote q1 \<and> inClass Quote q2
        \<and> includesText s (''import '' @ [q1] @ ''./index.css'' @ [q2]))"
proof -
  have "hasMatch indexCssImport s
      = (\<exists>pre suf r. s = pre @ suf \<and> matchPrefix indexCssImport suf = Some r)"
    by (auto simp: hasMatch_iff)
  also have "\<dots> = (\<exists>q1 q2. inClass Quote q1 \<and> inClass Quote q2
        \<and> (\<exists>pre r. s = pre @ (''import '' @ [q1] @ ''./index.css'' @ [q2]) @ r))"
    unfolding matchPrefix_indexCssImport by (simp del: inClass.simps) blast
  finally show ?thesis unfolding includesText_iff .
qed

lemma replaceAll_skip:
  assumes "\<forall>n<length g. matchPrefix re (drop n g @ t) = None"
  shows "replaceAll re rep (g @ t) = g @ replaceAll re rep t"
  using assms
proof (induction g)
  case Nil
  show ?case by simp
next
  case (Cons c g)
  have 0: "matchPrefix re (c # g @ t) = None" using Cons.prems by force
  have "\<forall>n<length g. matchPrefix re (drop n g @ t) = None"
  proof (intro allI impI)
    fix n assume "n < length g"
    then show "matchPrefix re (drop n g @ t) = None"
      using Cons.prems [rule_format, of "Suc n"] by simp
  qed
  then show ?case using Cons.IH 0 by (simp add: replaceAll_Cons_None)
qed

lemma replaceAll_cut_unique:
  assumes exact: "\<And>l r. l \<in> set L \<Longrightarrow> matchPrefix re (l @ r) = Some r"
    and sound: "\<And>t r. matchPrefix re t = Some r \<Longrightarrow> \<exists>l\<in>set L. t = l @ r"
    and ne: "[] \<notin> set L"
  shows "length gaps = Suc (length pieces) \<Longrightarrow> occurrenceCut L gaps pieces \<Longrightarrow>
         replaceAll re rep (weave gaps pieces) = weave gaps (map (\<lambda>m. rep) pieces)"
proof (induction gaps pieces rule: weave.induct)
  case (1 pieces)
  then show ?case by simp
next
  case (2 g gaps)
  have none: "matchPrefix re t = None" if "\<forall>l\<in>set L. take (length l) t \<noteq> l" for t
  proof (cases "matchPrefix re t")
    case (Some r)
    from sound [OF Some] that show ?thesis by auto
  qed simp
  have "\<not> hasMatch re g"
  proof
    assume "hasMatch re g"
    then obtain pre suf where s: "g = pre @ suf" "matchPrefix re suf \<noteq> None"
      unfolding hasMatch_iff by blast
    have "length pre < Suc (length g)" using s(1) by simp
    then have "\<forall>l\<in>set L. take (length l) (drop (length pre) g) \<noteq> l"
      using 2(2) by (simp add: list_all_iff del: upt_Suc)
    then have "matchPrefix re suf = None" using none s(1) by simp
    then show False using s(2) by simp
  qed
  then show ?case by (simp add: replaceAll_no_match)
next
  case (3 g gaps m pieces)
  have none: "matchPrefix re t = None" if "\<forall>l\<in>set L. take (length l) t \<noteq> l" for t
  proof (cases "matchPrefix re t")
    case (Some r)
    from sound [OF Some] that show ?thesis by auto
  qed simp
  let ?rest = "weave gaps pieces"
  have c: "\<forall>n<length g. \<forall>l\<in>set L. take (length l) (drop n g @ m @ ?rest) \<noteq> l"
    and m: "m \<in> set L" and r: "occurrenceCut L gaps pieces"
    using 3(3) by (simp_all add: list_all_iff del: upt_Suc)
  have l: "length gaps = Suc (length pieces)" using 3(2) by simp
  have skip: "replaceAll re rep (g @ m @ ?rest) = g @ replaceAll re rep (m @ ?rest)"
    by (rule replaceAll_skip) (use c none in blast)
  have mne: "m \<noteq> []" using m ne by auto
  have "replaceAll re rep (m @ ?rest) = rep @ replaceAll re rep ?rest"
    using exact [OF m, of ?rest] mne by (intro replaceAll_Some) simp_all
  then show ?case using skip 3(1) [OF l r] by simp
qed

lemma replaceAll_cut_exists:
  assumes exact: "\<And>l r. l \<in> set L \<Longrightarrow> matchPrefix re (l @ r) = Some r"
    and sound: "\<And>t r. matchPrefix re t = Some r \<Longrightarrow> \<exists>l\<in>set L. t = l @ r"
    and ne: "[] \<notin> set L"
  shows "\<exists>gaps pieces. length gaps = Suc (length pieces) \<and> s = weave gaps pieces
      \<and> occurrenceCut L gaps pieces"
proof (induction "length s" arbitrary: s rule: less_induct)
  case less
  have free: "\<forall>l\<in>set L. take (length l) t \<noteq> l" if "matchPrefix re t = None" for t
  proof
    fix l assume l: "l \<in> set L"
    show "take (length l) t \<noteq> l"
    proof
      assume "take (length l) t = l"
      then have "t = l @ drop (length l) t" by (metis append_take_drop_id)
      then have "matchPrefix re t = Some (drop (length l) t)" using exact [OF l] by metis
      then show False using that by simp
    qed
  qed
  show ?case
  proof (cases "matchPrefix re s")
    case None
    show ?thesis
    proof (cases s)
      case Nil
      have "occurrenceCut L [[]] []" using free [OF None] Nil by (simp add: list_all_iff)
      then have "length [[]::string] = Suc (length ([]::string list)) \<and> s = weave [[]] []
          \<and> occurrenceCut L [[]] []" using Nil by simp
      then show ?thesis by blast
    next
      case (Cons c t)
      from less [of t] Cons obtain gaps pieces where
        p: "length gaps = Suc (length pieces)" "t = weave gaps pieces" "occurrenceCut L gaps pieces"
        by auto
      then obtain g gs where g: "gaps = g # gs" by (cases gaps) auto
      have hd0: "\<forall>l\<in>set L. take (length l) (c # t) \<noteq> l" using free [OF None] Cons by simp
      have "occurrenceCut L ((c # g) # gs) pieces"
      proof (cases pieces)
        case Nil
        then have tg: "t = g" using p(2) g by simp
        have a: "\<forall>n<Suc (length g). \<forall>l\<in>set L. take (length l) (drop n g) \<noteq> l"
          using p(3) g Nil by (simp add: list_all_iff del: upt_Suc)
        have "\<forall>n<Suc (length (c # g)). \<forall>l\<in>set L. take (length l) (drop n (c # g)) \<noteq> l"
        proof (intro allI impI)
          fix n assume n: "n < Suc (length (c # g))"
          show "\<forall>l\<in>set L. take (length l) (drop n (c # g)) \<noteq> l"
          proof (cases n)
            case 0
            then show ?thesis using hd0 tg by simp
          next
            case (Suc k)
            then show ?thesis using a n by simp
          qed
        qed
        then show ?thesis using Nil by (simp add: list_all_iff del: upt_Suc)
      next
        case (Cons m ps)
        then have tg: "t = g @ m @ weave gs ps" using p(2) g by simp
        have a: "\<forall>n<length g. \<forall>l\<in>set L. take (length l) (drop n g @ m @ weave gs ps) \<noteq> l"
          and b: "m \<in> set L" "occurrenceCut L gs ps"
          using p(3) g Cons by (simp_all add: list_all_iff del: upt_Suc)
        have "\<forall>n<length (c # g). \<forall>l\<in>set L.
            take (length l) (drop n (c # g) @ m @ weave gs ps) \<noteq> l"
        proof (intro allI impI)
          fix n assume n: "n < length (c # g)"
          show "\<forall>l\<in>set L. take (length l) (drop n (c # g) @ m @ weave gs ps) \<noteq> l"
          proof (cases n)
            case 0
            then show ?thesis using hd0 tg by simp
          next
            case (Suc k)
            then show ?thesis using a n by simp
          qed
        qed
        then show ?thesis using Cons b by (simp add: list_all_iff del: upt_Suc)
      qed
      moreover have "length ((c # g) # gs) = Suc (length pieces)" using p(1) g by simp
      moreover have "s = weave ((c # g) # gs) pieces"
        using p(2) g \<open>s = c # t\<close> by (cases pieces) simp_all
      ultimately show ?thesis by blast
    qed
  next
    case (Some r)
    from sound [OF Some] obtain l where l: "l \<in> set L" "s = l @ r" by blast
    have "l \<noteq> []" using l(1) ne by auto
    then have "length r < length s" using l(2) by simp
    from less [OF this] obtain gaps pieces where
      p: "length gaps = Suc (length pieces)" "r = weave gaps pieces" "occurrenceCut L gaps pieces"
      by blast
    have "length ([] # gaps) = Suc (length (l # pieces)) \<and> s = weave ([] # gaps) (l # pieces)
        \<and> occurrenceCut L ([] # gaps) (l # pieces)"
      using p l by simp
    then show ?thesis by blast
  qed
qed

lemma indexCssImportTexts_set:
  "set indexCssImportTexts
     = {''import '' @ [q1] @ ''./index.css'' @ [q2] |q1 q2. inClass Quote q1 \<and> inClass Quote q2}"
  by (auto simp: indexCssImportTexts_def)

lemma indexCssImport_exact:
  "l \<in> set indexCssImportTexts \<Longrightarrow> matchPrefix indexCssImport (l @ r) = Some r"
  unfolding indexCssImportTexts_set matchPrefix_indexCssImport by auto

lemma indexCssImport_sound:
  "matchPrefix indexCssImport t = Some r \<Longrightarrow> \<exists>l\<in>set indexCssImportTexts. t = l @ r"
  unfolding indexCssImportTexts_set matchPrefix_indexCssImport by auto

lemma indexCssImportTexts_nonempty: "[] \<notin> set indexCssImportTexts"
  by (simp add: indexCssImportTexts_def)

lemma map_of_setEntry:
  "map_of (setEntry p n fs) q = (if q = p \<and> map_of fs p \<noteq> None then Some n else map_of fs q)"
  by (induction fs) (auto simp: setEntry_def)

lemma fs_writeFile_lookup:
  assumes "fs_writeFile p c fs = Inr fs'"
  shows "lookup fs' q = (if q = p then Some (File c) else lookup fs q)"
proof -
  have ne: "p \<noteq> []" using assms by (auto simp: fs_writeFile_def lookup_def)
  show ?thesis
    using assms ne
    by (auto simp: fs_writeFile_def lookup_def map_of_setEntry map_add_def
        split: option.splits node.splits if_splits)
qed

lemma fs_writeFile_existing:
  "lookup fs p = Some (File old) \<Longrightarrow> \<exists>fs'. fs_writeFile p c fs = Inr fs'"
  by (simp add: fs_writeFile_def)

lemma updateFirstExisting_file:
  assumes "file \<in> set files"
    and "\<forall>f\<in>set (takeWhile (\<lambda>f. f \<noteq> file) files). lookup fs (srcPath @ [f]) = None"
    and "lookup fs (srcPath @ [file]) = Some (File content)"
  shows "\<exists>fs'. updateFirstExisting edit srcPath files fs = Inr fs'
           \<and> (\<forall>q. lookup fs' q = (if q = srcPath @ [file] then Some (File (edit content)) else lookup fs q))"
  using assms
proof (induction files)
  case Nil
  then show ?case by simp
next
  case (Cons f files)
  show ?case
  proof (cases "f = file")
    case True
    from fs_writeFile_existing [OF Cons.prems(3), of "edit content"]
    obtain fs' where w: "fs_writeFile (srcPath @ [file]) (edit content) fs = Inr fs'" by blast
    have "updateFirstExisting edit srcPath (f # files) fs = Inr fs'"
      using True Cons.prems(3) w
      by (simp add: path_join_def pathExists_def fs_readFile_def andThen_def)
    then show ?thesis using fs_writeFile_lookup [OF w] by auto
  next
    case False
    then have n: "lookup fs (srcPath @ [f]) = None" using Cons.prems(2) by simp
    have "file \<in> set files" using False Cons.prems(1) by auto
    moreover have "\<forall>f\<in>set (takeWhile (\<lambda>f. f \<noteq> file) files). lookup fs (srcPath @ [f]) = None"
      using False Cons.prems(2) by simp
    ultimately have "\<exists>fs'. updateFirstExisting edit srcPath files fs = Inr fs'
           \<and> (\<forall>q. lookup fs' q = (if q = srcPath @ [file] then Some (File (edit content)) else lookup fs q))"
      using Cons.IH Cons.prems(3) by blast
    then show ?thesis using n by (simp add: path_join_def pathExists_def)
  qed
qed

lemma updateFirstExisting_none:
  "\<forall>f\<in>set files. lookup fs (srcPath @ [f]) = None \<Longrightarrow>
   updateFirstExisting edit srcPath files fs = Inr fs"
  by (induction files) (simp_all add: path_join_def pathExists_def)

lemma updateMainCssImports_file:
  assumes "mainFile = ''main.tsx''
           \<or> (mainFile = ''main.jsx'' \<and> lookup fs (srcPath @ [''main.tsx'']) = None)"
    and "lookup fs (srcPath @ [mainFile]) = Some (File content)"
    and "rep = (if arch = ''feature-based''
                then ''import '' @ sq @ ''./shared/styles/index.css'' @ sq
                else ''import '' @ sq @ ''./styles/index.css'' @ sq)"
  shows "\<exists>fs' content'.
       updateMainCssImports srcPath arch fs = Inr fs'
     \<and> lookup fs' (srcPath @ [mainFile]) = Some (File content')
     \<and> (\<forall>q. q \<noteq> srcPath @ [mainFile] \<longrightarrow> lookup fs' q = lookup fs q)
     \<and> (\<exists>gaps pieces.
           length gaps = Suc (length pieces)
         \<and> content = weave gaps pieces
         \<and> occurrenceCut indexCssImportTexts gaps pieces)
     \<and> (\<forall>gaps pieces.
           length gaps = Suc (length pieces)
         \<and> content = weave gaps pieces
         \<and> occurrenceCut indexCssImportTexts gaps pieces
         \<longrightarrow> content' = weave gaps (map (\<lambda>m. rep) pieces))
     \<and> (includesText content (''import '' @ sq @ ''./index.css'' @ sq)
          \<longrightarrow> includesText content' rep)
     \<and> (includesText content (''import '' @ dq @ ''./index.css'' @ dq)
          \<longrightarrow> includesText content' rep)
     \<and> ((\<forall>q1 q2. inClass Quote q1 \<and> inClass Quote q2
             \<longrightarrow> \<not> includesText content (''import '' @ [q1] @ ''./index.css'' @ [q2]))
          \<longrightarrow> content' = content)"
proof -
  let ?edit = "\<lambda>content.
          if arch = ''feature-based''
          then replaceAll indexCssImport (''import '' @ sq @ ''./shared/styles/index.css'' @ sq) content
          else replaceAll indexCssImport (''import '' @ sq @ ''./styles/index.css'' @ sq) content"
  have edit: "?edit content = replaceAll indexCssImport rep content"
    using assms(3) by simp
  have "mainFile \<in> set [''main.tsx'', ''main.jsx'']" using assms(1) by auto
  moreover have "\<forall>f\<in>set (takeWhile (\<lambda>f. f \<noteq> mainFile) [''main.tsx'', ''main.jsx'']).
      lookup fs (srcPath @ [f]) = None"
    using assms(1) by auto
  ultimately obtain fs' where
    u: "updateFirstExisting ?edit srcPath [''main.tsx'', ''main.jsx''] fs = Inr fs'"
    and l: "\<And>q. lookup fs' q = (if q = srcPath @ [mainFile] then Some (File (?edit content)) else lookup fs q)"
    using updateFirstExisting_file [OF _ _ assms(2), of "[''main.tsx'', ''main.jsx'']" ?edit]
    by blast
  let ?c' = "replaceAll indexCssImport rep content"
  have 1: "updateMainCssImports srcPath arch fs = Inr fs'"
    using u by (simp add: updateMainCssImports_def)
  have 2: "lookup fs' (srcPath @ [mainFile]) = Some (File ?c')"
    using l [of "srcPath @ [mainFile]"] edit by simp
  have 3: "\<forall>q. q \<noteq> srcPath @ [mainFile] \<longrightarrow> lookup fs' q = lookup fs q"
    using l by simp
  have 4: "\<exists>gaps pieces.
           length gaps = Suc (length pieces)
         \<and> content = weave gaps pieces
         \<and> occurrenceCut indexCssImportTexts gaps pieces"
    by (rule replaceAll_cut_exists [of indexCssImportTexts indexCssImport])
       (erule indexCssImport_exact, erule indexCssImport_sound, rule indexCssImportTexts_nonempty)
  have 8: "\<forall>gaps pieces.
           length gaps = Suc (length pieces)
         \<and> content = weave gaps pieces
         \<and> occurrenceCut indexCssImportTexts gaps pieces
         \<longrightarrow> ?c' = weave gaps (map (\<lambda>m. rep) pieces)"
  proof (intro allI impI)
    fix gaps pieces
    assume a: "length gaps = Suc (length pieces)
         \<and> content = weave gaps pieces
         \<and> occurrenceCut indexCssImportTexts gaps pieces"
    have "replaceAll indexCssImport rep (weave gaps pieces) = weave gaps (map (\<lambda>m. rep) pieces)"
      by (rule replaceAll_cut_unique [of indexCssImportTexts indexCssImport])
         (erule indexCssImport_exact, erule indexCssImport_sound, rule indexCssImportTexts_nonempty,
          rule a [THEN conjunct1], rule a [THEN conjunct2, THEN conjunct2])
    then show "?c' = weave gaps (map (\<lambda>m. rep) pieces)"
      using a by simp
  qed
  have q: "inClass Quote (CHR 0x27)" "inClass Quote (CHR 0x22)" by simp_all
  have 5: "includesText content (''import '' @ sq @ ''./index.css'' @ sq) \<longrightarrow> includesText ?c' rep"
    using replaceAll_includes_rep [of indexCssImport content rep] q(1)
    unfolding hasMatch_indexCssImport by blast
  have 6: "includesText content (''import '' @ dq @ ''./index.css'' @ dq) \<longrightarrow> includesText ?c' rep"
    using replaceAll_includes_rep [of indexCssImport content rep] q(2)
    unfolding hasMatch_indexCssImport by blast
  have 7: "(\<forall>q1 q2. inClass Quote q1 \<and> inClass Quote q2
             \<longrightarrow> \<not> includesText content (''import '' @ [q1] @ ''./index.css'' @ [q2]))
          \<longrightarrow> ?c' = content"
    using replaceAll_no_match [of indexCssImport content rep]
    unfolding hasMatch_indexCssImport by blast
  show ?thesis
    by (intro exI [of _ fs'] exI [of _ ?c'] conjI) (fact 1 2 3 4 8 5 6 7)+
qed


section \<open>The rewrite of the stylesheet import\<close>

text \<open>
  Claim C5, as the specification states it, at an entry file that imports the
  stylesheet with double quotes: the literal \<open>import './index.css'\<close> is absent from the
  file, and the file is changed all the same.
\<close>

theorem literal_import_counterexample:
  "\<not> includesText (''import '' @ dq @ ''./index.css'' @ dq @ nl) (''import '' @ sq @ ''./index.css'' @ sq)
   \<and> updateMainCssImports [''app'', ''src''] ''feature-based'' exampleMainTsxDoubleQuoted
     = Inr [([''app''], Dir), ([''app'', ''src''], Dir),
            ([''app'', ''src'', ''main.tsx''],
             File (''import '' @ sq @ ''./shared/styles/index.css'' @ sq @ nl))]"
  by (simp add: updateMainCssImports_def exampleMainTsxDoubleQuoted_def path_join_def pathExists_def
      lookup_def fs_readFile_def fs_writeFile_def andThen_def setEntry_def indexCssImport_def
      replaceAll_Nil replaceAll_Cons_None replaceAll_Some)

text \<open>
  Claim C5, amended. The pattern is \<open>import\<close>, a blank, a single or double quote,
  \<open>./index.css\<close> and a single or double quote. The first of \<open>main.tsx\<close>, \<open>main.jsx\<close>
  that exists is rewritten, without an error, and no other entry of the file system
  changes. The old content is cut into gaps and pieces as a scan from the left finds the
  texts of the pattern: each piece is such a text and no position of a gap starts one.
  Such a cut exists, and for every such cut the new content is the same gaps with the
  replacement (\<open>import './shared/styles/index.css'\<close> for feature-based,
  \<open>import './styles/index.css'\<close> otherwise) in the place of every piece: every
  occurrence is replaced and nothing else is changed.
  When the import occurs in the file (with single or with double quotes) the new content
  contains the replacement, and when the pattern occurs in neither quote style the
  content is unchanged. When neither file exists nothing happens and no error is raised.
\<close>

theorem main_css_import_rewrite:
  "((mainFile = ''main.tsx''
       \<or> (mainFile = ''main.jsx'' \<and> lookup fs (srcPath @ [''main.tsx'']) = None))
     \<and> lookup fs (srcPath @ [mainFile]) = Some (File content)
     \<and> rep = (if arch = ''feature-based''
              then ''import '' @ sq @ ''./shared/styles/index.css'' @ sq
              else ''import '' @ sq @ ''./styles/index.css'' @ sq)
     \<longrightarrow>
     (\<exists>fs' content'.
       updateMainCssImports srcPath arch fs = Inr fs'
     \<and> lookup fs' (srcPath @ [mainFile]) = Some (File content')
     \<and> (\<forall>q. q \<noteq> srcPath @ [mainFile] \<longrightarrow> lookup fs' q = lookup fs q)
     \<and> (\<exists>gaps pieces.
           length gaps = Suc (length pieces)
         \<and> content = weave gaps pieces
         \<and> occurrenceCut indexCssImportTexts gaps pieces)
     \<and> (\<forall>gaps pieces.
           length gaps = Suc (length pieces)
         \<and> content = weave gaps pieces
         \<and> occurrenceCut indexCssImportTexts gaps pieces
         \<longrightarrow> content' = weave gaps (map (\<lambda>m. rep) pieces))
     \<and> (includesText content (''import '' @ sq @ ''./index.css'' @ sq)
          \<longrightarrow> includesText content' rep)
     \<and> (includesText content (''import '' @ dq @ ''./index.css'' @ dq)
          \<longrightarrow> includesText content' rep)
     \<and> ((\<forall>q1 q2. inClass Quote q1 \<and> inClass Quote q2
             \<longrightarrow> \<not> includesText content (''import '' @ [q1] @ ''./index.css'' @ [q2]))
          \<longrightarrow> content' = content)))
   \<and> (lookup fs (srcPath @ [''main.tsx'']) = None \<and> lookup fs (srcPath @ [''main.jsx'']) = None
        \<longrightarrow> updateMainCssImports srcPath arch fs = Inr fs)"
proof (intro conjI impI)
  assume a: "(mainFile = ''main.tsx''
       \<or> (mainFile = ''main.jsx'' \<and> lookup fs (srcPath @ [''main.tsx'']) = None))
     \<and> lookup fs (srcPath @ [mainFile]) = Some (File content)
     \<and> rep = (if arch = ''feature-based''
              then ''import '' @ sq @ ''./shared/styles/index.css'' @ sq
              else ''import '' @ sq @ ''./styles/index.css'' @ sq)"
  then have a1: "mainFile = ''main.tsx''
       \<or> (mainFile = ''main.jsx'' \<and> lookup fs (srcPath @ [''main.tsx'']) = None)"
    and a2: "lookup fs (srcPath @ [mainFile]) = Some (File content)"
    and a3: "rep = (if arch = ''feature-based''
              then ''import '' @ sq @ ''./shared/styles/index.css'' @ sq
              else ''import '' @ sq @ ''./styles/index.css'' @ sq)"
    by blast+
  show "\<exists>fs' content'.
       updateMainCssImports srcPath arch fs = Inr fs'
     \<and> lookup fs' (srcPath @ [mainFile]) = Some (File content')
     \<and> (\<forall>q. q \<noteq> srcPath @ [mainFile] \<longrightarrow> lookup fs' q = lookup fs q)
     \<and> (\<exists>gaps pieces.
           length gaps = Suc (length pieces)
         \<and> content = weave gaps pieces
         \<and> occurrenceCut indexCssImportTexts gaps pieces)
     \<and> (\<forall>gaps pieces.
           length gaps = Suc (length pieces)
         \<and> content = weave gaps pieces
         \<and> occurrenceCut indexCssImportTexts gaps pieces
         \<longrightarrow> content' = weave gaps (map (\<lambda>m. rep) pieces))
     \<and> (includesText content (''import '' @ sq @ ''./index.css'' @ sq)
          \<longrightarrow> includesText content' rep)
     \<and> (includesText content (''import '' @ dq @ ''./index.css'' @ dq)
          \<longrightarrow> includesText content' rep)
     \<and> ((\<forall>q1 q2. inClass Quote q1 \<and> inClass Quote q2
             \<longrightarrow> \<not> includesText content (''import '' @ [q1] @ ''./index.css'' @ [q2]))
          \<longrightarrow> content' = content)"
    by (rule updateMainCssImports_file [OF a1 a2 a3])
next
  assume "lookup fs (srcPath @ [''main.tsx'']) = None \<and> lookup fs (srcPath @ [''main.jsx'']) = None"
  then have "\<forall>f\<in>set [''main.tsx'', ''main.jsx'']. lookup fs (srcPath @ [f]) = None"
    by simp
  then show "updateMainCssImports srcPath arch fs = Inr fs"
    unfolding updateMainCssImports_def by (rule updateFirstExisting_none)
qed

theorem main_css_import_rewrite_witness:
  "lookup exampleMainTsx ([''app'', ''src''] @ [''main.tsx''])
     = Some (File (''import App from '' @ sq @ ''./App'' @ sq @ nl
                   @ ''import '' @ sq @ ''./index.css'' @ sq @ nl))
   \<and> includesText (''import App from '' @ sq @ ''./App'' @ sq @ nl
                   @ ''import '' @ sq @ ''./index.css'' @ sq @ nl)
         (''import '' @ sq @ ''./index.css'' @ sq)
   \<and> (\<exists>fs' content'.
         updateMainCssImports [''app'', ''src''] ''feature-based'' exampleMainTsx = Inr fs'
       \<and> lookup fs' ([''app'', ''src''] @ [''main.tsx'']) = Some (File content')
       \<and> includesText content' (''import '' @ sq @ ''./shared/styles/index.css'' @ sq))
   \<and> updateMainCssImports [''app'', ''src''] ''feature-based'' exampleMainTsx
     = Inr [([''app''], Dir), ([''app'', ''src''], Dir),
            ([''app'', ''src'', ''main.tsx''],
             File (''import App from '' @ sq @ ''./App'' @ sq @ nl
                   @ ''import '' @ sq @ ''./shared/styles/index.css'' @ sq @ nl))]
   \<and> occurrenceCut indexCssImportTexts [[], nl, nl]
         [''import '' @ sq @ ''./index.css'' @ sq, ''import '' @ dq @ ''./index.css'' @ dq]
   \<and> (\<exists>fs'. updateMainCssImports [''app'', ''src''] ''feature-based'' exampleMainTsxTwice = Inr fs'
          \<and> lookup fs' ([''app'', ''src''] @ [''main.tsx''])
              = Some (File (''import '' @ sq @ ''./shared/styles/index.css'' @ sq @ nl
                            @ ''import '' @ sq @ ''./shared/styles/index.css'' @ sq @ nl)))"
proof -
  let ?c = "''import App from '' @ sq @ ''./App'' @ sq @ nl @ ''import '' @ sq @ ''./index.css'' @ sq @ nl"
  let ?rep = "''import '' @ sq @ ''./shared/styles/index.css'' @ sq"
  have h: "lookup exampleMainTsx ([''app'', ''src''] @ [''main.tsx'']) = Some (File ?c)"
    by (simp add: exampleMainTsx_def lookup_def)
  have i: "includesText ?c (''import '' @ sq @ ''./index.css'' @ sq)"
    by simp
  have r: "?rep = (if ''feature-based'' = ''feature-based''
              then ''import '' @ sq @ ''./shared/styles/index.css'' @ sq
              else ''import '' @ sq @ ''./styles/index.css'' @ sq)"
    by simp
  from main_css_import_rewrite
    [of "''main.tsx''" exampleMainTsx "[''app'', ''src'']" ?c ?rep "''feature-based''", THEN conjunct1]
    h r
  obtain fs' content' where
    u: "updateMainCssImports [''app'', ''src''] ''feature-based'' exampleMainTsx = Inr fs'"
    and l: "lookup fs' ([''app'', ''src''] @ [''main.tsx'']) = Some (File content')"
    and k: "includesText ?c (''import '' @ sq @ ''./index.css'' @ sq) \<longrightarrow> includesText content' ?rep"
    by blast
  have e: "updateMainCssImports [''app'', ''src''] ''feature-based'' exampleMainTsx
     = Inr [([''app''], Dir), ([''app'', ''src''], Dir),
            ([''app'', ''src'', ''main.tsx''],
             File (''import App from '' @ sq @ ''./App'' @ sq @ nl
                   @ ''import '' @ sq @ ''./shared/styles/index.css'' @ sq @ nl))]"
    by (simp add: updateMainCssImports_def exampleMainTsx_def path_join_def pathExists_def
      lookup_def fs_readFile_def fs_writeFile_def andThen_def setEntry_def indexCssImport_def
      replaceAll_Nil replaceAll_Cons_None replaceAll_Some)
  have k': "includesText content' ?rep" using k i by blast
  let ?d = "''import '' @ sq @ ''./index.css'' @ sq @ nl @ ''import '' @ dq @ ''./index.css'' @ dq @ nl"
  let ?gaps = "[[], nl, nl]"
  let ?pieces = "[''import '' @ sq @ ''./index.css'' @ sq, ''import '' @ dq @ ''./index.css'' @ dq]"
  have h2: "lookup exampleMainTsxTwice ([''app'', ''src''] @ [''main.tsx'']) = Some (File ?d)"
    by (simp add: exampleMainTsxTwice_def lookup_def)
  have cut: "occurrenceCut indexCssImportTexts ?gaps ?pieces"
    by (simp add: indexCssImportTexts_def)
  have w: "length ?gaps = Suc (length ?pieces) \<and> ?d = weave ?gaps ?pieces
      \<and> occurrenceCut indexCssImportTexts ?gaps ?pieces"
    using cut by simp
  note t2 = main_css_import_rewrite
    [of "''main.tsx''" exampleMainTsxTwice "[''app'', ''src'']" ?d ?rep "''feature-based''",
     THEN conjunct1, THEN mp, OF conjI [OF disjI1 [OF refl] conjI [OF h2 r]]]
  from t2 obtain fs2 c2 where
    u2: "updateMainCssImports [''app'', ''src''] ''feature-based'' exampleMainTsxTwice = Inr fs2"
    and l2: "lookup fs2 ([''app'', ''src''] @ [''main.tsx'']) = Some (File c2)"
    and all: "\<forall>gaps pieces.
           length gaps = Suc (length pieces)
         \<and> ?d = weave gaps pieces
         \<and> occurrenceCut indexCssImportTexts gaps pieces
         \<longrightarrow> c2 = weave gaps (map (\<lambda>m. ?rep) pieces)"
    by (elim exE conjE) (rule that)
  have "c2 = weave ?gaps (map (\<lambda>m. ?rep) ?pieces)"
    by (rule all [rule_format]) (rule w)
  then have c2: "c2 = ?rep @ nl @ ?rep @ nl" by simp
  have x2: "\<exists>fs'. updateMainCssImports [''app'', ''src''] ''feature-based'' exampleMainTsxTwice = Inr fs'
          \<and> lookup fs' ([''app'', ''src''] @ [''main.tsx''])
              = Some (File (''import '' @ sq @ ''./shared/styles/index.css'' @ sq @ nl
                            @ ''import '' @ sq @ ''./shared/styles/index.css'' @ sq @ nl))"
    using u2 l2 c2 by (intro exI [of _ fs2]) simp
  have x1: "\<exists>fs' content'.
         updateMainCssImports [''app'', ''src''] ''feature-based'' exampleMainTsx = Inr fs'
       \<and> lookup fs' ([''app'', ''src''] @ [''main.tsx'']) = Some (File content')
       \<and> includesText content' (''import '' @ sq @ ''./shared/styles/index.css'' @ sq)"
    by (intro conjI exI [of _ fs'] exI [of _ content']) (fact u l k')+
  show ?thesis
    by (intro conjI) (fact h i x1 e cut x2)+
qed

section \<open>Facts about the creation flow\<close>

lemma hyphen_kebab: "CHR ''-'' \<in> kebabChars"
  by (simp add: kebabChars_def)

lemma kebab_not_upper: "kebabChars \<inter> set upperCaseLetters = {}"
  by (simp add: kebabChars_def upperCaseLetters_def)

lemma toLowerChar_other: "c \<notin> set upperCaseLetters \<Longrightarrow> toLowerChar c = c"
proof -
  assume a: "c \<notin> set upperCaseLetters"
  have "length upperCaseLetters = length lowerCaseLetters"
    by (simp add: upperCaseLetters_def lowerCaseLetters_def)
  then have "fst ` set (zip upperCaseLetters lowerCaseLetters) = set upperCaseLetters"
    by (metis list.set_map map_fst_zip)
  then have "map_of (zip upperCaseLetters lowerCaseLetters) c = None"
    using a by (simp only: map_of_eq_None_iff not_False_eq_True)
  then show ?thesis by (simp add: toLowerChar_def)
qed

lemma toLowerCase_kebab: "set s \<subseteq> kebabChars \<Longrightarrow> toLowerCase s = s"
proof (induction s)
  case Nil
  show ?case by (simp add: toLowerCase_def)
next
  case (Cons c s)
  then have "c \<notin> set upperCaseLetters" using kebab_not_upper by auto
  then show ?case using Cons by (simp add: toLowerCase_def toLowerChar_other)
qed


lemma normalize_kebab:
  "fw = ''nestjs'' \<or> fw = ''angular'' \<Longrightarrow> set (normalizeProjectName fw nm) \<subseteq> kebabChars"
  using hyphen_kebab by (auto simp: normalizeProjectName_def)

lemma normalize_fixed:
  assumes "set s \<subseteq> kebabChars"
  shows "normalizeProjectName fw s = s"
proof -
  have "map (\<lambda>c. if c \<notin> kebabChars then CHR ''-'' else c) s = s"
    using assms by (induction s) auto
  then show ?thesis using toLowerCase_kebab [OF assms] by (simp add: normalizeProjectName_def)
qed

lemma runGenerator_Some:
  "fst (runGenerator sh command parentDir actual fs) = Some p \<Longrightarrow> p = actual"
  by (auto simp: runGenerator_def split: prod.splits bool.splits)


lemma createProjectWithCLI_path:
  assumes "fst (createProjectWithCLI sh cfg fs) = Some p"
  shows "p = path_join (path_dirname (projectPath cfg))
               [normalizeProjectName (framework cfg) (projectName cfg)]"
proof -
  obtain pm fs0 where d: "detectPackageManager sh fs = (pm, fs0)"
    by (cases "detectPackageManager sh fs")
  let ?actual = "path_join (path_dirname (projectPath cfg))
               [normalizeProjectName (framework cfg) (projectName cfg)]"
  have gen: "\<exists>command s. createProjectWithCLI sh cfg fs
                = runGenerator sh command (path_dirname (projectPath cfg)) ?actual s"
    if "fst (createProjectWithCLI sh cfg fs) \<noteq> None"
  proof (cases "framework cfg = ''angular''")
    case False
    then show ?thesis using that d
      by (simp add: createProjectWithCLI_def Let_def split: if_splits) blast+
  next
    case True
    obtain has fs1 where c: "checkCommandExists sh ''ng'' fs0 = (has, fs1)"
      by (cases "checkCommandExists sh ''ng'' fs0")
    obtain ok fs2 where i: "(if \<not> has then sh ''npm install -g @angular/cli'' None fs1 else (True, fs1))
        = (ok, fs2)"
      by (cases "if \<not> has then sh ''npm install -g @angular/cli'' None fs1 else (True, fs1)")
    have "createProjectWithCLI sh cfg fs =
        (if ok then runGenerator sh
                       (''ng new '' @ normalizeProjectName (framework cfg) (projectName cfg)
                        @ '' --routing --style=scss --skip-git'')
                       (path_dirname (projectPath cfg)) ?actual fs2
         else (None, fs2))"
      using True d c i by (simp add: createProjectWithCLI_def Let_def)
    then show ?thesis using that by (cases ok) auto
  qed
  from gen assms obtain command s where
    "createProjectWithCLI sh cfg fs = runGenerator sh command (path_dirname (projectPath cfg)) ?actual s"
    by auto
  then show ?thesis using assms runGenerator_Some by metis
qed


lemma finishFlow_steps:
  assumes "list_all (stepUses p nm) steps1"
  shows "list_all (stepUses p nm) (snd (finishFlow D F sh env answers p nm steps1 fs2))"
proof -
  obtain steps2 fs3 where s2: "(if answeredFramework answers = ''react'' \<or> answeredFramework answers = ''svelte''
             then (case installDependencies sh p fs2 of
                     (installCmd, fs') \<Rightarrow> (steps1 @ [StepInstallDependencies installCmd p], fs'))
             else (steps1, fs2)) = (steps2, fs3)"
    by (cases "(if answeredFramework answers = ''react'' \<or> answeredFramework answers = ''svelte''
             then (case installDependencies sh p fs2 of
                     (installCmd, fs') \<Rightarrow> (steps1 @ [StepInstallDependencies installCmd p], fs'))
             else (steps1, fs2))")
  have u2: "list_all (stepUses p nm) steps2"
    using s2 assms by (auto split: if_splits prod.splits)
  show ?thesis
    unfolding finishFlow_def Let_def s2 prod.case
    using u2 by (simp split: sum.splits)
qed


lemma finishFlow_complete:
  assumes "fst (finishFlow D F sh env answers p nm steps1 fs2) = None"
  shows "StepPrintCd nm \<in> set (snd (finishFlow D F sh env answers p nm steps1 fs2))
       \<and> StepInstallSkills p
            (combineSkills (D (answeredProjectType answers)) (F (answeredFramework answers))
               (selectedAdditionalSkills answers))
          \<in> set (snd (finishFlow D F sh env answers p nm steps1 fs2))
       \<and> set steps1 \<subseteq> set (snd (finishFlow D F sh env answers p nm steps1 fs2))"
proof -
  obtain steps2 fs3 where s2: "(if answeredFramework answers = ''react'' \<or> answeredFramework answers = ''svelte''
             then (case installDependencies sh p fs2 of
                     (installCmd, fs') \<Rightarrow> (steps1 @ [StepInstallDependencies installCmd p], fs'))
             else (steps1, fs2)) = (steps2, fs3)"
    by (cases "(if answeredFramework answers = ''react'' \<or> answeredFramework answers = ''svelte''
             then (case installDependencies sh p fs2 of
                     (installCmd, fs') \<Rightarrow> (steps1 @ [StepInstallDependencies installCmd p], fs'))
             else (steps1, fs2))")
  have u2: "set steps1 \<subseteq> set steps2"
    using s2 by (auto split: if_splits prod.splits)
  show ?thesis
    using assms u2
    unfolding finishFlow_def Let_def s2 prod.case
    by (auto split: sum.splits if_splits)
qed

lemma creationFlow_steps:
  assumes "createProjectStructure sh
             \<lparr>projectName = answeredProjectName answers,
              projectType = answeredProjectType answers,
              language = answeredLanguage answers,
              framework = answeredFramework answers,
              architecture = resolveArchitecture answers,
              projectPath = path_join cwd [answeredProjectName answers]\<rparr> fs
           = Inr (actual, fs1)"
    and "final = (case actual of Some p \<Rightarrow> p | None \<Rightarrow> path_join cwd [answeredProjectName answers])"
  shows "list_all (stepUses final (path_basename final))
           (snd (creationFlow D F texts sh env cwd answers fs))"
    and "fst (creationFlow D F texts sh env cwd answers fs) = None \<Longrightarrow>
         StepPrintCd (path_basename final) \<in> set (snd (creationFlow D F texts sh env cwd answers fs))
         \<and> StepInstallSkills final
              (combineSkills (D (answeredProjectType answers)) (F (answeredFramework answers))
                 (selectedAdditionalSkills answers))
            \<in> set (snd (creationFlow D F texts sh env cwd answers fs))
         \<and> (\<exists>finalConfig. StepInitialize finalConfig
                \<in> set (snd (creationFlow D F texts sh env cwd answers fs))
              \<and> projectPath finalConfig = final \<and> projectName finalConfig = path_basename final)"
proof -
  let ?cfg = "\<lparr>projectName = answeredProjectName answers,
              projectType = answeredProjectType answers,
              language = answeredLanguage answers,
              framework = answeredFramework answers,
              architecture = resolveArchitecture answers,
              projectPath = path_join cwd [answeredProjectName answers]\<rparr>"
  let ?final = "?cfg\<lparr>projectName := path_basename final, projectPath := final\<rparr>"
  have flow: "creationFlow D F texts sh env cwd answers fs =
      (case initializeProject texts sh ?final fs1 of
         Inl e \<Rightarrow> (Some e, [StepInitialize ?final])
       | Inr fs2 \<Rightarrow> finishFlow D F sh env answers final (path_basename final)
                     [StepInitialize ?final] fs2)"
    using assms by (simp add: creationFlow_def Let_def cong: sum.case_cong)
  have i: "list_all (stepUses final (path_basename final)) [StepInitialize ?final]"
    by simp
  show "list_all (stepUses final (path_basename final))
           (snd (creationFlow D F texts sh env cwd answers fs))"
  proof (cases "initializeProject texts sh ?final fs1")
    case (Inl e)
    then show ?thesis unfolding flow by simp
  next
    case (Inr fs2)
    then show ?thesis unfolding flow using finishFlow_steps [OF i, of D F sh env answers fs2] by simp
  qed
  assume "fst (creationFlow D F texts sh env cwd answers fs) = None"
  then obtain fs2 where
    f: "creationFlow D F texts sh env cwd answers fs
        = finishFlow D F sh env answers final (path_basename final) [StepInitialize ?final] fs2"
    and n: "fst (finishFlow D F sh env answers final (path_basename final) [StepInitialize ?final] fs2) = None"
    unfolding flow by (auto split: sum.splits)
  from finishFlow_complete [OF n] have
    "StepPrintCd (path_basename final) \<in> set (snd (creationFlow D F texts sh env cwd answers fs))"
    "StepInstallSkills final
              (combineSkills (D (answeredProjectType answers)) (F (answeredFramework answers))
                 (selectedAdditionalSkills answers))
            \<in> set (snd (creationFlow D F texts sh env cwd answers fs))"
    "StepInitialize ?final \<in> set (snd (creationFlow D F texts sh env cwd answers fs))"
    unfolding f by auto
  moreover have "projectPath ?final = final \<and> projectName ?final = path_basename final" by simp
  ultimately show "StepPrintCd (path_basename final) \<in> set (snd (creationFlow D F texts sh env cwd answers fs))
         \<and> StepInstallSkills final
              (combineSkills (D (answeredProjectType answers)) (F (answeredFramework answers))
                 (selectedAdditionalSkills answers))
            \<in> set (snd (creationFlow D F texts sh env cwd answers fs))
         \<and> (\<exists>finalConfig. StepInitialize finalConfig
                \<in> set (snd (creationFlow D F texts sh env cwd answers fs))
              \<and> projectPath finalConfig = final \<and> projectName finalConfig = path_basename final)"
    by blast
qed

lemma createProjectStructure_generated:
  assumes "fst (createProjectWithCLI sh cfg fs) = Some p"
  shows "(\<exists>e. createProjectStructure sh cfg fs = Inl e)
       \<or> (\<exists>fs3. createProjectStructure sh cfg fs = Inr (Some p, fs3))"
proof -
  obtain fs1 where c: "createProjectWithCLI sh cfg fs = (Some p, fs1)"
    using assms by (cases "createProjectWithCLI sh cfg fs") auto
  show ?thesis
    unfolding createProjectStructure_def c
    by (auto simp: andThen_def split: sum.splits)
qed

lemma example_nest_generated:
  "createProjectWithCLI quietShell
          \<lparr>projectName = answeredProjectName exampleNestAnswers,
           projectType = answeredProjectType exampleNestAnswers,
           language = answeredLanguage exampleNestAnswers,
           framework = answeredFramework exampleNestAnswers,
           architecture = resolveArchitecture exampleNestAnswers,
           projectPath = path_join [''home'', ''dev''] [answeredProjectName exampleNestAnswers]\<rparr>
          exampleHome = (Some [''home'', ''dev'', ''my-app''], exampleHome)"
proof -
  have m: "normalizeProjectName ''nestjs'' ''My_App'' = ''my-app''"
    by (simp add: normalizeProjectName_def toLowerCase_def toLowerChar_def
        kebabChars_def upperCaseLetters_def lowerCaseLetters_def)
  show ?thesis
    by (simp add: createProjectWithCLI_def exampleNestAnswers_def detectPackageManager_def
        quietShell_def runGenerator_def path_join_def path_dirname_def m)
qed

lemma example_nest_flow:
  "creationFlow (\<lambda>t. []) (\<lambda>f. []) exampleTexts quietShell quietSteps [''home'', ''dev'']
         exampleNestAnswers exampleHome
       = (None,
          [StepInitialize
             \<lparr>projectName = ''my-app'', projectType = Backend, language = TypeScript,
              framework = ''nestjs'', architecture = ''layered'',
              projectPath = [''home'', ''dev'', ''my-app'']\<rparr>,
           StepInstallSkills [''home'', ''dev'', ''my-app''] [],
           StepMCPConfig [''home'', ''dev'', ''my-app''] [()],
           StepPrintCd ''my-app''])"
proof -
  have s: "createProjectStructure quietShell
          \<lparr>projectName = answeredProjectName exampleNestAnswers,
           projectType = answeredProjectType exampleNestAnswers,
           language = answeredLanguage exampleNestAnswers,
           framework = answeredFramework exampleNestAnswers,
           architecture = resolveArchitecture exampleNestAnswers,
           projectPath = path_join [''home'', ''dev''] [answeredProjectName exampleNestAnswers]\<rparr>
          exampleHome = Inr (Some [''home'', ''dev'', ''my-app''], exampleHome)"
    unfolding createProjectStructure_def example_nest_generated
    by (simp add: exampleNestAnswers_def andThen_def)
  show ?thesis
    unfolding creationFlow_def Let_def s
    by (simp add: exampleNestAnswers_def initializeProject_def hasFrameworkCLI_def
        FRAMEWORK_CLIS_def finishFlow_def
        quietSteps_def combineSkills_def path_basename_def resolveArchitecture_def
        frameworksNeedingArchitecture_def)
qed

lemma runGenerator_fails:
  "\<not> fst (sh command (Some parentDir) fs) \<Longrightarrow> fst (runGenerator sh command parentDir actual fs) = None"
  by (auto simp: runGenerator_def split: prod.splits bool.splits)

lemma createProjectWithCLI_invocation:
  assumes "generatorInvocation sh cfg fs = Some (command, s)"
  shows "createProjectWithCLI sh cfg fs
       = runGenerator sh command (path_dirname (projectPath cfg))
           (path_join (path_dirname (projectPath cfg))
              [normalizeProjectName (framework cfg) (projectName cfg)]) s"
proof -
  obtain pm fs0 where d: "detectPackageManager sh fs = (pm, fs0)"
    by (cases "detectPackageManager sh fs")
  show ?thesis
  proof (cases "framework cfg = ''angular''")
    case False
    then show ?thesis using assms d
      by (auto simp: createProjectWithCLI_def generatorInvocation_def Let_def split: if_splits)
  next
    case True
    obtain has fs1 where c: "checkCommandExists sh ''ng'' fs0 = (has, fs1)"
      by (cases "checkCommandExists sh ''ng'' fs0")
    obtain ok fs2 where i: "(if \<not> has then sh ''npm install -g @angular/cli'' None fs1 else (True, fs1))
        = (ok, fs2)"
      by (cases "if \<not> has then sh ''npm install -g @angular/cli'' None fs1 else (True, fs1)")
    show ?thesis
      using True d c i assms
      by (cases ok) (simp_all add: createProjectWithCLI_def generatorInvocation_def Let_def)
  qed
qed

lemma generatorInvocation_registered:
  assumes "generatorInvocation sh cfg fs = Some (command, s)"
  shows "map_of FRAMEWORK_CLIS (framework cfg) \<noteq> None"
proof (rule ccontr)
  assume n: "\<not> map_of FRAMEWORK_CLIS (framework cfg) \<noteq> None"
  obtain pm fs0 where d: "detectPackageManager sh fs = (pm, fs0)"
    by (cases "detectPackageManager sh fs")
  have "generatorInvocation sh cfg fs = None"
    using n d by (simp add: generatorInvocation_def FRAMEWORK_CLIS_def Let_def split: if_splits)
  then show False using assms by simp
qed

lemma createProjectWithCLI_registered:
  assumes "fst (createProjectWithCLI sh cfg fs) = Some p"
  shows "framework cfg \<in> {''nestjs'', ''nextjs'', ''react'', ''svelte'', ''sveltekit'', ''angular''}"
proof (rule ccontr)
  assume n: "framework cfg \<notin> {''nestjs'', ''nextjs'', ''react'', ''svelte'', ''sveltekit'', ''angular''}"
  obtain pm fs0 where d: "detectPackageManager sh fs = (pm, fs0)"
    by (cases "detectPackageManager sh fs")
  have "createProjectWithCLI sh cfg fs = (None, fs0)"
    using n d by (simp add: createProjectWithCLI_def Let_def)
  then show False using assms by simp
qed

section \<open>Name normalization and its propagation\<close>

text \<open>
  Claim C1. For nestjs and angular \<open>normalizeProjectName\<close> lower-cases the name and
  puts a hyphen for every character outside \<open>[a-z0-9-]\<close> (\<open>My Project\<close> gives
  \<open>my-project\<close>, \<open>My_App\<close> gives \<open>my-app\<close>); for every other framework it is the
  identity. A path returned by the framework CLI is the parent directory of the
  requested path joined with the normalized name. When the generator path is taken,
  every step of the flow after the creation (initialization, dependency install, skill
  install, MCP configuration, Python set-up, the \<open>cd\<close> line) is given that path and
  its last segment, the normalized name; a flow that completes has taken the
  initialization, the skill install and the \<open>cd\<close> line among them.
\<close>

theorem name_normalization_propagates:
  "(fw = ''nestjs'' \<or> fw = ''angular'' \<longrightarrow>
      normalizeProjectName fw nm
        = map (\<lambda>c. if toLowerChar c \<in> kebabChars then toLowerChar c else CHR ''-'') nm
    \<and> set (normalizeProjectName fw nm) \<subseteq> kebabChars
    \<and> length (normalizeProjectName fw nm) = length nm)
   \<and> (fw \<noteq> ''nestjs'' \<and> fw \<noteq> ''angular'' \<longrightarrow> normalizeProjectName fw nm = nm)
   \<and> normalizeProjectName ''nestjs'' ''My Project'' = ''my-project''
   \<and> normalizeProjectName ''angular'' ''My_App'' = ''my-app''
   \<and> (fst (createProjectWithCLI sh cfg fs) = Some p \<longrightarrow>
        p = path_join (path_dirname (projectPath cfg))
              [normalizeProjectName (framework cfg) (projectName cfg)])
   \<and> (fst (createProjectWithCLI sh
              \<lparr>projectName = answeredProjectName answers,
               projectType = answeredProjectType answers,
               language = answeredLanguage answers,
               framework = answeredFramework answers,
               architecture = resolveArchitecture answers,
               projectPath = path_join cwd [answeredProjectName answers]\<rparr> fs) \<noteq> None
        \<and> normalized = normalizeProjectName (answeredFramework answers) (answeredProjectName answers)
        \<longrightarrow>
          list_all (stepUses (path_join cwd [normalized]) normalized)
            (snd (creationFlow D F texts sh env cwd answers fs))
        \<and> (fst (creationFlow D F texts sh env cwd answers fs) = None \<longrightarrow>
             StepPrintCd normalized \<in> set (snd (creationFlow D F texts sh env cwd answers fs))
           \<and> StepInstallSkills (path_join cwd [normalized])
                (combineSkills (D (answeredProjectType answers)) (F (answeredFramework answers))
                   (selectedAdditionalSkills answers))
              \<in> set (snd (creationFlow D F texts sh env cwd answers fs))
           \<and> (\<exists>finalConfig. StepInitialize finalConfig
                  \<in> set (snd (creationFlow D F texts sh env cwd answers fs))
                \<and> projectPath finalConfig = path_join cwd [normalized]
                \<and> projectName finalConfig = normalized)))"
proof -
  have 1: "fw = ''nestjs'' \<or> fw = ''angular'' \<longrightarrow>
      normalizeProjectName fw nm
        = map (\<lambda>c. if toLowerChar c \<in> kebabChars then toLowerChar c else CHR ''-'') nm
    \<and> set (normalizeProjectName fw nm) \<subseteq> kebabChars
    \<and> length (normalizeProjectName fw nm) = length nm"
    using normalize_kebab [of fw nm]
    by (auto simp: normalizeProjectName_def toLowerCase_def)
  have 2: "fw \<noteq> ''nestjs'' \<and> fw \<noteq> ''angular'' \<longrightarrow> normalizeProjectName fw nm = nm"
    by (simp add: normalizeProjectName_def)
  have 3: "normalizeProjectName ''nestjs'' ''My Project'' = ''my-project''"
    by (simp add: normalizeProjectName_def toLowerCase_def toLowerChar_def kebabChars_def
        upperCaseLetters_def lowerCaseLetters_def)
  have 4: "normalizeProjectName ''angular'' ''My_App'' = ''my-app''"
    by (simp add: normalizeProjectName_def toLowerCase_def toLowerChar_def kebabChars_def
        upperCaseLetters_def lowerCaseLetters_def)
  have 5: "fst (createProjectWithCLI sh cfg fs) = Some p \<longrightarrow>
        p = path_join (path_dirname (projectPath cfg))
              [normalizeProjectName (framework cfg) (projectName cfg)]"
    using createProjectWithCLI_path by blast
  let ?cfg = "\<lparr>projectName = answeredProjectName answers,
               projectType = answeredProjectType answers,
               language = answeredLanguage answers,
               framework = answeredFramework answers,
               architecture = resolveArchitecture answers,
               projectPath = path_join cwd [answeredProjectName answers]\<rparr>"
  let ?flow = "creationFlow D F texts sh env cwd answers fs"
  have 6: "list_all (stepUses (path_join cwd [normalized]) normalized) (snd ?flow)
        \<and> (fst ?flow = None \<longrightarrow>
             StepPrintCd normalized \<in> set (snd ?flow)
           \<and> StepInstallSkills (path_join cwd [normalized])
                (combineSkills (D (answeredProjectType answers)) (F (answeredFramework answers))
                   (selectedAdditionalSkills answers))
              \<in> set (snd ?flow)
           \<and> (\<exists>finalConfig. StepInitialize finalConfig \<in> set (snd ?flow)
                \<and> projectPath finalConfig = path_join cwd [normalized]
                \<and> projectName finalConfig = normalized))"
    if g: "fst (createProjectWithCLI sh ?cfg fs) \<noteq> None"
      and n: "normalized = normalizeProjectName (answeredFramework answers) (answeredProjectName answers)"
  proof -
    from g obtain p where p: "fst (createProjectWithCLI sh ?cfg fs) = Some p" by auto
    have pe: "p = path_join cwd [normalized]"
      using createProjectWithCLI_path [OF p] n by (simp add: path_join_def path_dirname_def)
    have bn: "path_basename (path_join cwd [normalized]) = normalized"
      by (simp add: path_join_def path_basename_def)
    from createProjectStructure_generated [OF p] show ?thesis
    proof
      assume "\<exists>e. createProjectStructure sh ?cfg fs = Inl e"
      then obtain e where "createProjectStructure sh ?cfg fs = Inl e" by blast
      then have "?flow = (Some e, [])" by (simp add: creationFlow_def Let_def)
      then show ?thesis by simp
    next
      assume "\<exists>fs3. createProjectStructure sh ?cfg fs = Inr (Some p, fs3)"
      then obtain fs3 where c: "createProjectStructure sh ?cfg fs = Inr (Some p, fs3)" by blast
      have f: "p = (case Some p of Some p \<Rightarrow> p | None \<Rightarrow> path_join cwd [answeredProjectName answers])"
        by simp
      show ?thesis
        using creationFlow_steps(1) [OF c f, of D F texts env]
          creationFlow_steps(2) [OF c f, of D F texts env]
        unfolding pe bn by blast
    qed
  qed
  from 1 2 3 4 5 6 show ?thesis by blast
qed


theorem name_normalization_propagates_witness:
  "fst (createProjectWithCLI quietShell
          \<lparr>projectName = answeredProjectName exampleNestAnswers,
           projectType = answeredProjectType exampleNestAnswers,
           language = answeredLanguage exampleNestAnswers,
           framework = answeredFramework exampleNestAnswers,
           architecture = resolveArchitecture exampleNestAnswers,
           projectPath = path_join [''home'', ''dev''] [answeredProjectName exampleNestAnswers]\<rparr>
          exampleHome) \<noteq> None
   \<and> ''my-app'' = normalizeProjectName (answeredFramework exampleNestAnswers)
                     (answeredProjectName exampleNestAnswers)
   \<and> list_all (stepUses (path_join [''home'', ''dev''] [''my-app'']) ''my-app'')
         (snd (creationFlow (\<lambda>t. []) (\<lambda>f. []) exampleTexts quietShell quietSteps [''home'', ''dev'']
                 exampleNestAnswers exampleHome))
   \<and> creationFlow (\<lambda>t. []) (\<lambda>f. []) exampleTexts quietShell quietSteps [''home'', ''dev'']
         exampleNestAnswers exampleHome
       = (None,
          [StepInitialize
             \<lparr>projectName = ''my-app'', projectType = Backend, language = TypeScript,
              framework = ''nestjs'', architecture = ''layered'',
              projectPath = [''home'', ''dev'', ''my-app'']\<rparr>,
           StepInstallSkills [''home'', ''dev'', ''my-app''] [],
           StepMCPConfig [''home'', ''dev'', ''my-app''] [()],
           StepPrintCd ''my-app''])"
proof -
  have n: "''my-app'' = normalizeProjectName (answeredFramework exampleNestAnswers)
                     (answeredProjectName exampleNestAnswers)"
    by (simp add: exampleNestAnswers_def normalizeProjectName_def toLowerCase_def toLowerChar_def
        kebabChars_def upperCaseLetters_def lowerCaseLetters_def)
  have g: "fst (createProjectWithCLI quietShell
          \<lparr>projectName = answeredProjectName exampleNestAnswers,
           projectType = answeredProjectType exampleNestAnswers,
           language = answeredLanguage exampleNestAnswers,
           framework = answeredFramework exampleNestAnswers,
           architecture = resolveArchitecture exampleNestAnswers,
           projectPath = path_join [''home'', ''dev''] [answeredProjectName exampleNestAnswers]\<rparr>
          exampleHome) \<noteq> None"
    by (simp add: example_nest_generated)
  have l: "list_all (stepUses (path_join [''home'', ''dev''] [''my-app'']) ''my-app'')
         (snd (creationFlow (\<lambda>t. []) (\<lambda>f. []) exampleTexts quietShell quietSteps [''home'', ''dev'']
                 exampleNestAnswers exampleHome))"
    using name_normalization_propagates
      [where sh = quietShell and answers = exampleNestAnswers and cwd = "[''home'', ''dev'']"
         and fs = exampleHome and normalized = "''my-app''" and D = "\<lambda>t. []" and F = "\<lambda>f. []"
         and texts = exampleTexts and env = quietSteps]
      g n
    by blast
  from g n l example_nest_flow show ?thesis by blast
qed

section \<open>Exit codes\<close>

text \<open>
  Claim C9 at a cancelled prompt. The handler compares the message of the error with
  \<open>User force closed the prompt\<close>; the error of a cancelled prompt carries the
  message \<open>User force closed the prompt with SIGINT\<close>, so the comparison fails, the
  error is reported and the action exits with 1. Only an error with exactly the
  compared message would exit with 0.
\<close>

theorem cancellation_exit_code:
  "action D F texts sh env cwd (Inl promptCancelled) fs = (1, [])
   \<and> action D F texts sh env cwd (Inl (Error ''User force closed the prompt'')) fs = (0, [])"
  by (simp add: action_def exitCodeFor_def promptCancelled_def)

section \<open>The fallback after a failed generator\<close>

text \<open>
  Claim C3, as the specification states it, at a React project with the feature-based
  architecture whose generator writes \<open>shop-ui/package.json\<close> and then fails: the
  builder runs at the requested path, the file of the failed attempt is still there,
  and the skeleton is the feature-based one, not the default of the kind.
\<close>

theorem residual_files_counterexample:
  "createProjectStructure partialGenerator exampleFeatureConfig exampleHome =
     Inr (Some [''home'', ''dev'', ''shop-ui''],
          [([''home''], Dir), ([''home'', ''dev''], Dir),
           ([''home'', ''dev'', ''shop-ui''], Dir),
           ([''home'', ''dev'', ''shop-ui'', ''package.json''], File ''{''),
           ([''home'', ''dev'', ''shop-ui'', ''src''], Dir),
           ([''home'', ''dev'', ''shop-ui'', ''src'', ''features''], Dir),
           ([''home'', ''dev'', ''shop-ui'', ''src'', ''features'', ''example-feature''], Dir),
           ([''home'', ''dev'', ''shop-ui'', ''src'', ''features'', ''example-feature'', ''components''], Dir),
           ([''home'', ''dev'', ''shop-ui'', ''src'', ''features'', ''example-feature'', ''hooks''], Dir),
           ([''home'', ''dev'', ''shop-ui'', ''src'', ''features'', ''example-feature'', ''utils''], Dir),
           ([''home'', ''dev'', ''shop-ui'', ''src'', ''shared''], Dir),
           ([''home'', ''dev'', ''shop-ui'', ''src'', ''shared'', ''components''], Dir),
           ([''home'', ''dev'', ''shop-ui'', ''src'', ''shared'', ''hooks''], Dir),
           ([''home'', ''dev'', ''shop-ui'', ''src'', ''shared'', ''utils''], Dir),
           ([''home'', ''dev'', ''shop-ui'', ''src'', ''styles''], Dir),
           ([''home'', ''dev'', ''shop-ui'', ''src'', ''assets''], Dir),
           ([''home'', ''dev'', ''shop-ui'', ''public''], Dir)])"
  by (simp add: createProjectStructure_def createProjectWithCLI_def exampleFeatureConfig_def
      detectPackageManager_def partialGenerator_def runGenerator_def exampleHome_def
      buildFromScratch_def createFrontendStructure_def createFeatureBasedStructure_def
      createDirectory_def lookup_def path_join_def path_dirname_def normalizeProjectName_def)

text \<open>
  Claim C3, amended. A generator is invoked only for a framework of the registry. When
  that invocation, the command of the framework run in the parent directory of the
  requested path, exits with an error, the adapter returns \<open>null\<close> and
  \<open>createProjectStructure\<close> is the from-scratch branch on the file system the failed
  attempt has left. When that branch succeeds it returns the requested path, the
  missing directories of the skeleton for the configured architecture have been
  created, and every entry the failed attempt has left is kept as it was.
\<close>

theorem failed_generator_falls_back:
  assumes "generatorInvocation sh cfg fs = Some (command, s)"
    and "sh command (Some (path_dirname (projectPath cfg))) s = (False, left)"
  shows "map_of FRAMEWORK_CLIS (framework cfg) \<noteq> None
     \<and> createProjectWithCLI sh cfg fs = (None, left)
     \<and> createProjectStructure sh cfg fs = buildFromScratch cfg left
     \<and> (\<forall>r fs'. createProjectStructure sh cfg fs = Inr (r, fs') \<longrightarrow>
           r = Some (projectPath cfg)
         \<and> (\<forall>q. lookup fs' q =
               (if lookup left q = None
                   \<and> q \<in> set (ancestors (projectPath cfg))
                         \<union> (\<lambda>x. projectPath cfg @ x)
                             ` set (withParents (builtDirectories (projectType cfg) (language cfg)
                                      (framework cfg) (architecture cfg)))
                then Some Dir
                else lookup left q)))"
proof -
  have 0: "map_of FRAMEWORK_CLIS (framework cfg) \<noteq> None"
    by (rule generatorInvocation_registered [OF assms(1)])
  have 1: "createProjectWithCLI sh cfg fs = (None, left)"
    unfolding createProjectWithCLI_invocation [OF assms(1)]
    by (simp add: runGenerator_def assms(2))
  have 2: "createProjectStructure sh cfg fs = buildFromScratch cfg left"
    unfolding createProjectStructure_def 1 by simp
  have 3: "r = Some (projectPath cfg)
         \<and> (\<forall>q. lookup fs' q =
               (if lookup left q = None
                   \<and> q \<in> set (ancestors (projectPath cfg))
                         \<union> (\<lambda>x. projectPath cfg @ x)
                             ` set (withParents (builtDirectories (projectType cfg) (language cfg)
                                      (framework cfg) (architecture cfg)))
                then Some Dir
                else lookup left q))"
    if "createProjectStructure sh cfg fs = Inr (r, fs')" for r fs'
  proof -
    have b: "buildFromScratch cfg left = Inr (r, fs')"
      using that 2 by simp
    show ?thesis
      using buildFromScratch_lookup_general [OF b] by blast
  qed
  from 0 1 2 3 show ?thesis by blast
qed

theorem failed_generator_falls_back_witness:
  "generatorInvocation failingVite exampleFeatureConfig exampleHome
     = Some (''npx --yes create-vite@latest shop-ui --template react-ts'', exampleHome)
   \<and> failingVite ''npx --yes create-vite@latest shop-ui --template react-ts''
        (Some (path_dirname (projectPath exampleFeatureConfig))) exampleHome
     = (False,
        exampleHome @ [([''home'', ''dev'', ''shop-ui''], Dir),
                       ([''home'', ''dev'', ''shop-ui'', ''package.json''], File ''{'')])
   \<and> fst (failingVite ''pnpm --version'' None exampleHome)
   \<and> createProjectWithCLI failingVite exampleFeatureConfig exampleHome
     = (None,
        exampleHome @ [([''home'', ''dev'', ''shop-ui''], Dir),
                       ([''home'', ''dev'', ''shop-ui'', ''package.json''], File ''{'')])
   \<and> (\<exists>fs'. createProjectStructure failingVite exampleFeatureConfig exampleHome
              = Inr (Some [''home'', ''dev'', ''shop-ui''], fs')
          \<and> lookup fs' [''home'', ''dev'', ''shop-ui'', ''package.json''] = Some (File ''{'')
          \<and> lookup fs' [''home'', ''dev'', ''shop-ui'', ''src'', ''shared'', ''hooks''] = Some Dir)"
proof -
  let ?left = "exampleHome @ [([''home'', ''dev'', ''shop-ui''], Dir),
                       ([''home'', ''dev'', ''shop-ui'', ''package.json''], File ''{'')]"
  have i: "generatorInvocation failingVite exampleFeatureConfig exampleHome
     = Some (''npx --yes create-vite@latest shop-ui --template react-ts'', exampleHome)"
    by (simp add: generatorInvocation_def detectPackageManager_def failingVite_def
        exampleFeatureConfig_def normalizeProjectName_def)
  have f: "failingVite ''npx --yes create-vite@latest shop-ui --template react-ts''
        (Some (path_dirname (projectPath exampleFeatureConfig))) exampleHome = (False, ?left)"
    by (simp add: failingVite_def exampleFeatureConfig_def path_dirname_def)
  have p: "fst (failingVite ''pnpm --version'' None exampleHome)"
    by (simp add: failingVite_def)
  note t = failed_generator_falls_back [OF i f]
  have c: "createProjectWithCLI failingVite exampleFeatureConfig exampleHome = (None, ?left)"
    by (rule t [THEN conjunct2, THEN conjunct1])
  have e: "createProjectStructure failingVite exampleFeatureConfig exampleHome
      = buildFromScratch exampleFeatureConfig ?left"
    by (rule t [THEN conjunct2, THEN conjunct2, THEN conjunct1])
  have "\<exists>r fs'. buildFromScratch exampleFeatureConfig ?left = Inr (r, fs')"
    by (simp add: exampleFeatureConfig_def exampleHome_def
        buildFromScratch_def createFrontendStructure_def createFeatureBasedStructure_def
        createDirectory_def lookup_def path_join_def)
  then obtain r fs' where b: "createProjectStructure failingVite exampleFeatureConfig exampleHome
      = Inr (r, fs')"
    unfolding e [symmetric] by blast
  note l = t [THEN conjunct2, THEN conjunct2, THEN conjunct2, rule_format, OF b]
  have r: "r = Some [''home'', ''dev'', ''shop-ui'']"
    using l [THEN conjunct1] by (simp add: exampleFeatureConfig_def)
  have l1: "lookup fs' [''home'', ''dev'', ''shop-ui'', ''package.json''] = Some (File ''{'')"
    unfolding l [THEN conjunct2, rule_format]
    by (simp add: exampleHome_def lookup_def)
  have l2: "lookup fs' [''home'', ''dev'', ''shop-ui'', ''src'', ''shared'', ''hooks''] = Some Dir"
    unfolding l [THEN conjunct2, rule_format]
    by (simp add: exampleHome_def lookup_def exampleFeatureConfig_def builtDirectories_def
        specTable_def set_withParents image_iff)
  have x: "createProjectStructure failingVite exampleFeatureConfig exampleHome
              = Inr (Some [''home'', ''dev'', ''shop-ui''], fs')"
    using b r by simp
  show ?thesis
    by (intro conjI exI [of _ fs']) (fact i f p c x l1 l2)+
qed

section \<open>Facts about the Initialization Writer\<close>

lemma createDirectory_idem:
  assumes "createDirectory p fs = Inr fs'"
  shows "createDirectory p fs' = Inr fs'"
proof -
  have l: "lookup fs' q = Some Dir" if "q \<in> set (ancestors p)" for q
  proof -
    have "\<not> isFile (lookup fs q)" using createDirectory_Inr(2) [OF assms] that by blast
    then show ?thesis
      unfolding createDirectory_lookup [OF assms] using that
      by (cases "lookup fs q" rule: isFile.cases) auto
  qed
  have "filter (\<lambda>q. isFile (lookup fs' q)) (ancestors p) = []"
    using l by (auto simp: filter_empty_conv)
  moreover have "filter (\<lambda>q. lookup fs' q = None) (ancestors p) = []"
    using l by (auto simp: filter_empty_conv)
  ultimately show ?thesis by (simp add: createDirectory_def)
qed

lemma mkdir_then_writeFile:
  "andThen (createDirectory d fs) (\<lambda>fs'. writeFile (path_join d [n]) c fs') = writeFile (path_join d [n]) c fs"
  by (cases "createDirectory d fs")
     (simp_all add: andThen_def writeFile_def path_join_def path_dirname_def createDirectory_idem)

lemma writeFile_lookup:
  assumes "f \<noteq> []" and "lookup fs f \<noteq> Some Dir"
    and "\<forall>q\<in>set (ancestors (butlast f)). \<not> isFile (lookup fs q)"
  shows "\<exists>fs'. writeFile f c fs = Inr fs'
     \<and> (\<forall>q. lookup fs' q =
           (if q = f then Some (File c)
            else if lookup fs q = None \<and> q \<in> set (ancestors (butlast f)) then Some Dir
            else lookup fs q))"
proof -
  from createDirectory_succeeds [OF assms(3)] obtain fs1 where
    1: "createDirectory (butlast f) fs = Inr fs1" by blast
  have nf: "f \<notin> set (ancestors (butlast f))"
    using ancestors_not_below_strict [of f "butlast f" "[last f]"] assms(1) by auto
  have lf: "lookup fs1 f = lookup fs f"
    unfolding createDirectory_lookup [OF 1] using nf by simp
  have par: "lookup fs1 (butlast f) = Some Dir"
  proof (cases "butlast f = []")
    case True
    then show ?thesis by (simp add: lookup_def)
  next
    case False
    then have m: "butlast f \<in> set (ancestors (butlast f))" by (rule self_in_ancestors)
    then have "\<not> isFile (lookup fs (butlast f))" using assms(3) by blast
    then show ?thesis
      unfolding createDirectory_lookup [OF 1] using m
      by (cases "lookup fs (butlast f)" rule: isFile.cases) auto
  qed
  have "\<exists>fs'. fs_writeFile f c fs1 = Inr fs'"
    using lf assms(2) par
    by (cases "lookup fs f" rule: isFile.cases)
       (auto simp: fs_writeFile_def path_dirname_def split: option.splits node.splits)
  then obtain fs' where 2: "fs_writeFile f c fs1 = Inr fs'" by blast
  have "writeFile f c fs = Inr fs'"
    using 1 2 by (simp add: writeFile_def path_dirname_def)
  moreover have "\<forall>q. lookup fs' q =
           (if q = f then Some (File c)
            else if lookup fs q = None \<and> q \<in> set (ancestors (butlast f)) then Some Dir
            else lookup fs q)"
    unfolding fs_writeFile_lookup [OF 2] createDirectory_lookup [OF 1] by simp
  ultimately show ?thesis by blast
qed


lemma writeFiles_lookup:
  assumes "writable ws fs"
  shows "\<exists>fs'. writeFiles ws fs = Inr fs'
     \<and> (\<forall>q. lookup fs' q =
           (case map_of (rev ws) q of
              Some c \<Rightarrow> Some (File c)
            | None \<Rightarrow>
                if lookup fs q = None \<and> q \<in> (\<Union>(f, c)\<in>set ws. set (ancestors (butlast f)))
                then Some Dir else lookup fs q))"
  using assms
proof (induction ws arbitrary: fs)
  case Nil
  show ?case by (simp add: writeFiles_def)
next
  case (Cons w ws)
  obtain f c where w: "w = (f, c)" by (cases w)
  have f1: "f \<noteq> []" and f2: "lookup fs f \<noteq> Some Dir"
    and f3: "\<forall>q\<in>set (ancestors (butlast f)). \<not> isFile (lookup fs q)"
    and f4: "\<forall>q\<in>set (ancestors (butlast f)). q \<noteq> f \<and> q \<notin> fst ` set ws"
    using Cons.prems w by (auto simp: writable_def list_all_iff)
  have rest: "f' \<noteq> [] \<and> lookup fs f' \<noteq> Some Dir
        \<and> (\<forall>q\<in>set (ancestors (butlast f')). \<not> isFile (lookup fs q) \<and> q \<noteq> f \<and> q \<notin> fst ` set ws)"
    if "(f', c') \<in> set ws" for f' c'
  proof -
    have "(f', c') \<in> set (w # ws)" using that by simp
    then have "f' \<noteq> [] \<and> lookup fs f' \<noteq> Some Dir
        \<and> (\<forall>q\<in>set (ancestors (butlast f')). \<not> isFile (lookup fs q) \<and> q \<notin> fst ` set (w # ws))"
      using Cons.prems unfolding writable_def list_all_iff by fast
    then show ?thesis using w by auto
  qed
  from writeFile_lookup [OF f1 f2 f3, of c] obtain fs1 where
    1: "writeFile f c fs = Inr fs1"
    and l1: "\<And>q. lookup fs1 q =
           (if q = f then Some (File c)
            else if lookup fs q = None \<and> q \<in> set (ancestors (butlast f)) then Some Dir
            else lookup fs q)"
    by blast
  have "writable ws fs1"
    unfolding writable_def list_all_iff
  proof (intro ballI, clarify, intro conjI ballI)
    fix f' c' assume m: "(f', c') \<in> set ws"
    show "f' \<noteq> []" using rest [OF m] by blast
    have "f' \<notin> set (ancestors (butlast f))" using f4 m by force
    then show "lookup fs1 f' \<noteq> Some Dir" using rest [OF m] by (simp add: l1)
    fix q assume q: "q \<in> set (ancestors (butlast f'))"
    have "q \<noteq> f" using rest [OF m] q by blast
    moreover have "\<not> isFile (lookup fs q)" using rest [OF m] q by blast
    ultimately show "\<not> isFile (lookup fs1 q)" by (simp add: l1)
    show "q \<notin> fst ` set ws" using rest [OF m] q by blast
  qed
  from Cons.IH [OF this] obtain fs' where
    2: "writeFiles ws fs1 = Inr fs'"
    and l2: "\<And>q. lookup fs' q =
           (case map_of (rev ws) q of
              Some c \<Rightarrow> Some (File c)
            | None \<Rightarrow>
                if lookup fs1 q = None \<and> q \<in> (\<Union>(f, c)\<in>set ws. set (ancestors (butlast f)))
                then Some Dir else lookup fs1 q)"
    by blast
  have "writeFiles (w # ws) fs = Inr fs'"
    using 1 2 w by (simp add: writeFiles_def andThen_def)
  moreover have "\<forall>q. lookup fs' q =
           (case map_of (rev (w # ws)) q of
              Some c \<Rightarrow> Some (File c)
            | None \<Rightarrow>
                if lookup fs q = None \<and> q \<in> (\<Union>(f, c)\<in>set (w # ws). set (ancestors (butlast f)))
                then Some Dir else lookup fs q)"
    unfolding l2 l1 w by (auto simp: map_add_def split: option.splits)
  ultimately show ?case by blast
qed

lemma andThen_Inr: "andThen r Inr = r"
  by (cases r) (simp_all add: andThen_def)

lemma andThen_simps [simp]:
  "andThen (Inr x) f = f x"
  "andThen (Inl e) f = Inl e"
  by (simp_all add: andThen_def)

lemma writeFiles_Cons:
  "writeFiles ((f, c) # ws) = (\<lambda>fs. andThen (writeFile f c fs) (writeFiles ws))"
  by (simp add: writeFiles_def fun_eq_iff andThen_def split: sum.splits)

lemma writeFiles_Nil: "writeFiles [] = Inr"
  by (simp add: writeFiles_def fun_eq_iff)

lemma initializeNodeProject_as_writes:
  "initializeNodeProject texts root lang fw fs =
     writeFiles
       ([(root @ [''package.json''], packageJson texts (path_basename root) lang fw)]
        @ (if lang = TypeScript then [(root @ [''tsconfig.json''], tsconfigContent texts)] else [])
        @ [(root @ [''src'', ''index.'' @ (if lang = TypeScript then ''ts'' else ''js'')],
            if fw = ''fastify'' then fastifyMainContent texts
            else ''console.log('' @ dq @ ''Hello from '' @ fw @ ''!'' @ dq @ '');'' @ nl)]) fs"
proof -
  have m: "andThen (createDirectory (path_join root [''src'']) s)
             (\<lambda>fs'. writeFile (path_join (path_join root [''src'']) [n]) c fs')
           = writeFile (root @ [''src'', n]) c s" for s n c
    using mkdir_then_writeFile [of "path_join root [''src'']" s n c] by (simp add: path_join_def)
  show ?thesis
  proof (cases "lang = TypeScript")
    case True
    show ?thesis
      unfolding initializeNodeProject_def Let_def m
      using True
      by (simp add: writeFiles_Cons writeFiles_Nil andThen_Inr path_join_def cong: if_cong)
  next
    case False
    show ?thesis
      unfolding initializeNodeProject_def Let_def m
      using False
      by (simp add: writeFiles_Cons writeFiles_Nil andThen_Inr path_join_def cong: if_cong)
  qed
qed

lemma initializeProject_as_writes:
  assumes "\<not> hasFrameworkCLI (framework cfg)"
  shows "initializeProject texts sh cfg fs =
     writeFiles (map (\<lambda>(r, c). (projectPath cfg @ r, c)) (starterFiles texts cfg))
       (if language cfg = Go
        then snd (executeCommand sh (''go mod init '' @ path_basename (projectPath cfg))
                    (projectPath cfg) fs)
        else fs)"
proof (cases "language cfg")
  case TypeScript
  show ?thesis
    using assms TypeScript
    by (simp add: initializeProject_def initializeNodeProject_as_writes starterFiles_def)
next
  case JavaScript
  show ?thesis
    using assms JavaScript
    by (simp add: initializeProject_def initializeNodeProject_as_writes starterFiles_def)
next
  case Python
  show ?thesis
    using assms Python
    by (simp add: initializeProject_def initializePythonProject_def initializeDjangoProject_def
        starterFiles_def Let_def path_join_def)
next
  case Go
  show ?thesis
    using assms Go
    by (simp add: initializeProject_def initializeGoProject_def starterFiles_def
        writeFiles_Cons writeFiles_Nil andThen_Inr Let_def path_join_def)
qed

section \<open>When the Initialization Writer writes\<close>

text \<open>
  Claim C7, as the specification states it, at a django project. The adapter has no
  generator for django and returns \<open>null\<close>, so the writer is not skipped; but it
  writes neither a manifest (\<open>pyproject.toml\<close>) nor a greeting entry file: it writes
  \<open>.python-version\<close>, \<open>.gitignore\<close>, \<open>requirements.txt\<close> and \<open>README.md\<close>.
\<close>

theorem initialization_counterexample:
  "fst (createProjectWithCLI quietShell exampleDjangoConfig exampleHome) = None
   \<and> initializeProject exampleTexts quietShell exampleDjangoConfig exampleHome =
       Inr [([''home''], Dir), ([''home'', ''dev''], Dir), ([''home'', ''dev'', ''blog''], Dir),
            ([''home'', ''dev'', ''blog'', ''.python-version''], File (''3.11'' @ nl)),
            ([''home'', ''dev'', ''blog'', ''.gitignore''], File ''# Python''),
            ([''home'', ''dev'', ''blog'', ''requirements.txt''],
             File (''# Dependencies will be added via: uv pip freeze > requirements.txt'' @ nl)),
            ([''home'', ''dev'', ''blog'', ''README.md''], File ''# blog'')]"
proof -
  have 1: "fst (createProjectWithCLI quietShell exampleDjangoConfig exampleHome) = None"
    by (simp add: createProjectWithCLI_def exampleDjangoConfig_def detectPackageManager_def
        quietShell_def Let_def)
  have 2: "initializeProject exampleTexts quietShell exampleDjangoConfig exampleHome =
       Inr [([''home''], Dir), ([''home'', ''dev''], Dir), ([''home'', ''dev'', ''blog''], Dir),
            ([''home'', ''dev'', ''blog'', ''.python-version''], File (''3.11'' @ nl)),
            ([''home'', ''dev'', ''blog'', ''.gitignore''], File ''# Python''),
            ([''home'', ''dev'', ''blog'', ''requirements.txt''],
             File (''# Dependencies will be added via: uv pip freeze > requirements.txt'' @ nl)),
            ([''home'', ''dev'', ''blog'', ''README.md''], File ''# blog'')]"
    by (simp add: initializeProject_def hasFrameworkCLI_def FRAMEWORK_CLIS_def
        objectPrototypeKeys_def exampleDjangoConfig_def
        initializePythonProject_def initializeDjangoProject_def writeFiles_def writeFile_def
        createDirectory_def fs_writeFile_def exampleHome_def exampleTexts_def lookup_def
        path_join_def path_dirname_def path_basename_def)
  from 1 2 show ?thesis by (rule conjI)
qed

text \<open>
  Claim C7, amended. When the adapter has handled the framework, that is, has returned
  the path of the generated project, the writer does nothing on the configuration of
  that project, whatever the file system is. A framework for which the test of the
  registry is falsy is never handled by the adapter, and for it the writer writes the
  starter files of \<open>starterFiles\<close>, a list that is never empty, after
  \<open>go mod init\<close> for go: when those files can be written the writer succeeds, each
  of them has the listed content, the directories on the way to them exist and every
  other entry is as before. Nothing is stated for a framework of the registry whose
  generator has failed, nor for a framework string that names an inherited property.
\<close>

theorem initialization_by_registry:
  "(fst (createProjectWithCLI sh cfg fs) = Some actualPath \<longrightarrow>
        initializeProject texts sh
          (cfg\<lparr>projectName := path_basename actualPath, projectPath := actualPath\<rparr>) fs1 = Inr fs1)
   \<and> (\<not> hasFrameworkCLI (framework cfg) \<longrightarrow> fst (createProjectWithCLI sh cfg fs) = None)
   \<and> starterFiles texts cfg \<noteq> []
   \<and> (\<not> hasFrameworkCLI (framework cfg)
        \<and> fs0 = (if language cfg = Go
                 then snd (executeCommand sh (''go mod init '' @ path_basename (projectPath cfg))
                             (projectPath cfg) fs)
                 else fs)
        \<and> ws = map (\<lambda>(r, c). (projectPath cfg @ r, c)) (starterFiles texts cfg)
        \<and> writable ws fs0
        \<longrightarrow>
        (\<exists>fs'. initializeProject texts sh cfg fs = Inr fs'
          \<and> (\<forall>q. lookup fs' q =
                (case map_of (rev ws) q of
                   Some c \<Rightarrow> Some (File c)
                 | None \<Rightarrow>
                     if lookup fs0 q = None \<and> q \<in> (\<Union>(f, c)\<in>set ws. set (ancestors (butlast f)))
                     then Some Dir else lookup fs0 q))))"
proof -
  have r: "hasFrameworkCLI (framework cfg)" if "fst (createProjectWithCLI sh cfg fs) = Some p" for p
    using createProjectWithCLI_registered [OF that]
    by (auto simp: hasFrameworkCLI_def FRAMEWORK_CLIS_def)
  have 1: "fst (createProjectWithCLI sh cfg fs) = Some actualPath \<longrightarrow>
        initializeProject texts sh
          (cfg\<lparr>projectName := path_basename actualPath, projectPath := actualPath\<rparr>) fs1 = Inr fs1"
    using r [of actualPath] by (simp add: initializeProject_def)
  have 2: "\<not> hasFrameworkCLI (framework cfg) \<longrightarrow> fst (createProjectWithCLI sh cfg fs) = None"
    using r by (cases "fst (createProjectWithCLI sh cfg fs)") auto
  have 3: "starterFiles texts cfg \<noteq> []"
    by (cases "language cfg") (simp_all add: starterFiles_def)
  have 4: "\<exists>fs'. initializeProject texts sh cfg fs = Inr fs'
          \<and> (\<forall>q. lookup fs' q =
                (case map_of (rev ws) q of
                   Some c \<Rightarrow> Some (File c)
                 | None \<Rightarrow>
                     if lookup fs0 q = None \<and> q \<in> (\<Union>(f, c)\<in>set ws. set (ancestors (butlast f)))
                     then Some Dir else lookup fs0 q))"
    if "\<not> hasFrameworkCLI (framework cfg)"
      and "fs0 = (if language cfg = Go
                 then snd (executeCommand sh (''go mod init '' @ path_basename (projectPath cfg))
                             (projectPath cfg) fs)
                 else fs)"
      and "ws = map (\<lambda>(r, c). (projectPath cfg @ r, c)) (starterFiles texts cfg)"
      and "writable ws fs0"
    using writeFiles_lookup [OF that(4)]
    unfolding initializeProject_as_writes [OF that(1), of texts sh fs] that(2) [symmetric]
      that(3) [symmetric] .
  from 1 2 3 4 show ?thesis by blast
qed


theorem initialization_by_registry_witness:
  "fst (createProjectWithCLI quietShell
          \<lparr>projectName = answeredProjectName exampleNestAnswers,
           projectType = answeredProjectType exampleNestAnswers,
           language = answeredLanguage exampleNestAnswers,
           framework = answeredFramework exampleNestAnswers,
           architecture = resolveArchitecture exampleNestAnswers,
           projectPath = path_join [''home'', ''dev''] [answeredProjectName exampleNestAnswers]\<rparr>
          exampleHome) = Some [''home'', ''dev'', ''my-app'']
   \<and> initializeProject exampleTexts quietShell
         (\<lparr>projectName = answeredProjectName exampleNestAnswers,
           projectType = answeredProjectType exampleNestAnswers,
           language = answeredLanguage exampleNestAnswers,
           framework = answeredFramework exampleNestAnswers,
           architecture = resolveArchitecture exampleNestAnswers,
           projectPath = path_join [''home'', ''dev''] [answeredProjectName exampleNestAnswers]\<rparr>
          \<lparr>projectName := path_basename [''home'', ''dev'', ''my-app''],
           projectPath := [''home'', ''dev'', ''my-app'']\<rparr>) exampleHome = Inr exampleHome
   \<and> \<not> hasFrameworkCLI (framework exampleFlaskConfig)
   \<and> fst (createProjectWithCLI quietShell exampleFlaskConfig exampleHome) = None
   \<and> writable (map (\<lambda>(r, c). (projectPath exampleFlaskConfig @ r, c))
                 (starterFiles exampleTexts exampleFlaskConfig)) exampleHome
   \<and> (\<exists>fs'. initializeProject exampleTexts quietShell exampleFlaskConfig exampleHome = Inr fs'
          \<and> lookup fs' [''home'', ''dev'', ''blog'', ''main.py'']
              = Some (File (pythonMainContent ''flask''))
          \<and> lookup fs' [''home'', ''dev'', ''blog'', ''pyproject.toml'']
              = Some (File ''[project] blog flask'')
          \<and> lookup fs' [''home'', ''dev'', ''blog'', ''.python-version''] = Some (File (''3.11'' @ nl))
          \<and> lookup fs' [''home'', ''dev'', ''blog''] = Some Dir
          \<and> lookup fs' [''home'', ''dev'', ''blog'', ''package.json''] = None)"
proof -
  let ?nest = "\<lparr>projectName = answeredProjectName exampleNestAnswers,
           projectType = answeredProjectType exampleNestAnswers,
           language = answeredLanguage exampleNestAnswers,
           framework = answeredFramework exampleNestAnswers,
           architecture = resolveArchitecture exampleNestAnswers,
           projectPath = path_join [''home'', ''dev''] [answeredProjectName exampleNestAnswers]\<rparr>"
  let ?ws = "map (\<lambda>(r, c). (projectPath exampleFlaskConfig @ r, c))
                 (starterFiles exampleTexts exampleFlaskConfig)"
  have g: "fst (createProjectWithCLI quietShell ?nest exampleHome) = Some [''home'', ''dev'', ''my-app'']"
    by (simp add: example_nest_generated)
  have n: "initializeProject exampleTexts quietShell
         (?nest\<lparr>projectName := path_basename [''home'', ''dev'', ''my-app''],
                 projectPath := [''home'', ''dev'', ''my-app'']\<rparr>) exampleHome = Inr exampleHome"
    by (rule initialization_by_registry
         [where cfg = ?nest and sh = quietShell and fs = exampleHome
            and actualPath = "[''home'', ''dev'', ''my-app'']" and texts = exampleTexts
            and ?fs1.0 = exampleHome,
          THEN conjunct1, THEN mp]) (rule g)
  have ws: "?ws = [([''home'', ''dev'', ''blog'', ''pyproject.toml''], ''[project] blog flask''),
                   ([''home'', ''dev'', ''blog'', ''main.py''], pythonMainContent ''flask''),
                   ([''home'', ''dev'', ''blog'', ''.python-version''], ''3.11'' @ nl)]"
    by (simp add: starterFiles_def exampleFlaskConfig_def exampleTexts_def path_basename_def)
  have r: "\<not> hasFrameworkCLI (framework exampleFlaskConfig)"
    by (simp add: hasFrameworkCLI_def FRAMEWORK_CLIS_def objectPrototypeKeys_def
        exampleFlaskConfig_def)
  have u: "fst (createProjectWithCLI quietShell exampleFlaskConfig exampleHome) = None"
    by (rule initialization_by_registry
         [where cfg = exampleFlaskConfig and sh = quietShell and fs = exampleHome,
          THEN conjunct2, THEN conjunct1, THEN mp]) (rule r)
  have w: "writable ?ws exampleHome"
    unfolding ws by (simp add: writable_def exampleHome_def lookup_def)
  have f: "exampleHome = (if language exampleFlaskConfig = Go
                 then snd (executeCommand quietShell
                             (''go mod init '' @ path_basename (projectPath exampleFlaskConfig))
                             (projectPath exampleFlaskConfig) exampleHome)
                 else exampleHome)"
    by (simp add: exampleFlaskConfig_def)
  note t = initialization_by_registry
    [where cfg = exampleFlaskConfig and texts = exampleTexts and sh = quietShell
       and fs = exampleHome and ?fs0.0 = exampleHome and ws = ?ws,
     THEN conjunct2, THEN conjunct2, THEN conjunct2]
  have "\<exists>fs'. initializeProject exampleTexts quietShell exampleFlaskConfig exampleHome = Inr fs'
          \<and> (\<forall>q. lookup fs' q =
                (case map_of (rev ?ws) q of
                   Some c \<Rightarrow> Some (File c)
                 | None \<Rightarrow>
                     if lookup exampleHome q = None
                        \<and> q \<in> (\<Union>(f, c)\<in>set ?ws. set (ancestors (butlast f)))
                     then Some Dir else lookup exampleHome q))"
    by (rule t [THEN mp]) (intro conjI r f refl w)
  then obtain fs' where
    i: "initializeProject exampleTexts quietShell exampleFlaskConfig exampleHome = Inr fs'"
    and l: "\<And>q. lookup fs' q =
                (case map_of (rev ?ws) q of
                   Some c \<Rightarrow> Some (File c)
                 | None \<Rightarrow>
                     if lookup exampleHome q = None
                        \<and> q \<in> (\<Union>(f, c)\<in>set ?ws. set (ancestors (butlast f)))
                     then Some Dir else lookup exampleHome q)"
    by (elim exE conjE) simp
  have l1: "lookup fs' [''home'', ''dev'', ''blog'', ''main.py'']
              = Some (File (pythonMainContent ''flask''))"
    unfolding l ws by simp
  have l2: "lookup fs' [''home'', ''dev'', ''blog'', ''pyproject.toml'']
              = Some (File ''[project] blog flask'')"
    unfolding l ws by simp
  have l3: "lookup fs' [''home'', ''dev'', ''blog'', ''.python-version''] = Some (File (''3.11'' @ nl))"
    unfolding l ws by simp
  have l4: "lookup fs' [''home'', ''dev'', ''blog''] = Some Dir"
    unfolding l ws by (simp add: exampleHome_def lookup_def)
  have l5: "lookup fs' [''home'', ''dev'', ''blog'', ''package.json''] = None"
    unfolding l ws by (simp add: exampleHome_def lookup_def)
  show ?thesis
    by (intro conjI exI [of _ fs']) (fact g n r u w i l1 l2 l3 l4 l5)+
qed

subsection \<open>Moving a regular file\<close>

lemma map_of_remove:
  "map_of (filter (\<lambda>(q, n). q \<noteq> a) fs) q = (if q = a then None else map_of fs q)"
  by (induction fs) auto

lemma fs_rename_file:
  assumes "lookup fs a = Some (File c)" and "a \<noteq> d" and "lookup fs d \<noteq> Some Dir"
    and "lookup fs (butlast d) = Some Dir"
  shows "\<exists>fs'. fs_rename a d fs = Inr fs'
     \<and> (\<forall>q. lookup fs' q = (if q = a then None else if q = d then Some (File c) else lookup fs q))"
proof -
  have a: "a \<noteq> []" using assms(1) by (auto simp: lookup_def)
  have d: "d \<noteq> []" using assms(3) by (auto simp: lookup_def)
  show ?thesis
  proof (cases "lookup fs d")
    case None
    then have "fs_rename a d fs = Inr (filter (\<lambda>(q, n). q \<noteq> a) fs @ [(d, File c)])"
      using assms by (simp add: fs_rename_def path_dirname_def)
    moreover have "\<forall>q. lookup (filter (\<lambda>(q, n). q \<noteq> a) fs @ [(d, File c)]) q
        = (if q = a then None else if q = d then Some (File c) else lookup fs q)"
      using a d None assms(2)
      by (auto simp: lookup_def map_of_remove map_add_def split: option.splits)
    ultimately show ?thesis by blast
  next
    case (Some n)
    then obtain old where o: "lookup fs d = Some (File old)"
      using assms(3) by (cases n) auto
    then have "fs_rename a d fs = Inr (setEntry d (File c) (filter (\<lambda>(q, n). q \<noteq> a) fs))"
      using assms by (simp add: fs_rename_def)
    moreover have "\<forall>q. lookup (setEntry d (File c) (filter (\<lambda>(q, n). q \<noteq> a) fs)) q
        = (if q = a then None else if q = d then Some (File c) else lookup fs q)"
      using a d o assms(2)
      by (auto simp: lookup_def map_of_setEntry map_of_remove)
    ultimately show ?thesis by blast
  qed
qed

lemma moveFile_file:
  assumes "lookup fs a = Some (File c)" and "a \<noteq> d" and "d \<noteq> []"
    and "lookup fs d \<noteq> Some Dir"
    and "\<forall>q\<in>set (ancestors (butlast d)). \<not> isFile (lookup fs q)"
  shows "\<exists>fs'. moveFile a d fs = Inr fs'
     \<and> (\<forall>q. lookup fs' q =
           (if q = a then None
            else if q = d then Some (File c)
            else if lookup fs q = None \<and> q \<in> set (ancestors (butlast d)) then Some Dir
            else lookup fs q))"
proof -
  from createDirectory_succeeds [OF assms(5)] obtain fs1 where
    1: "createDirectory (butlast d) fs = Inr fs1" by blast
  note l1 = createDirectory_lookup [OF 1]
  have na: "a \<notin> set (ancestors (butlast d))" using assms(1,5) by auto
  have nd: "d \<notin> set (ancestors (butlast d))"
    using ancestors_not_below_strict [of d "butlast d" "[last d]"] assms(3) by auto
  have a1: "lookup fs1 a = Some (File c)" using assms(1) by (simp add: l1)
  have d1: "lookup fs1 d \<noteq> Some Dir" using assms(4) nd by (simp add: l1)
  have p1: "lookup fs1 (butlast d) = Some Dir"
  proof (cases "butlast d = []")
    case True
    then show ?thesis by (simp add: lookup_def)
  next
    case False
    then have m: "butlast d \<in> set (ancestors (butlast d))" by (rule self_in_ancestors)
    then have "\<not> isFile (lookup fs (butlast d))" using assms(5) by blast
    then show ?thesis using m
      by (cases "lookup fs (butlast d)" rule: isFile.cases) (auto simp: l1)
  qed
  from fs_rename_file [OF a1 assms(2) d1 p1] obtain fs' where
    2: "fs_rename a d fs1 = Inr fs'"
    and l2: "\<And>q. lookup fs' q = (if q = a then None else if q = d then Some (File c) else lookup fs1 q)"
    by blast
  have "moveFile a d fs = Inr fs'"
    using 1 2 by (simp add: moveFile_def path_dirname_def)
  moreover have "\<forall>q. lookup fs' q =
           (if q = a then None
            else if q = d then Some (File c)
            else if lookup fs q = None \<and> q \<in> set (ancestors (butlast d)) then Some Dir
            else lookup fs q)"
    by (simp add: l2 l1)
  ultimately show ?thesis by blast
qed

lemma readDirectory_member:
  "nm \<in> set (readDirectory dir fs) = (lookup fs dir = Some Dir \<and> lookup fs (dir @ [nm]) \<noteq> None)"
proof -
  have "(\<exists>q n. (q, n) \<in> set fs \<and> q \<noteq> [] \<and> butlast q = dir \<and> last q = nm)
      = (\<exists>n. (dir @ [nm], n) \<in> set fs)"
    by (metis append_butlast_last_id butlast_snoc last_snoc snoc_eq_iff_butlast)
  also have "\<dots> = (map_of fs (dir @ [nm]) \<noteq> None)"
    by (metis map_of_SomeD not_None_eq weak_map_of_SomeI)
  finally have e: "(\<exists>q n. (q, n) \<in> set fs \<and> q \<noteq> [] \<and> butlast q = dir \<and> last q = nm)
      = (lookup fs (dir @ [nm]) \<noteq> None)"
    by (simp add: lookup_def)
  have "nm \<in> set (map (\<lambda>(q, n). last q) (filter (\<lambda>(q, n). q \<noteq> [] \<and> butlast q = dir) fs))
      = (\<exists>q n. (q, n) \<in> set fs \<and> q \<noteq> [] \<and> butlast q = dir \<and> last q = nm)"
    by (auto simp: image_iff)
  then show ?thesis using e by (simp add: readDirectory_def)
qed

lemma readDirectory_distinct: "distinct (readDirectory dir fs)"
  by (simp add: readDirectory_def)

subsection \<open>The relocation loops\<close>

lemma forEach_inv:
  assumes step: "\<And>x D s. I D s \<Longrightarrow> \<exists>s'. body x s = Inr s' \<and> I (insert x D) s'"
    and "I D s"
  shows "\<exists>s'. forEach body xs s = Inr s' \<and> I (D \<union> set xs) s'"
  using assms(2)
proof (induction xs arbitrary: D s)
  case Nil
  then show ?case by simp
next
  case (Cons x xs)
  from step [OF Cons.prems, of x] obtain s1 where
    1: "body x s = Inr s1" and 2: "I (insert x D) s1" by blast
  from Cons.IH [OF 2] obtain s' where
    3: "forEach body xs s1 = Inr s'" and 4: "I (insert x D \<union> set xs) s'" by blast
  have "forEach body (x # xs) s = Inr s'" using 1 3 by simp
  moreover have "I (D \<union> set (x # xs)) s'" using 4 by simp
  ultimately show ?case by blast
qed

lemma forEach_once:
  assumes other: "\<And>x s. x \<noteq> na \<Longrightarrow> body x s = Inr s" and "distinct xs"
  shows "forEach body xs s = (if na \<in> set xs then body na s else Inr s)"
  using assms(2)
proof (induction xs arbitrary: s)
  case Nil
  then show ?case by simp
next
  case (Cons x xs)
  show ?case
  proof (cases "x = na")
    case True
    then have "na \<notin> set xs" using Cons.prems by simp
    then have "forEach body xs = Inr" using Cons.IH Cons.prems by auto
    then show ?thesis using True by (simp add: andThen_Inr)
  next
    case False
    then show ?thesis using Cons.IH Cons.prems other by simp
  qed
qed

lemma relocate_two:
  assumes ne: "na \<noteq> nb"
    and dist: "A \<noteq> B" "A \<noteq> dA" "A \<noteq> dB" "B \<noteq> dA" "B \<noteq> dB" "dA \<noteq> dB" "dA \<noteq> []" "dB \<noteq> []"
    and files: "lookup s0 A \<noteq> Some Dir" "lookup s0 B \<noteq> Some Dir"
               "lookup s0 dA \<noteq> Some Dir" "lookup s0 dB \<noteq> Some Dir"
    and dirs: "\<forall>q\<in>set (ancestors (butlast dA)). lookup s0 q = Some Dir"
              "\<forall>q\<in>set (ancestors (butlast dB)). lookup s0 q = Some Dir"
  shows "\<exists>s'. forEach (relocation na A dA nb B dB) xs s0 = Inr s' \<and> (\<forall>q. lookup s' q =
       (if q = A then (if na \<in> set xs then None else lookup s0 A)
        else if q = dA then (if na \<in> set xs \<and> lookup s0 A \<noteq> None then lookup s0 A else lookup s0 dA)
        else if q = B then (if nb \<in> set xs then None else lookup s0 B)
        else if q = dB then (if nb \<in> set xs \<and> lookup s0 B \<noteq> None then lookup s0 B else lookup s0 dB)
        else lookup s0 q))"
proof -
  define body where "body = relocation na A dA nb B dB"
  have body: "body x s =
           (if x = na \<and> lookup s A \<noteq> None then moveFile A dA s
            else if x = nb \<and> lookup s B \<noteq> None then moveFile B dB s
            else Inr s)" for x s
    by (simp add: body_def relocation_def)
  define I where "I D s = (\<forall>q. lookup s q =
       (if q = A then (if na \<in> D then None else lookup s0 A)
        else if q = dA then (if na \<in> D \<and> lookup s0 A \<noteq> None then lookup s0 A else lookup s0 dA)
        else if q = B then (if nb \<in> D then None else lookup s0 B)
        else if q = dB then (if nb \<in> D \<and> lookup s0 B \<noteq> None then lookup s0 B else lookup s0 dB)
        else lookup s0 q))" for D s
  have frame: "lookup s q = Some Dir" if "I D s" and "lookup s0 q = Some Dir" for D s q
  proof -
    have "q \<noteq> A" "q \<noteq> B" "q \<noteq> dA" "q \<noteq> dB" using that(2) files by auto
    then show ?thesis using that by (simp add: I_def)
  qed
  have move: "\<exists>s'. moveFile X dX s = Inr s'
      \<and> (\<forall>q. lookup s' q = (if q = X then None else if q = dX then lookup s X else lookup s q))"
    if i: "I D s" and x: "lookup s X \<noteq> None" "lookup s X \<noteq> Some Dir" "X \<noteq> dX" "dX \<noteq> []"
      "lookup s dX \<noteq> Some Dir" "\<forall>q\<in>set (ancestors (butlast dX)). lookup s0 q = Some Dir"
    for D s X dX
  proof -
    from x(1,2) obtain c where c: "lookup s X = Some (File c)"
      by (cases "lookup s X") (auto intro: node.exhaust)
    have d: "\<forall>q\<in>set (ancestors (butlast dX)). lookup s q = Some Dir"
      using frame [OF i] x(6) by blast
    then have "\<forall>q\<in>set (ancestors (butlast dX)). \<not> isFile (lookup s q)" by simp
    from moveFile_file [OF c x(3) x(4) x(5) this] d c show ?thesis by auto
  qed
  have step: "\<exists>s'. body x s = Inr s' \<and> I (insert x D) s'" if i: "I D s" for x D s
  proof -
    note l = i [unfolded I_def, rule_format]
    consider (a) "x = na" "lookup s A \<noteq> None"
      | (b) "\<not> (x = na \<and> lookup s A \<noteq> None)" "x = nb" "lookup s B \<noteq> None"
      | (c) "\<not> (x = na \<and> lookup s A \<noteq> None)" "\<not> (x = nb \<and> lookup s B \<noteq> None)"
      by blast
    then show ?thesis
    proof cases
      case a
      have nD: "na \<notin> D" using a(2) l [of A] by (auto split: if_splits)
      have sA: "lookup s A = lookup s0 A" using nD l [of A] by simp
      have sd: "lookup s dA = lookup s0 dA" using nD l [of dA] dist by simp
      from move [OF i a(2) _ dist(2) dist(7) _ dirs(1)] sA sd files
      obtain s' where m: "moveFile A dA s = Inr s'"
        and l': "\<And>q. lookup s' q = (if q = A then None else if q = dA then lookup s A else lookup s q)"
        by auto
      have "body x s = Inr s'" using a m by (simp add: body)
      moreover have "I (insert x D) s'"
        unfolding I_def using a ne dist sA nD by (auto simp: l' l)
      ultimately show ?thesis by blast
    next
      case b
      have nD: "nb \<notin> D" using b(3) l [of B] dist by (auto split: if_splits)
      have sB: "lookup s B = lookup s0 B" using nD l [of B] dist by simp
      have sd: "lookup s dB = lookup s0 dB" using nD l [of dB] dist by simp
      from move [OF i b(3) _ dist(5) dist(8) _ dirs(2)] sB sd files
      obtain s' where m: "moveFile B dB s = Inr s'"
        and l': "\<And>q. lookup s' q = (if q = B then None else if q = dB then lookup s B else lookup s q)"
        by auto
      have "body x s = Inr s'" using b m ne by (auto simp: body)
      moreover have "I (insert x D) s'"
        unfolding I_def using b ne dist sB nD by (auto simp: l' l)
      ultimately show ?thesis by blast
    next
      case c
      have "body x s = Inr s" using c by (auto simp: body)
      moreover have "I (insert x D) s"
        unfolding I_def
      proof (intro allI)
        fix q
        have A: "x = na \<Longrightarrow> na \<notin> D \<Longrightarrow> lookup s0 A = None" using c(1) l [of A] by auto
        have B: "x = nb \<Longrightarrow> nb \<notin> D \<Longrightarrow> lookup s0 B = None" using c(2) l [of B] dist by auto
        show "lookup s q =
         (if q = A then if na \<in> insert x D then None else lookup s0 A
          else if q = dA then if na \<in> insert x D \<and> lookup s0 A \<noteq> None then lookup s0 A else lookup s0 dA
          else if q = B then if nb \<in> insert x D then None else lookup s0 B
          else if q = dB then if nb \<in> insert x D \<and> lookup s0 B \<noteq> None then lookup s0 B else lookup s0 dB
          else lookup s0 q)"
          using A B by (auto simp: l)
      qed
      ultimately show ?thesis by blast
    qed
  qed
  have "I {} s0" by (simp add: I_def)
  from forEach_inv [of I body, OF step this, of xs] show ?thesis
    by (simp add: I_def body_def)
qed

subsection \<open>Steps that create directories or rewrite a file in place\<close>

lemma createDirectories_succeeds:
  "\<forall>p\<in>set ps. \<forall>q\<in>set (ancestors p). \<not> isFile (lookup fs q) \<Longrightarrow>
   \<exists>fs'. createDirectories ps fs = Inr fs'"
proof (induction ps arbitrary: fs)
  case Nil
  then show ?case by simp
next
  case (Cons p ps)
  from createDirectory_succeeds [of p fs] Cons.prems obtain fs1 where
    1: "createDirectory p fs = Inr fs1" by auto
  have "\<forall>p\<in>set ps. \<forall>q\<in>set (ancestors p). \<not> isFile (lookup fs1 q)"
    using Cons.prems by (auto simp: createDirectory_lookup [OF 1])
  from Cons.IH [OF this] show ?case using 1 by simp
qed

lemma updateFirstExisting_frame:
  assumes "\<forall>f\<in>set files. lookup fs (srcPath @ [f]) \<noteq> Some Dir"
  shows "\<exists>fs'. updateFirstExisting edit srcPath files fs = Inr fs'
     \<and> (\<forall>q. lookup fs' q = lookup fs q
            \<or> (q \<in> (\<lambda>f. srcPath @ [f]) ` set files
               \<and> (\<exists>c c'. lookup fs q = Some (File c) \<and> lookup fs' q = Some (File c'))))"
  using assms
proof (induction files)
  case Nil
  then show ?case by simp
next
  case (Cons f files)
  show ?case
  proof (cases "lookup fs (srcPath @ [f])")
    case None
    then show ?thesis using Cons by (auto simp: path_join_def pathExists_def)
  next
    case (Some n)
    then obtain c where c: "lookup fs (srcPath @ [f]) = Some (File c)"
      using Cons.prems by (cases n) auto
    from fs_writeFile_existing [OF c, of "edit c"] obtain fs' where
      w: "fs_writeFile (srcPath @ [f]) (edit c) fs = Inr fs'" by blast
    have "updateFirstExisting edit srcPath (f # files) fs = Inr fs'"
      using c w by (simp add: path_join_def pathExists_def fs_readFile_def)
    then show ?thesis using c by (auto simp: fs_writeFile_lookup [OF w])
  qed
qed

lemma rewrite_frame:
  assumes "lookup fs p \<noteq> Some Dir"
  shows "\<exists>fs'. (if pathExists p fs
               then andThen (fs_readFile p fs) (\<lambda>content. fs_writeFile p (edit content) fs)
               else Inr fs) = Inr fs'
     \<and> (\<forall>q. lookup fs' q = lookup fs q
            \<or> (q = p \<and> (\<exists>c c'. lookup fs q = Some (File c) \<and> lookup fs' q = Some (File c'))))"
proof (cases "lookup fs p")
  case None
  then show ?thesis by (simp add: pathExists_def)
next
  case (Some n)
  then obtain c where c: "lookup fs p = Some (File c)"
    using assms by (cases n) auto
  from fs_writeFile_existing [OF c, of "edit c"] obtain fs' where
    w: "fs_writeFile p (edit c) fs = Inr fs'" by blast
  then show ?thesis using c by (auto simp: pathExists_def fs_readFile_def fs_writeFile_lookup [OF w])
qed

subsection \<open>The reconciliation of a React project\<close>

lemma react_pipeline:
  fixes src :: path and na nb :: string and ov :: "path list"
  defines "A \<equiv> src @ [na]" and "B \<equiv> src @ [nb]"
  defines "U \<equiv> (\<Union>p\<in>set ov. set (ancestors p))"
  assumes ov: "\<forall>q\<in>U. \<not> isFile (lookup fs q)"
    and dA: "dA \<noteq> []" "set (ancestors (butlast dA)) \<subseteq> U" "dA \<notin> U"
    and dB: "dB \<noteq> []" "set (ancestors (butlast dB)) \<subseteq> U" "dB \<notin> U"
    and dist: "na \<noteq> nb" "dA \<noteq> dB" "A \<noteq> dA" "A \<noteq> dB" "B \<noteq> dA" "B \<noteq> dB"
    and AB: "A \<notin> U" "B \<notin> U"
    and files: "lookup fs A \<noteq> Some Dir" "lookup fs B \<noteq> Some Dir"
               "lookup fs dA \<noteq> Some Dir" "lookup fs dB \<noteq> Some Dir"
    and parent: "lookup fs A \<noteq> None \<or> lookup fs B \<noteq> None \<longrightarrow> lookup fs src = Some Dir"
    and E: "\<forall>f\<in>set es1 \<union> set es2.
              lookup fs (src @ [f]) \<noteq> Some Dir \<and> src @ [f] \<notin> U \<and> src @ [f] \<notin> {A, B, dA, dB}"
  shows "\<exists>fs'. andThen (createDirectories ov fs)
                 (\<lambda>fs1. andThen (forEach (relocation na A dA nb B dB) (readDirectory src fs) fs1)
                 (\<lambda>fs2. andThen (updateFirstExisting e1 src es1 fs2)
                 (\<lambda>fs3. updateFirstExisting e2 src es2 fs3))) = Inr fs'
     \<and> lookup fs' A = None \<and> lookup fs' B = None
     \<and> lookup fs' dA = (if lookup fs A = None then lookup fs dA else lookup fs A)
     \<and> lookup fs' dB = (if lookup fs B = None then lookup fs dB else lookup fs B)
     \<and> (\<forall>q. lookup fs' q = lookup fs q \<or> q \<in> {A, B, dA, dB}
            \<or> (lookup fs q = None \<and> lookup fs' q = Some Dir)
            \<or> (q \<in> (\<lambda>f. src @ [f]) ` (set es1 \<union> set es2)
               \<and> (\<exists>c c'. lookup fs q = Some (File c) \<and> lookup fs' q = Some (File c'))))"
proof -
  have "\<forall>p\<in>set ov. \<forall>q\<in>set (ancestors p). \<not> isFile (lookup fs q)"
    using ov by (auto simp: U_def)
  from createDirectories_succeeds [OF this] obtain s1 where
    1: "createDirectories ov fs = Inr s1" by blast
  have l1: "lookup s1 q = (if lookup fs q = None \<and> q \<in> U then Some Dir else lookup fs q)" for q
    unfolding U_def by (rule createDirectories_lookup [OF 1])
  have made: "lookup s1 q = Some Dir" if "q \<in> U" for q
    using ov that by (cases "lookup fs q" rule: isFile.cases) (auto simp: l1)
  have AB1: "lookup s1 A = lookup fs A" "lookup s1 B = lookup fs B"
    "lookup s1 dA = lookup fs dA" "lookup s1 dB = lookup fs dB"
    using AB dA(3) dB(3) by (simp_all add: l1)
  have ne: "A \<noteq> B" using dist(1) by (simp add: A_def B_def)
  have "\<exists>s'. forEach (relocation na A dA nb B dB) (readDirectory src fs) s1 = Inr s' \<and> (\<forall>q. lookup s' q =
       (if q = A then (if na \<in> set (readDirectory src fs) then None else lookup s1 A)
        else if q = dA then (if na \<in> set (readDirectory src fs) \<and> lookup s1 A \<noteq> None then lookup s1 A else lookup s1 dA)
        else if q = B then (if nb \<in> set (readDirectory src fs) then None else lookup s1 B)
        else if q = dB then (if nb \<in> set (readDirectory src fs) \<and> lookup s1 B \<noteq> None then lookup s1 B else lookup s1 dB)
        else lookup s1 q))"
    using dist dA dB files made ne
    by (intro relocate_two) (auto simp: AB1)
  then obtain s2 where 2: "forEach (relocation na A dA nb B dB) (readDirectory src fs) s1 = Inr s2"
    and l2': "\<And>q. lookup s2 q =
       (if q = A then (if na \<in> set (readDirectory src fs) then None else lookup s1 A)
        else if q = dA then (if na \<in> set (readDirectory src fs) \<and> lookup s1 A \<noteq> None then lookup s1 A else lookup s1 dA)
        else if q = B then (if nb \<in> set (readDirectory src fs) then None else lookup s1 B)
        else if q = dB then (if nb \<in> set (readDirectory src fs) \<and> lookup s1 B \<noteq> None then lookup s1 B else lookup s1 dB)
        else lookup s1 q)"
    by blast
  have ma: "na \<in> set (readDirectory src fs) = (lookup fs A \<noteq> None)"
    and mb: "nb \<in> set (readDirectory src fs) = (lookup fs B \<noteq> None)"
    using parent by (auto simp: readDirectory_member A_def B_def)
  have l2: "lookup s2 q =
       (if q = A then None
        else if q = dA then (if lookup fs A = None then lookup fs dA else lookup fs A)
        else if q = B then None
        else if q = dB then (if lookup fs B = None then lookup fs dB else lookup fs B)
        else lookup s1 q)" for q
    unfolding l2' ma mb AB1 by auto
  have e2: "lookup s2 (src @ [f]) = lookup fs (src @ [f])" if "f \<in> set es1 \<union> set es2" for f
    using E that by (auto simp: l2 l1)
  have "\<forall>f\<in>set es1. lookup s2 (src @ [f]) \<noteq> Some Dir" using E by (simp add: e2)
  from updateFirstExisting_frame [OF this, of e1] obtain s3 where
    3: "updateFirstExisting e1 src es1 s2 = Inr s3"
    and l3: "\<And>q. lookup s3 q = lookup s2 q
            \<or> (q \<in> (\<lambda>f. src @ [f]) ` set es1
               \<and> (\<exists>c c'. lookup s2 q = Some (File c) \<and> lookup s3 q = Some (File c')))"
    by blast
  have "\<forall>f\<in>set es2. lookup s3 (src @ [f]) \<noteq> Some Dir"
  proof
    fix f assume f: "f \<in> set es2"
    then have "lookup s2 (src @ [f]) \<noteq> Some Dir" using E by (simp add: e2)
    then show "lookup s3 (src @ [f]) \<noteq> Some Dir" using l3 [of "src @ [f]"] by auto
  qed
  from updateFirstExisting_frame [OF this, of e2] obtain s4 where
    4: "updateFirstExisting e2 src es2 s3 = Inr s4"
    and l4: "\<And>q. lookup s4 q = lookup s3 q
            \<or> (q \<in> (\<lambda>f. src @ [f]) ` set es2
               \<and> (\<exists>c c'. lookup s3 q = Some (File c) \<and> lookup s4 q = Some (File c')))"
    by blast
  have run: "andThen (createDirectories ov fs)
                 (\<lambda>fs1. andThen (forEach (relocation na A dA nb B dB) (readDirectory src fs) fs1)
                 (\<lambda>fs2. andThen (updateFirstExisting e1 src es1 fs2)
                 (\<lambda>fs3. updateFirstExisting e2 src es2 fs3))) = Inr s4"
    by (simp add: 1 2 3 4)
  have keep: "lookup s4 q = lookup s2 q" if "q \<notin> (\<lambda>f. src @ [f]) ` (set es1 \<union> set es2)" for q
    using l3 [of q] l4 [of q] that by auto
  have notE: "q \<notin> (\<lambda>f. src @ [f]) ` (set es1 \<union> set es2)" if "q \<in> {A, B, dA, dB}" for q
    using E that by blast
  have pA: "lookup s4 A = None" and pB: "lookup s4 B = None"
    using keep [OF notE, of A] keep [OF notE, of B] dist ne by (simp_all add: l2)
  have pdA: "lookup s4 dA = (if lookup fs A = None then lookup fs dA else lookup fs A)"
    using keep [OF notE, of dA] dist ne by (simp add: l2)
  have pdB: "lookup s4 dB = (if lookup fs B = None then lookup fs dB else lookup fs B)"
    using keep [OF notE, of dB] dist ne by (simp add: l2)
  have frame: "lookup s4 q = lookup fs q \<or> q \<in> {A, B, dA, dB}
            \<or> (lookup fs q = None \<and> lookup s4 q = Some Dir)
            \<or> (q \<in> (\<lambda>f. src @ [f]) ` (set es1 \<union> set es2)
               \<and> (\<exists>c c'. lookup fs q = Some (File c) \<and> lookup s4 q = Some (File c')))" for q
  proof (cases "q \<in> (\<lambda>f. src @ [f]) ` (set es1 \<union> set es2)")
    case False
    then show ?thesis using keep [OF False] by (auto simp: l2 l1)
  next
    case True
    then obtain f where f: "f \<in> set es1 \<union> set es2" "q = src @ [f]" by blast
    have a: "lookup s2 q = lookup fs q" using e2 [OF f(1)] f(2) by simp
    have "lookup s4 q = lookup s2 q
        \<or> (\<exists>c c'. lookup s2 q = Some (File c) \<and> lookup s4 q = Some (File c'))"
      using l3 [of q] l4 [of q] by metis
    then show ?thesis unfolding a using True by blast
  qed
  show ?thesis
    by (intro exI [of _ s4] conjI allI) (fact run pA pB pdA pdB frame)+
qed

lemma reorganizeReactProject_feature:
  "reorganizeReactProject src ''feature-based'' fs =
     andThen (createDirectories
                [src @ [''features'', ''example'', ''components''],
                 src @ [''features'', ''example'', ''hooks''],
                 src @ [''features'', ''example'', ''utils''],
                 src @ [''features'', ''example'', ''styles''],
                 src @ [''shared'', ''components''],
                 src @ [''shared'', ''hooks''],
                 src @ [''shared'', ''utils''],
                 src @ [''shared'', ''styles'']] fs)
      (\<lambda>fs1. andThen
         (forEach (relocation
              ''App.css'' (src @ [''App.css'']) (src @ [''features'', ''example'', ''styles'', ''App.css''])
              ''index.css'' (src @ [''index.css'']) (src @ [''shared'', ''styles'', ''index.css'']))
            (readDirectory src fs) fs1)
      (\<lambda>fs2. andThen
         (updateFirstExisting
            (\<lambda>content. replaceAll appCssImport
               (''import '' @ sq @ ''./'' @ ''features/example/styles'' @ ''/App.css'' @ sq) content)
            src [''App.tsx'', ''App.jsx'', ''App.svelte''] fs2)
      (\<lambda>fs3. updateFirstExisting
            (\<lambda>content. replaceAll indexCssImport
               (''import '' @ sq @ ''./shared/styles/index.css'' @ sq) content)
            src [''main.tsx'', ''main.jsx''] fs3)))"
proof -
  have b: "(\<lambda>file fs.
               if \<not> pathExists (path_join src [file]) fs \<or> file = ''assets'' then Inr fs
               else if file = ''App.css''
                 then moveFile (path_join src [file])
                        (path_join src [''features'', ''example'', ''styles'', file]) fs
               else if file = ''index.css''
                 then moveFile (path_join src [file]) (path_join src [''shared'', ''styles'', file]) fs
               else Inr fs)
        = relocation
              ''App.css'' (src @ [''App.css'']) (src @ [''features'', ''example'', ''styles'', ''App.css''])
              ''index.css'' (src @ [''index.css'']) (src @ [''shared'', ''styles'', ''index.css''])"
    by (intro ext) (auto simp: relocation_def path_join_def pathExists_def)
  show ?thesis
    unfolding reorganizeReactProject_def Let_def b updateAppCssImports_def updateMainCssImports_def
    by (simp only: path_join_def refl if_True)
qed

lemma reorganizeReactProject_component:
  assumes "arch \<noteq> ''feature-based''"
  shows "reorganizeReactProject src arch fs =
     andThen (createDirectories
                [src @ [''components'', ''common''],
                 src @ [''components'', ''layout''],
                 src @ [''hooks''],
                 src @ [''utils''],
                 src @ [''styles'']] fs)
      (\<lambda>fs1. andThen
         (forEach (relocation
              ''App.css'' (src @ [''App.css'']) (src @ [''styles'', ''App.css''])
              ''index.css'' (src @ [''index.css'']) (src @ [''styles'', ''index.css'']))
            (readDirectory src fs) fs1)
      (\<lambda>fs2. andThen
         (updateFirstExisting
            (\<lambda>content. replaceAll appCssImport
               (''import '' @ sq @ ''./'' @ ''styles'' @ ''/App.css'' @ sq) content)
            src [''App.tsx'', ''App.jsx'', ''App.svelte''] fs2)
      (\<lambda>fs3. updateFirstExisting
            (\<lambda>content. replaceAll indexCssImport
               (''import '' @ sq @ ''./styles/index.css'' @ sq) content)
            src [''main.tsx'', ''main.jsx''] fs3)))"
proof -
  have b: "(\<lambda>file fs.
               if \<not> pathExists (path_join src [file]) fs \<or> file = ''assets'' then Inr fs
               else if file = ''App.css''
                 then moveFile (path_join src [file]) (path_join src [''styles'', file]) fs
               else if file = ''index.css''
                 then moveFile (path_join src [file]) (path_join src [''styles'', file]) fs
               else Inr fs)
        = relocation
              ''App.css'' (src @ [''App.css'']) (src @ [''styles'', ''App.css''])
              ''index.css'' (src @ [''index.css'']) (src @ [''styles'', ''index.css''])"
    by (intro ext) (auto simp: relocation_def path_join_def pathExists_def)
  show ?thesis
    unfolding reorganizeReactProject_def Let_def b updateAppCssImports_def updateMainCssImports_def
    by (simp only: path_join_def assms if_False)
qed

lemma append_in_ancestors [simp]: "(p @ r \<in> set (ancestors p)) = (r = [] \<and> p \<noteq> [])"
  using ancestors_not_below_strict [of "p @ r" p r] self_in_ancestors [of p] ancestors_nonempty [of p p]
  by auto

lemma react_feature:
  assumes "reconcilable p ''feature-based'' fw fs" and "fw \<noteq> ''svelte''"
  shows "\<exists>fs'. reorganizeReactProject (p @ [''src'']) ''feature-based'' fs = Inr fs'
     \<and> lookup fs' ((p @ [''src'']) @ [''App.css'']) = None
     \<and> lookup fs' ((p @ [''src'']) @ [''index.css'']) = None
     \<and> lookup fs' ((p @ [''src'']) @ [''features'', ''example'', ''styles'', ''App.css''])
         = (if lookup fs ((p @ [''src'']) @ [''App.css'']) = None
            then lookup fs ((p @ [''src'']) @ [''features'', ''example'', ''styles'', ''App.css''])
            else lookup fs ((p @ [''src'']) @ [''App.css'']))
     \<and> lookup fs' ((p @ [''src'']) @ [''shared'', ''styles'', ''index.css''])
         = (if lookup fs ((p @ [''src'']) @ [''index.css'']) = None
            then lookup fs ((p @ [''src'']) @ [''shared'', ''styles'', ''index.css''])
            else lookup fs ((p @ [''src'']) @ [''index.css'']))
     \<and> (\<forall>q. lookup fs' q = lookup fs q
            \<or> q \<in> {(p @ [''src'']) @ [''App.css''], (p @ [''src'']) @ [''index.css''],
                    (p @ [''src'']) @ [''features'', ''example'', ''styles'', ''App.css''],
                    (p @ [''src'']) @ [''shared'', ''styles'', ''index.css'']}
            \<or> (lookup fs q = None \<and> lookup fs' q = Some Dir)
            \<or> (q \<in> (\<lambda>f. (p @ [''src'']) @ [f])
                       ` (set [''App.tsx'', ''App.jsx'', ''App.svelte''] \<union> set [''main.tsx'', ''main.jsx''])
               \<and> (\<exists>c c'. lookup fs q = Some (File c) \<and> lookup fs' q = Some (File c'))))"
  unfolding reorganizeReactProject_feature
  apply (rule react_pipeline)
  using assms
  apply (simp_all add: reconcilable_def overlayDirectories_def relocationTable_def rewrittenFiles_def
      ancestors_append image_iff ball_Un Let_def list_all_iff butlast_append)
  apply (blast | force)+
  done

lemma react_component:
  assumes "reconcilable p arch fw fs" and "fw \<noteq> ''svelte''" and "arch \<noteq> ''feature-based''"
  shows "\<exists>fs'. reorganizeReactProject (p @ [''src'']) arch fs = Inr fs'
     \<and> lookup fs' ((p @ [''src'']) @ [''App.css'']) = None
     \<and> lookup fs' ((p @ [''src'']) @ [''index.css'']) = None
     \<and> lookup fs' ((p @ [''src'']) @ [''styles'', ''App.css''])
         = (if lookup fs ((p @ [''src'']) @ [''App.css'']) = None
            then lookup fs ((p @ [''src'']) @ [''styles'', ''App.css''])
            else lookup fs ((p @ [''src'']) @ [''App.css'']))
     \<and> lookup fs' ((p @ [''src'']) @ [''styles'', ''index.css''])
         = (if lookup fs ((p @ [''src'']) @ [''index.css'']) = None
            then lookup fs ((p @ [''src'']) @ [''styles'', ''index.css''])
            else lookup fs ((p @ [''src'']) @ [''index.css'']))
     \<and> (\<forall>q. lookup fs' q = lookup fs q
            \<or> q \<in> {(p @ [''src'']) @ [''App.css''], (p @ [''src'']) @ [''index.css''],
                    (p @ [''src'']) @ [''styles'', ''App.css''],
                    (p @ [''src'']) @ [''styles'', ''index.css'']}
            \<or> (lookup fs q = None \<and> lookup fs' q = Some Dir)
            \<or> (q \<in> (\<lambda>f. (p @ [''src'']) @ [f])
                       ` (set [''App.tsx'', ''App.jsx'', ''App.svelte''] \<union> set [''main.tsx'', ''main.jsx''])
               \<and> (\<exists>c c'. lookup fs q = Some (File c) \<and> lookup fs' q = Some (File c'))))"
  unfolding reorganizeReactProject_component [OF assms(3)]
  apply (rule react_pipeline)
  using assms
  apply (simp_all add: reconcilable_def overlayDirectories_def relocationTable_def rewrittenFiles_def
      ancestors_append image_iff ball_Un Let_def list_all_iff butlast_append)
  apply (blast | force)+
  done

subsection \<open>The reconciliation of a Svelte project\<close>

lemma updateSvelteAppImports_frame:
  assumes "lookup fs (src @ [''App.svelte'']) \<noteq> Some Dir"
  shows "\<exists>fs'. updateSvelteAppImports src crp fs = Inr fs'
     \<and> (\<forall>q. lookup fs' q = lookup fs q
            \<or> (q = src @ [''App.svelte'']
               \<and> (\<exists>c c'. lookup fs q = Some (File c) \<and> lookup fs' q = Some (File c'))))"
  unfolding updateSvelteAppImports_def Let_def path_join_def
  by (rule rewrite_frame [OF assms])

lemma updateSvelteCssImport_frame:
  assumes "lookup fs (src @ [''main.ts'']) \<noteq> Some Dir"
  shows "\<exists>fs'. updateSvelteCssImport src arch fs = Inr fs'
     \<and> (\<forall>q. lookup fs' q = lookup fs q
            \<or> (q = src @ [''main.ts'']
               \<and> (\<exists>c c'. lookup fs q = Some (File c) \<and> lookup fs' q = Some (File c'))))"
  unfolding updateSvelteCssImport_def Let_def path_join_def
  by (rule rewrite_frame [OF assms])

lemma counter_loop:
  "forEach
     (\<lambda>file fs.
        if \<not> pathExists (path_join lib [file]) fs then Inr fs
        else if file = ''Counter.svelte''
          then moveFile (path_join lib [file]) (dest file) fs
        else Inr fs)
     (readDirectory lib fs0) fs1
   = (if ''Counter.svelte'' \<in> set (readDirectory lib fs0)
         \<and> lookup fs1 (lib @ [''Counter.svelte'']) \<noteq> None
      then moveFile (lib @ [''Counter.svelte'']) (dest ''Counter.svelte'') fs1
      else Inr fs1)"
  by (subst forEach_once [where na = "''Counter.svelte''"])
     (auto simp: readDirectory_distinct path_join_def pathExists_def)

lemma appcss_loop:
  "forEach
     (\<lambda>file fs.
        if \<not> pathExists (path_join src [file]) fs \<or> file = ''assets'' \<or> file = ''lib''
           \<or> file = ''features''
        then Inr fs
        else if file = ''app.css''
          then andThen (moveFile (path_join src [file]) (path_join lib [''shared'', ''styles'', file]) fs)
                 (\<lambda>fs'. updateSvelteCssImport src arch fs')
        else Inr fs)
     (readDirectory src fs3) fs3
   = (if ''app.css'' \<in> set (readDirectory src fs3) \<and> lookup fs3 (src @ [''app.css'']) \<noteq> None
      then andThen (moveFile (src @ [''app.css'']) (lib @ [''shared'', ''styles'', ''app.css'']) fs3)
             (\<lambda>fs'. updateSvelteCssImport src arch fs')
      else Inr fs3)"
  by (subst forEach_once [where na = "''app.css''"])
     (auto simp: readDirectory_distinct path_join_def pathExists_def)

lemma reorganizeSvelteProject_feature:
  "reorganizeSvelteProject src ''feature-based'' fs =
     andThen
       (andThen (createDirectories
                   [src @ [''features'', ''example'', ''components''],
                    src @ [''features'', ''example'', ''stores''],
                    src @ [''features'', ''example'', ''utils''],
                    (src @ [''lib'']) @ [''shared'', ''components''],
                    (src @ [''lib'']) @ [''shared'', ''stores''],
                    (src @ [''lib'']) @ [''shared'', ''utils''],
                    (src @ [''lib'']) @ [''shared'', ''styles'']] fs)
        (\<lambda>fs1. andThen
           (if ''Counter.svelte'' \<in> set (readDirectory (src @ [''lib'']) fs)
                \<and> lookup fs1 ((src @ [''lib'']) @ [''Counter.svelte'']) \<noteq> None
            then moveFile ((src @ [''lib'']) @ [''Counter.svelte''])
                   ((src @ [''lib'']) @ [''shared'', ''components'', ''Counter.svelte'']) fs1
            else Inr fs1)
        (\<lambda>fs2. updateSvelteAppImports src ''lib/shared/components'' fs2)))
       (\<lambda>fs3. if ''app.css'' \<in> set (readDirectory src fs3) \<and> lookup fs3 (src @ [''app.css'']) \<noteq> None
              then andThen (moveFile (src @ [''app.css''])
                              ((src @ [''lib'']) @ [''shared'', ''styles'', ''app.css'']) fs3)
                     (\<lambda>fs'. updateSvelteCssImport src ''feature-based'' fs')
              else Inr fs3)"
  unfolding reorganizeSvelteProject_def Let_def counter_loop appcss_loop
  by (simp only: path_join_def refl if_True)

lemma reorganizeSvelteProject_component:
  assumes "arch \<noteq> ''feature-based''"
  shows "reorganizeSvelteProject src arch fs =
     andThen
       (andThen (createDirectories
                   [(src @ [''lib'']) @ [''components'', ''common''],
                    (src @ [''lib'']) @ [''components'', ''layout''],
                    (src @ [''lib'']) @ [''stores''],
                    (src @ [''lib'']) @ [''utils''],
                    (src @ [''lib'']) @ [''styles'']] fs)
        (\<lambda>fs1. andThen
           (if ''Counter.svelte'' \<in> set (readDirectory (src @ [''lib'']) fs)
                \<and> lookup fs1 ((src @ [''lib'']) @ [''Counter.svelte'']) \<noteq> None
            then moveFile ((src @ [''lib'']) @ [''Counter.svelte''])
                   ((src @ [''lib'']) @ [''components'', ''common'', ''Counter.svelte'']) fs1
            else Inr fs1)
        (\<lambda>fs2. updateSvelteAppImports src ''lib/components/common'' fs2)))
       (\<lambda>fs3. if ''app.css'' \<in> set (readDirectory src fs3) \<and> lookup fs3 (src @ [''app.css'']) \<noteq> None
              then andThen (moveFile (src @ [''app.css''])
                              ((src @ [''lib'']) @ [''shared'', ''styles'', ''app.css'']) fs3)
                     (\<lambda>fs'. updateSvelteCssImport src arch fs')
              else Inr fs3)"
  unfolding reorganizeSvelteProject_def Let_def counter_loop appcss_loop
  by (simp only: path_join_def assms if_False)

lemma svelte_pipeline:
  fixes src :: path and ov :: "path list"
  defines "lib \<equiv> src @ [''lib'']"
  defines "C \<equiv> lib @ [''Counter.svelte'']"
    and "X \<equiv> src @ [''app.css'']"
    and "App \<equiv> src @ [''App.svelte'']"
    and "M \<equiv> src @ [''main.ts'']"
    and "dX \<equiv> lib @ [''shared'', ''styles'', ''app.css'']"
  defines "U \<equiv> (\<Union>p\<in>set ov. set (ancestors p))"
    and "V \<equiv> set (ancestors (lib @ [''shared'', ''styles'']))"
  assumes ov: "\<forall>q\<in>U. \<not> isFile (lookup fs q)"
    and srcU: "src = [] \<or> src \<in> U"
    and dC: "dC \<noteq> []" "set (ancestors (butlast dC)) \<subseteq> U" "dC \<notin> U" "C \<noteq> dC" "C \<notin> U"
    and filesC: "lookup fs C \<noteq> Some Dir" "lookup fs dC \<noteq> Some Dir"
      "lookup fs C = None \<or> lookup fs lib = Some Dir"
    and app: "App \<notin> U" "App \<noteq> C" "App \<noteq> dC" "lookup fs App \<noteq> Some Dir"
    and x: "X \<notin> U" "X \<noteq> C" "X \<noteq> dC" "X \<noteq> App" "lookup fs X \<noteq> Some Dir"
    and dx: "dX \<notin> U" "dX \<noteq> C" "dX \<noteq> dC" "dX \<noteq> App" "dX \<noteq> X" "lookup fs dX \<noteq> Some Dir"
    and v: "\<forall>q\<in>V. \<not> isFile (lookup fs q) \<and> q \<noteq> C \<and> q \<noteq> dC \<and> q \<noteq> App \<and> q \<noteq> X"
    and m: "M \<notin> U" "M \<notin> V" "M \<noteq> C" "M \<noteq> dC" "M \<noteq> App" "M \<noteq> X" "M \<noteq> dX"
      "lookup fs M \<noteq> Some Dir"
  shows "\<exists>fs'.
       andThen
         (andThen (createDirectories ov fs)
          (\<lambda>fs1. andThen
             (if ''Counter.svelte'' \<in> set (readDirectory lib fs) \<and> lookup fs1 C \<noteq> None
              then moveFile C dC fs1
              else Inr fs1)
          (\<lambda>fs2. updateSvelteAppImports src crp fs2)))
         (\<lambda>fs3. if ''app.css'' \<in> set (readDirectory src fs3) \<and> lookup fs3 X \<noteq> None
                then andThen (moveFile X dX fs3) (\<lambda>fs'. updateSvelteCssImport src arch fs')
                else Inr fs3) = Inr fs'
     \<and> lookup fs' C = None \<and> lookup fs' X = None
     \<and> lookup fs' dC = (if lookup fs C = None then lookup fs dC else lookup fs C)
     \<and> lookup fs' dX = (if lookup fs X = None then lookup fs dX else lookup fs X)
     \<and> (\<forall>q. lookup fs' q = lookup fs q \<or> q \<in> {C, X, dC, dX}
            \<or> (lookup fs q = None \<and> lookup fs' q = Some Dir)
            \<or> (q \<in> {App, M}
               \<and> (\<exists>c c'. lookup fs q = Some (File c) \<and> lookup fs' q = Some (File c'))))"
proof -
  have "\<forall>p\<in>set ov. \<forall>q\<in>set (ancestors p). \<not> isFile (lookup fs q)"
    using ov by (auto simp: U_def)
  from createDirectories_succeeds [OF this] obtain s1 where
    1: "createDirectories ov fs = Inr s1" by blast
  have l1: "lookup s1 q = (if lookup fs q = None \<and> q \<in> U then Some Dir else lookup fs q)" for q
    unfolding U_def by (rule createDirectories_lookup [OF 1])
  have made: "lookup s1 q = Some Dir" if "q \<in> U" for q
    using ov that by (cases "lookup fs q" rule: isFile.cases) (auto simp: l1)
  have C1: "lookup s1 C = lookup fs C" "lookup s1 dC = lookup fs dC"
    using dC by (simp_all add: l1)
  \<comment> \<open>the loop over the entries of \<open>lib\<close>\<close>
  have "\<exists>s2. (if ''Counter.svelte'' \<in> set (readDirectory lib fs) \<and> lookup s1 C \<noteq> None
              then moveFile C dC s1 else Inr s1) = Inr s2
      \<and> (\<forall>q. lookup s2 q = (if q = C then None
                else if q = dC then (if lookup fs C = None then lookup fs dC else lookup fs C)
                else lookup s1 q))"
  proof (cases "lookup fs C")
    case None
    then show ?thesis by (auto simp: C1)
  next
    case (Some n)
    then obtain c where c: "lookup fs C = Some (File c)"
      using filesC(1) by (cases n) auto
    have c1: "lookup s1 C = Some (File c)" using c by (simp add: C1)
    have d1: "lookup s1 dC \<noteq> Some Dir" using filesC(2) by (simp add: C1)
    have a1: "\<forall>q\<in>set (ancestors (butlast dC)). lookup s1 q = Some Dir"
      using dC(2) made by blast
    then have "\<forall>q\<in>set (ancestors (butlast dC)). \<not> isFile (lookup s1 q)" by simp
    from moveFile_file [OF c1 dC(4) dC(1) d1 this] obtain s2 where
      mv: "moveFile C dC s1 = Inr s2"
      and l: "\<And>q. lookup s2 q =
           (if q = C then None
            else if q = dC then Some (File c)
            else if lookup s1 q = None \<and> q \<in> set (ancestors (butlast dC)) then Some Dir
            else lookup s1 q)"
      by blast
    have mem: "''Counter.svelte'' \<in> set (readDirectory lib fs)"
      using c filesC(3) by (simp add: readDirectory_member C_def)
    have "(if ''Counter.svelte'' \<in> set (readDirectory lib fs) \<and> lookup s1 C \<noteq> None
              then moveFile C dC s1 else Inr s1) = Inr s2"
      using mem c1 mv by simp
    moreover have "\<forall>q. lookup s2 q = (if q = C then None
                else if q = dC then (if lookup fs C = None then lookup fs dC else lookup fs C)
                else lookup s1 q)"
      using a1 c by (auto simp: l)
    ultimately show ?thesis by blast
  qed
  then obtain s2 where
    2: "(if ''Counter.svelte'' \<in> set (readDirectory lib fs) \<and> lookup s1 C \<noteq> None
              then moveFile C dC s1 else Inr s1) = Inr s2"
    and l2: "\<And>q. lookup s2 q = (if q = C then None
                else if q = dC then (if lookup fs C = None then lookup fs dC else lookup fs C)
                else lookup s1 q)"
    by blast
  \<comment> \<open>the import of the counter\<close>
  have "lookup s2 (src @ [''App.svelte'']) \<noteq> Some Dir"
    using app by (simp add: l2 l1 App_def [symmetric])
  from updateSvelteAppImports_frame [OF this, of crp] obtain s3 where
    3: "updateSvelteAppImports src crp s2 = Inr s3"
    and l3: "\<And>q. lookup s3 q = lookup s2 q
            \<or> (q = App \<and> (\<exists>c c'. lookup s2 q = Some (File c) \<and> lookup s3 q = Some (File c')))"
    unfolding App_def by blast
  have keep3: "lookup s3 q = lookup s2 q" if "q \<noteq> App" for q
    using l3 [of q] that by simp
  have first: "andThen (createDirectories ov fs)
          (\<lambda>fs1. andThen
             (if ''Counter.svelte'' \<in> set (readDirectory lib fs) \<and> lookup fs1 C \<noteq> None
              then moveFile C dC fs1
              else Inr fs1)
          (\<lambda>fs2. updateSvelteAppImports src crp fs2)) = Inr s3"
    by (simp only: 1 andThen_simps 2 3)
  \<comment> \<open>the loop over the entries of \<open>src\<close>\<close>
  have X3: "lookup s3 X = lookup fs X"
    using x by (simp add: keep3 l2 l1)
  have dX3: "lookup s3 dX = lookup fs dX"
    using dx by (simp add: keep3 l2 l1)
  have src3: "lookup s3 src = Some Dir"
  proof (cases "src = []")
    case True
    then show ?thesis by (simp add: lookup_def)
  next
    case False
    then have u: "src \<in> U" using srcU by simp
    then have "src \<noteq> C" "src \<noteq> dC" "src \<noteq> App" using dC app by auto
    then show ?thesis using made [OF u] by (simp add: keep3 l2)
  qed
  have V3: "lookup s3 q = lookup s1 q" if "q \<in> V" for q
    using v that by (simp add: keep3 l2)
  have "\<exists>s5. (if ''app.css'' \<in> set (readDirectory src s3) \<and> lookup s3 X \<noteq> None
                then andThen (moveFile X dX s3) (\<lambda>fs'. updateSvelteCssImport src arch fs')
                else Inr s3) = Inr s5
      \<and> lookup s5 X = None
      \<and> lookup s5 dX = (if lookup fs X = None then lookup fs dX else lookup fs X)
      \<and> (\<forall>q. q \<noteq> X \<longrightarrow> q \<noteq> dX \<longrightarrow>
             lookup s5 q = lookup s3 q
           \<or> (lookup s3 q = None \<and> q \<in> V \<and> lookup s5 q = Some Dir)
           \<or> (q = M \<and> (\<exists>c c'. lookup s3 q = Some (File c) \<and> lookup s5 q = Some (File c'))))"
  proof (cases "lookup fs X")
    case None
    then show ?thesis by (auto simp: X3 dX3)
  next
    case (Some n)
    then obtain c where c: "lookup fs X = Some (File c)"
      using x(5) by (cases n) auto
    have c3: "lookup s3 X = Some (File c)" using c by (simp add: X3)
    have d3: "lookup s3 dX \<noteq> Some Dir" using dx(6) by (simp add: dX3)
    have ne: "dX \<noteq> []" by (simp add: dX_def)
    have bl: "butlast dX = lib @ [''shared'', ''styles'']" by (simp add: dX_def butlast_append)
    have "\<forall>q\<in>set (ancestors (butlast dX)). \<not> isFile (lookup s3 q)"
    proof
      fix q assume "q \<in> set (ancestors (butlast dX))"
      then have q: "q \<in> V" by (simp add: V_def bl)
      then have "\<not> isFile (lookup fs q)" using v by blast
      then have "\<not> isFile (lookup s1 q)" by (simp add: l1)
      then show "\<not> isFile (lookup s3 q)" by (simp add: V3 [OF q])
    qed
    from moveFile_file [OF c3 dx(5) [symmetric] ne d3 this] obtain s4 where
      mv: "moveFile X dX s3 = Inr s4"
      and l4: "\<And>q. lookup s4 q =
           (if q = X then None
            else if q = dX then Some (File c)
            else if lookup s3 q = None \<and> q \<in> V then Some Dir
            else lookup s3 q)"
      unfolding bl V_def [symmetric] by blast
    have "lookup s4 M = lookup fs M"
      using m app by (simp add: l4 keep3 l2 l1)
    then have "lookup s4 (src @ [''main.ts'']) \<noteq> Some Dir"
      using m(8) by (simp add: M_def)
    from updateSvelteCssImport_frame [OF this, of arch] obtain s5 where
      5: "updateSvelteCssImport src arch s4 = Inr s5"
      and l5: "\<And>q. lookup s5 q = lookup s4 q
            \<or> (q = M \<and> (\<exists>c c'. lookup s4 q = Some (File c) \<and> lookup s5 q = Some (File c')))"
      unfolding M_def by blast
    have keep5: "lookup s5 q = lookup s4 q" if "q \<noteq> M" for q
      using l5 [of q] that by simp
    have mem: "''app.css'' \<in> set (readDirectory src s3)"
      using c3 src3 by (simp add: readDirectory_member X_def)
    have r: "(if ''app.css'' \<in> set (readDirectory src s3) \<and> lookup s3 X \<noteq> None
                then andThen (moveFile X dX s3) (\<lambda>fs'. updateSvelteCssImport src arch fs')
                else Inr s3) = Inr s5"
      using mem c3 mv 5 by simp
    have pX: "lookup s5 X = None" using m(6) by (simp add: keep5 l4)
    have pdX: "lookup s5 dX = (if lookup fs X = None then lookup fs dX else lookup fs X)"
      using m(7) dx(5) c by (simp add: keep5 l4)
    have fr: "lookup s5 q = lookup s3 q
           \<or> (lookup s3 q = None \<and> q \<in> V \<and> lookup s5 q = Some Dir)
           \<or> (q = M \<and> (\<exists>c c'. lookup s3 q = Some (File c) \<and> lookup s5 q = Some (File c')))"
      if "q \<noteq> X" "q \<noteq> dX" for q
    proof (cases "q = M")
      case False
      then show ?thesis using that by (simp add: keep5 l4)
    next
      case True
      have "lookup s4 q = lookup s3 q" using True m(2,6,7) by (simp add: l4)
      then show ?thesis using l5 [of q] by auto
    qed
    have fr': "\<forall>q. q \<noteq> X \<longrightarrow> q \<noteq> dX \<longrightarrow>
             lookup s5 q = lookup s3 q
           \<or> (lookup s3 q = None \<and> q \<in> V \<and> lookup s5 q = Some Dir)
           \<or> (q = M \<and> (\<exists>c c'. lookup s3 q = Some (File c) \<and> lookup s5 q = Some (File c')))"
      using fr by blast
    show ?thesis
      by (intro exI [of _ s5] conjI) (fact r pX pdX fr')+
  qed
  then obtain s5 where
    r: "(if ''app.css'' \<in> set (readDirectory src s3) \<and> lookup s3 X \<noteq> None
                then andThen (moveFile X dX s3) (\<lambda>fs'. updateSvelteCssImport src arch fs')
                else Inr s3) = Inr s5"
    and pX: "lookup s5 X = None"
    and pdX: "lookup s5 dX = (if lookup fs X = None then lookup fs dX else lookup fs X)"
    and fr: "\<And>q. q \<noteq> X \<Longrightarrow> q \<noteq> dX \<Longrightarrow>
             lookup s5 q = lookup s3 q
           \<or> (lookup s3 q = None \<and> q \<in> V \<and> lookup s5 q = Some Dir)
           \<or> (q = M \<and> (\<exists>c c'. lookup s3 q = Some (File c) \<and> lookup s5 q = Some (File c')))"
    by blast
  have run: "andThen
         (andThen (createDirectories ov fs)
          (\<lambda>fs1. andThen
             (if ''Counter.svelte'' \<in> set (readDirectory lib fs) \<and> lookup fs1 C \<noteq> None
              then moveFile C dC fs1
              else Inr fs1)
          (\<lambda>fs2. updateSvelteAppImports src crp fs2)))
         (\<lambda>fs3. if ''app.css'' \<in> set (readDirectory src fs3) \<and> lookup fs3 X \<noteq> None
                then andThen (moveFile X dX fs3) (\<lambda>fs'. updateSvelteCssImport src arch fs')
                else Inr fs3) = Inr s5"
    by (simp only: first andThen_simps r)
  have C3: "lookup s3 C = None"
    using app(2) by (simp add: keep3 l2)
  have dC3: "lookup s3 dC = (if lookup fs C = None then lookup fs dC else lookup fs C)"
    using app(3) dC(4) by (simp add: keep3 l2)
  have CnV: "C \<notin> V" "dC \<notin> V" using v by auto
  have pC: "lookup s5 C = None"
    using fr [of C] x(2) dx(2) m(3) C3 CnV by auto
  have pdC: "lookup s5 dC = (if lookup fs C = None then lookup fs dC else lookup fs C)"
    using fr [of dC] x(3) dx(3) m(4) dC3 CnV by auto
  have frame: "lookup s5 q = lookup fs q \<or> q \<in> {C, X, dC, dX}
            \<or> (lookup fs q = None \<and> lookup s5 q = Some Dir)
            \<or> (q \<in> {App, M}
               \<and> (\<exists>c c'. lookup fs q = Some (File c) \<and> lookup s5 q = Some (File c')))" for q
  proof (cases "q \<in> {C, X, dC, dX}")
    case True
    then show ?thesis by blast
  next
    case False
    then have q: "q \<noteq> C" "q \<noteq> X" "q \<noteq> dC" "q \<noteq> dX" by auto
    have q2: "lookup s2 q = lookup s1 q" using q by (simp add: l2)
    consider (isApp) "q = App" | (isM) "q = M" | (other) "q \<noteq> App" "q \<noteq> M" by blast
    then show ?thesis
    proof cases
      case isApp
      have nV: "q \<notin> V" using v isApp by blast
      have a: "lookup s2 q = lookup fs q" unfolding q2 l1 using isApp app(1) by simp
      have b: "lookup s5 q = lookup s3 q" using fr [OF q(2) q(4)] nV isApp m(5) by auto
      show ?thesis using l3 [of q] isApp unfolding a b by blast
    next
      case isM
      have "lookup s3 q = lookup s2 q" using keep3 [of q] isM m(5) by simp
      then have a: "lookup s3 q = lookup fs q" unfolding q2 l1 using isM m(1) by simp
      show ?thesis using fr [OF q(2) q(4)] isM m(2) unfolding a by blast
    next
      case other
      have a: "lookup s3 q = lookup s1 q" using keep3 [of q] other q2 by simp
      have "lookup s5 q = lookup s1 q \<or> (lookup s1 q = None \<and> lookup s5 q = Some Dir)"
        using fr [OF q(2) q(4)] other unfolding a by blast
      then show ?thesis by (auto simp: l1 split: if_splits)
    qed
  qed
  show ?thesis
    by (intro exI [of _ s5] conjI allI) (fact run pC pX pdC pdX frame)+
qed

lemma svelte_feature:
  assumes "reconcilable p ''feature-based'' ''svelte'' fs"
  shows "\<exists>fs'. reorganizeSvelteProject (p @ [''src'']) ''feature-based'' fs = Inr fs'
     \<and> lookup fs' (((p @ [''src'']) @ [''lib'']) @ [''Counter.svelte'']) = None
     \<and> lookup fs' ((p @ [''src'']) @ [''app.css'']) = None
     \<and> lookup fs' (((p @ [''src'']) @ [''lib'']) @ [''shared'', ''components'', ''Counter.svelte''])
         = (if lookup fs (((p @ [''src'']) @ [''lib'']) @ [''Counter.svelte'']) = None
            then lookup fs (((p @ [''src'']) @ [''lib'']) @ [''shared'', ''components'', ''Counter.svelte''])
            else lookup fs (((p @ [''src'']) @ [''lib'']) @ [''Counter.svelte'']))
     \<and> lookup fs' (((p @ [''src'']) @ [''lib'']) @ [''shared'', ''styles'', ''app.css''])
         = (if lookup fs ((p @ [''src'']) @ [''app.css'']) = None
            then lookup fs (((p @ [''src'']) @ [''lib'']) @ [''shared'', ''styles'', ''app.css''])
            else lookup fs ((p @ [''src'']) @ [''app.css'']))
     \<and> (\<forall>q. lookup fs' q = lookup fs q
            \<or> q \<in> {((p @ [''src'']) @ [''lib'']) @ [''Counter.svelte''],
                    (p @ [''src'']) @ [''app.css''],
                    ((p @ [''src'']) @ [''lib'']) @ [''shared'', ''components'', ''Counter.svelte''],
                    ((p @ [''src'']) @ [''lib'']) @ [''shared'', ''styles'', ''app.css'']}
            \<or> (lookup fs q = None \<and> lookup fs' q = Some Dir)
            \<or> (q \<in> {(p @ [''src'']) @ [''App.svelte''], (p @ [''src'']) @ [''main.ts'']}
               \<and> (\<exists>c c'. lookup fs q = Some (File c) \<and> lookup fs' q = Some (File c'))))"
  unfolding reorganizeSvelteProject_feature
  apply (rule svelte_pipeline)
  using assms
  apply (simp_all add: reconcilable_def overlayDirectories_def relocationTable_def rewrittenFiles_def
      ancestors_append image_iff ball_Un Let_def list_all_iff butlast_append)
  apply (blast | force)+
  done

lemma svelte_component:
  assumes "reconcilable p arch ''svelte'' fs" and "arch \<noteq> ''feature-based''"
  shows "\<exists>fs'. reorganizeSvelteProject (p @ [''src'']) arch fs = Inr fs'
     \<and> lookup fs' (((p @ [''src'']) @ [''lib'']) @ [''Counter.svelte'']) = None
     \<and> lookup fs' ((p @ [''src'']) @ [''app.css'']) = None
     \<and> lookup fs' (((p @ [''src'']) @ [''lib'']) @ [''components'', ''common'', ''Counter.svelte''])
         = (if lookup fs (((p @ [''src'']) @ [''lib'']) @ [''Counter.svelte'']) = None
            then lookup fs (((p @ [''src'']) @ [''lib'']) @ [''components'', ''common'', ''Counter.svelte''])
            else lookup fs (((p @ [''src'']) @ [''lib'']) @ [''Counter.svelte'']))
     \<and> lookup fs' (((p @ [''src'']) @ [''lib'']) @ [''shared'', ''styles'', ''app.css''])
         = (if lookup fs ((p @ [''src'']) @ [''app.css'']) = None
            then lookup fs (((p @ [''src'']) @ [''lib'']) @ [''shared'', ''styles'', ''app.css''])
            else lookup fs ((p @ [''src'']) @ [''app.css'']))
     \<and> (\<forall>q. lookup fs' q = lookup fs q
            \<or> q \<in> {((p @ [''src'']) @ [''lib'']) @ [''Counter.svelte''],
                    (p @ [''src'']) @ [''app.css''],
                    ((p @ [''src'']) @ [''lib'']) @ [''components'', ''common'', ''Counter.svelte''],
                    ((p @ [''src'']) @ [''lib'']) @ [''shared'', ''styles'', ''app.css'']}
            \<or> (lookup fs q = None \<and> lookup fs' q = Some Dir)
            \<or> (q \<in> {(p @ [''src'']) @ [''App.svelte''], (p @ [''src'']) @ [''main.ts'']}
               \<and> (\<exists>c c'. lookup fs q = Some (File c) \<and> lookup fs' q = Some (File c'))))"
  unfolding reorganizeSvelteProject_component [OF assms(2)]
  apply (rule svelte_pipeline)
  using assms
  apply (simp_all add: reconcilable_def overlayDirectories_def relocationTable_def rewrittenFiles_def
      ancestors_append image_iff ball_Un Let_def list_all_iff butlast_append)
  apply (blast | force)+
  done

subsection \<open>The reconciler against the relocation table\<close>

lemma relocation_table_form:
  fixes src :: path
  assumes T: "table = [(a1, d1), (a2, d2)]"
    and p: "lookup fs' A1 = None" "lookup fs' A2 = None"
           "lookup fs' D1 = (if lookup fs A1 = None then lookup fs D1 else lookup fs A1)"
           "lookup fs' D2 = (if lookup fs A2 = None then lookup fs D2 else lookup fs A2)"
    and f: "\<forall>q. lookup fs' q = lookup fs q \<or> q \<in> S
              \<or> (lookup fs q = None \<and> lookup fs' q = Some Dir)
              \<or> (q \<in> E \<and> (\<exists>c c'. lookup fs q = Some (File c) \<and> lookup fs' q = Some (File c')))"
    and eqs: "A1 = src @ a1" "A2 = src @ a2" "D1 = src @ d1" "D2 = src @ d2"
    and S: "S \<subseteq> {A1, A2, D1, D2}"
    and E: "E \<subseteq> (\<lambda>f. src @ f) ` set W"
  shows "(\<forall>(a, d)\<in>set table.
            lookup fs' (src @ a) = None
          \<and> lookup fs' (src @ d)
              = (if lookup fs (src @ a) = None then lookup fs (src @ d) else lookup fs (src @ a)))
     \<and> (\<forall>q. lookup fs' q = lookup fs q
            \<or> (\<exists>(a, d)\<in>set table. q = src @ a \<or> q = src @ d)
            \<or> (lookup fs q = None \<and> lookup fs' q = Some Dir)
            \<or> (q \<in> (\<lambda>f. src @ f) ` set W
               \<and> (\<exists>c c'. lookup fs q = Some (File c) \<and> lookup fs' q = Some (File c'))))"
proof (intro conjI allI)
  show "\<forall>(a, d)\<in>set table.
            lookup fs' (src @ a) = None
          \<and> lookup fs' (src @ d)
              = (if lookup fs (src @ a) = None then lookup fs (src @ d) else lookup fs (src @ a))"
    unfolding T using p [unfolded eqs] by simp
next
  fix q
  show "lookup fs' q = lookup fs q
            \<or> (\<exists>(a, d)\<in>set table. q = src @ a \<or> q = src @ d)
            \<or> (lookup fs q = None \<and> lookup fs' q = Some Dir)
            \<or> (q \<in> (\<lambda>f. src @ f) ` set W
               \<and> (\<exists>c c'. lookup fs q = Some (File c) \<and> lookup fs' q = Some (File c')))"
    (is "?A \<or> ?B \<or> ?C \<or> ?D")
  proof -
    from f [rule_format, of q] consider (same) ?A | (tab) "q \<in> S" | (dir) ?C
      | (rw) "q \<in> E" "\<exists>c c'. lookup fs q = Some (File c) \<and> lookup fs' q = Some (File c')"
      by blast
    then show ?thesis
    proof cases
      case same
      then show ?thesis by (rule disjI1)
    next
      case tab
      then have "q \<in> {src @ a1, src @ a2, src @ d1, src @ d2}" using S unfolding eqs by blast
      then have ?B unfolding T by auto
      then show ?thesis by (intro disjI2 disjI1)
    next
      case dir
      then show ?thesis by (intro disjI2 disjI1)
    next
      case rw
      from rw(1) E have "q \<in> (\<lambda>f. src @ f) ` set W" by blast
      from this rw(2) have ?D by (rule conjI)
      then show ?thesis by (intro disjI2)
    qed
  qed
qed

lemma reorganizeViteProject_relocates:
  assumes "reconcilable projectDir arch fw fs"
  shows "\<exists>fs'. reorganizeViteProject projectDir arch fw fs = Inr fs'
     \<and> (\<forall>(a, d)\<in>set (relocationTable fw arch).
            lookup fs' ((projectDir @ [''src'']) @ a) = None
          \<and> lookup fs' ((projectDir @ [''src'']) @ d)
              = (if lookup fs ((projectDir @ [''src'']) @ a) = None
                 then lookup fs ((projectDir @ [''src'']) @ d)
                 else lookup fs ((projectDir @ [''src'']) @ a)))
     \<and> (\<forall>q. lookup fs' q = lookup fs q
            \<or> (\<exists>(a, d)\<in>set (relocationTable fw arch).
                  q = (projectDir @ [''src'']) @ a \<or> q = (projectDir @ [''src'']) @ d)
            \<or> (lookup fs q = None \<and> lookup fs' q = Some Dir)
            \<or> (q \<in> (\<lambda>f. (projectDir @ [''src'']) @ f) ` set (rewrittenFiles fw)
               \<and> (\<exists>c c'. lookup fs q = Some (File c) \<and> lookup fs' q = Some (File c'))))"
proof -
  let ?src = "projectDir @ [''src'']"
  let ?goal = "\<lambda>fs'. (\<forall>(a, d)\<in>set (relocationTable fw arch).
            lookup fs' (?src @ a) = None
          \<and> lookup fs' (?src @ d)
              = (if lookup fs (?src @ a) = None then lookup fs (?src @ d) else lookup fs (?src @ a)))
     \<and> (\<forall>q. lookup fs' q = lookup fs q
            \<or> (\<exists>(a, d)\<in>set (relocationTable fw arch). q = ?src @ a \<or> q = ?src @ d)
            \<or> (lookup fs q = None \<and> lookup fs' q = Some Dir)
            \<or> (q \<in> (\<lambda>f. ?src @ f) ` set (rewrittenFiles fw)
               \<and> (\<exists>c c'. lookup fs q = Some (File c) \<and> lookup fs' q = Some (File c'))))"
  consider (rf) "fw \<noteq> ''svelte''" "arch = ''feature-based''"
    | (rc) "fw \<noteq> ''svelte''" "arch \<noteq> ''feature-based''"
    | (sf) "fw = ''svelte''" "arch = ''feature-based''"
    | (sc) "fw = ''svelte''" "arch \<noteq> ''feature-based''"
    by blast
  then have "\<exists>fs'. reorganizeViteProject projectDir arch fw fs = Inr fs' \<and> ?goal fs'"
  proof cases
    case rf
    have a: "reconcilable projectDir ''feature-based'' fw fs" using assms rf(2) by simp
    have V: "reorganizeViteProject projectDir arch fw fs
        = reorganizeReactProject ?src ''feature-based'' fs"
      using rf by (simp add: reorganizeViteProject_def path_join_def)
    from react_feature [OF a rf(1)] obtain fs' where
      h: "reorganizeReactProject ?src ''feature-based'' fs = Inr fs'"
        "lookup fs' (?src @ [''App.css'']) = None"
        "lookup fs' (?src @ [''index.css'']) = None"
        "lookup fs' (?src @ [''features'', ''example'', ''styles'', ''App.css''])
         = (if lookup fs (?src @ [''App.css'']) = None
            then lookup fs (?src @ [''features'', ''example'', ''styles'', ''App.css''])
            else lookup fs (?src @ [''App.css'']))"
        "lookup fs' (?src @ [''shared'', ''styles'', ''index.css''])
         = (if lookup fs (?src @ [''index.css'']) = None
            then lookup fs (?src @ [''shared'', ''styles'', ''index.css''])
            else lookup fs (?src @ [''index.css'']))"
        "\<forall>q. lookup fs' q = lookup fs q
            \<or> q \<in> {?src @ [''App.css''], ?src @ [''index.css''],
                    ?src @ [''features'', ''example'', ''styles'', ''App.css''],
                    ?src @ [''shared'', ''styles'', ''index.css'']}
            \<or> (lookup fs q = None \<and> lookup fs' q = Some Dir)
            \<or> (q \<in> (\<lambda>f. ?src @ [f])
                       ` (set [''App.tsx'', ''App.jsx'', ''App.svelte''] \<union> set [''main.tsx'', ''main.jsx''])
               \<and> (\<exists>c c'. lookup fs q = Some (File c) \<and> lookup fs' q = Some (File c')))"
      by (elim exE conjE) (rule that)
    have "?goal fs'"
      by (rule relocation_table_form [OF _ h(2-6)])
         (use rf in \<open>auto simp: relocationTable_def rewrittenFiles_def\<close>)
    then show ?thesis unfolding V using h(1) by blast
  next
    case rc
    have V: "reorganizeViteProject projectDir arch fw fs = reorganizeReactProject ?src arch fs"
      using rc by (simp add: reorganizeViteProject_def path_join_def)
    from react_component [OF assms rc] obtain fs' where
      h: "reorganizeReactProject ?src arch fs = Inr fs'"
        "lookup fs' (?src @ [''App.css'']) = None"
        "lookup fs' (?src @ [''index.css'']) = None"
        "lookup fs' (?src @ [''styles'', ''App.css''])
         = (if lookup fs (?src @ [''App.css'']) = None
            then lookup fs (?src @ [''styles'', ''App.css''])
            else lookup fs (?src @ [''App.css'']))"
        "lookup fs' (?src @ [''styles'', ''index.css''])
         = (if lookup fs (?src @ [''index.css'']) = None
            then lookup fs (?src @ [''styles'', ''index.css''])
            else lookup fs (?src @ [''index.css'']))"
        "\<forall>q. lookup fs' q = lookup fs q
            \<or> q \<in> {?src @ [''App.css''], ?src @ [''index.css''],
                    ?src @ [''styles'', ''App.css''],
                    ?src @ [''styles'', ''index.css'']}
            \<or> (lookup fs q = None \<and> lookup fs' q = Some Dir)
            \<or> (q \<in> (\<lambda>f. ?src @ [f])
                       ` (set [''App.tsx'', ''App.jsx'', ''App.svelte''] \<union> set [''main.tsx'', ''main.jsx''])
               \<and> (\<exists>c c'. lookup fs q = Some (File c) \<and> lookup fs' q = Some (File c')))"
      by (elim exE conjE) (rule that)
    have "?goal fs'"
      by (rule relocation_table_form [OF _ h(2-6)])
         (use rc in \<open>auto simp: relocationTable_def rewrittenFiles_def\<close>)
    then show ?thesis unfolding V using h(1) by blast
  next
    case sf
    have a: "reconcilable projectDir ''feature-based'' ''svelte'' fs" using assms sf by simp
    have V: "reorganizeViteProject projectDir arch fw fs
        = reorganizeSvelteProject ?src ''feature-based'' fs"
      using sf by (simp add: reorganizeViteProject_def path_join_def)
    from svelte_feature [OF a] obtain fs' where
      h: "reorganizeSvelteProject ?src ''feature-based'' fs = Inr fs'"
        "lookup fs' ((?src @ [''lib'']) @ [''Counter.svelte'']) = None"
        "lookup fs' (?src @ [''app.css'']) = None"
        "lookup fs' ((?src @ [''lib'']) @ [''shared'', ''components'', ''Counter.svelte''])
         = (if lookup fs ((?src @ [''lib'']) @ [''Counter.svelte'']) = None
            then lookup fs ((?src @ [''lib'']) @ [''shared'', ''components'', ''Counter.svelte''])
            else lookup fs ((?src @ [''lib'']) @ [''Counter.svelte'']))"
        "lookup fs' ((?src @ [''lib'']) @ [''shared'', ''styles'', ''app.css''])
         = (if lookup fs (?src @ [''app.css'']) = None
            then lookup fs ((?src @ [''lib'']) @ [''shared'', ''styles'', ''app.css''])
            else lookup fs (?src @ [''app.css'']))"
        "\<forall>q. lookup fs' q = lookup fs q
            \<or> q \<in> {(?src @ [''lib'']) @ [''Counter.svelte''],
                    ?src @ [''app.css''],
                    (?src @ [''lib'']) @ [''shared'', ''components'', ''Counter.svelte''],
                    (?src @ [''lib'']) @ [''shared'', ''styles'', ''app.css'']}
            \<or> (lookup fs q = None \<and> lookup fs' q = Some Dir)
            \<or> (q \<in> {?src @ [''App.svelte''], ?src @ [''main.ts'']}
               \<and> (\<exists>c c'. lookup fs q = Some (File c) \<and> lookup fs' q = Some (File c')))"
      by (elim exE conjE) (rule that)
    have "?goal fs'"
      by (rule relocation_table_form [OF _ h(2-6)])
         (use sf in \<open>auto simp: relocationTable_def rewrittenFiles_def\<close>)
    then show ?thesis unfolding V using h(1) by blast
  next
    case sc
    have a: "reconcilable projectDir arch ''svelte'' fs" using assms sc by simp
    have V: "reorganizeViteProject projectDir arch fw fs = reorganizeSvelteProject ?src arch fs"
      using sc by (simp add: reorganizeViteProject_def path_join_def)
    from svelte_component [OF a sc(2)] obtain fs' where
      h: "reorganizeSvelteProject ?src arch fs = Inr fs'"
        "lookup fs' ((?src @ [''lib'']) @ [''Counter.svelte'']) = None"
        "lookup fs' (?src @ [''app.css'']) = None"
        "lookup fs' ((?src @ [''lib'']) @ [''components'', ''common'', ''Counter.svelte''])
         = (if lookup fs ((?src @ [''lib'']) @ [''Counter.svelte'']) = None
            then lookup fs ((?src @ [''lib'']) @ [''components'', ''common'', ''Counter.svelte''])
            else lookup fs ((?src @ [''lib'']) @ [''Counter.svelte'']))"
        "lookup fs' ((?src @ [''lib'']) @ [''shared'', ''styles'', ''app.css''])
         = (if lookup fs (?src @ [''app.css'']) = None
            then lookup fs ((?src @ [''lib'']) @ [''shared'', ''styles'', ''app.css''])
            else lookup fs (?src @ [''app.css'']))"
        "\<forall>q. lookup fs' q = lookup fs q
            \<or> q \<in> {(?src @ [''lib'']) @ [''Counter.svelte''],
                    ?src @ [''app.css''],
                    (?src @ [''lib'']) @ [''components'', ''common'', ''Counter.svelte''],
                    (?src @ [''lib'']) @ [''shared'', ''styles'', ''app.css'']}
            \<or> (lookup fs q = None \<and> lookup fs' q = Some Dir)
            \<or> (q \<in> {?src @ [''App.svelte''], ?src @ [''main.ts'']}
               \<and> (\<exists>c c'. lookup fs q = Some (File c) \<and> lookup fs' q = Some (File c')))"
      by (elim exE conjE) (rule that)
    have "?goal fs'"
      by (rule relocation_table_form [OF _ h(2-6)])
         (use sc in \<open>auto simp: relocationTable_def rewrittenFiles_def\<close>)
    then show ?thesis unfolding V using h(1) by blast
  qed
  then show ?thesis by simp
qed

section \<open>The relocation of the Structure Reconciler\<close>




section \<open>Properties of the skill combination\<close>

lemma find_path_None: "(find (\<lambda>s. path s = p) acc = None) = (p \<notin> path ` set acc)"
  by (auto simp: find_None_iff)

lemma firstByPath_seen_set: "set a = set b \<Longrightarrow> firstByPath a xs = firstByPath b xs"
proof (induction xs arbitrary: a b)
  case Nil
  show ?case by simp
next
  case (Cons y ys)
  have "set (path y # a) = set (path y # b)" using Cons.prems by simp
  then have "firstByPath (path y # a) ys = firstByPath (path y # b) ys"
    by (rule Cons.IH)
  then show ?case using Cons.prems Cons.IH [of a b] by simp
qed

lemma foldl_dedup_firstByPath:
  "foldl (\<lambda>acc skill.
            if find (\<lambda>s. path s = path skill) acc = None then acc @ [skill] else acc) acc xs
   = acc @ firstByPath (map path acc) xs"
proof (induction xs arbitrary: acc)
  case Nil
  show ?case by simp
next
  case (Cons x xs)
  show ?case
  proof (cases "path x \<in> path ` set acc")
    case True
    then show ?thesis using Cons.IH [of acc] by (simp add: find_path_None)
  next
    case False
    have "firstByPath (map path (acc @ [x])) xs = firstByPath (path x # map path acc) xs"
      by (rule firstByPath_seen_set) auto
    then show ?thesis using False Cons.IH [of "acc @ [x]"] by (simp add: find_path_None)
  qed
qed

lemma combineSkills_firstByPath:
  "combineSkills ds fs as = firstByPath [] (ds @ fs @ as)"
  using foldl_dedup_firstByPath [of "[]" "ds @ fs @ as"]
  by (simp add: combineSkills_def Let_def)

lemma firstByPath_set: "set (firstByPath seen xs) \<subseteq> set xs"
  by (induction seen xs rule: firstByPath.induct) auto

lemma firstByPath_paths:
  "path ` set (firstByPath seen xs) = path ` set xs - set seen"
  by (induction seen xs rule: firstByPath.induct) auto

lemma firstByPath_distinct: "distinct (map path (firstByPath seen xs))"
proof (induction seen xs rule: firstByPath.induct)
  case (1 seen)
  show ?case by simp
next
  case (2 seen s ss)
  show ?case
  proof (cases "path s \<in> set seen")
    case True
    with 2 show ?thesis by simp
  next
    case False
    have "path s \<notin> path ` set (firstByPath (path s # seen) ss)"
      by (simp add: firstByPath_paths)
    with False 2 show ?thesis by simp
  qed
qed

lemma firstByPath_fixed:
  "distinct (map path xs) \<Longrightarrow> set (map path xs) \<inter> set seen = {} \<Longrightarrow> firstByPath seen xs = xs"
  by (induction seen xs rule: firstByPath.induct) auto

lemma upt_Suc_shift: "[0..<Suc n] = 0 # map Suc [0..<n]"
  by (simp add: upt_conv_Cons map_Suc_upt del: upt_Suc)

lemma nth_filter_upt_Cons:
  "map (\<lambda>i. (x # xs) ! i) (filter P [0..<Suc (length xs)])
   = (if P 0 then [x] else []) @ map (\<lambda>i. xs ! i) (filter (\<lambda>i. P (Suc i)) [0..<length xs])"
  by (simp add: upt_Suc_shift filter_map comp_def del: upt_Suc)

lemma firstByPath_index:
  "firstByPath seen xs =
     map (\<lambda>i. xs ! i)
       (filter (\<lambda>i. path (xs ! i) \<notin> set seen \<union> path ` set (take i xs)) [0..<length xs])"
proof (induction seen xs rule: firstByPath.induct)
  case (1 seen)
  show ?case by simp
next
  case (2 seen s ss)
  let ?P = "\<lambda>sn zs i. path (zs ! i) \<notin> set sn \<union> path ` set (take i zs)"
  have shift: "map (\<lambda>i. (s # ss) ! i) (filter (?P seen (s # ss)) [0..<length (s # ss)])
      = (if ?P seen (s # ss) 0 then [s] else [])
        @ map (\<lambda>i. ss ! i) (filter (\<lambda>i. ?P seen (s # ss) (Suc i)) [0..<length ss])"
    using nth_filter_upt_Cons [of s ss "?P seen (s # ss)"] by simp
  show ?case
  proof (cases "path s \<in> set seen")
    case True
    have "filter (\<lambda>i. ?P seen (s # ss) (Suc i)) [0..<length ss]
        = filter (?P seen ss) [0..<length ss]"
      using True by (intro filter_cong) auto
    then show ?thesis using True 2 shift by simp
  next
    case False
    have "filter (\<lambda>i. ?P seen (s # ss) (Suc i)) [0..<length ss]
        = filter (?P (path s # seen) ss) [0..<length ss]"
      by (intro filter_cong) auto
    then show ?thesis using False 2 shift by simp
  qed
qed

lemma firstByPath_subseq: "subseq (firstByPath seen xs) xs"
  by (induction seen xs rule: firstByPath.induct) auto

text \<open>
  Claim C10. \<open>combineSkills\<close> keeps the first occurrence of every path: the result is
  the concatenation of the default, framework and additional skills without the skills
  whose path is the path of an earlier element. Stated twice, through the walk
  \<open>firstByPath\<close> and through the positions of the concatenation that are kept. Hence the
  paths of the result are pairwise distinct, every element of the result is an element
  of an input, the kept elements stand in their original order, and combining the
  result again with empty other lists gives it back.
\<close>

theorem combineSkills_first_occurrence_wins:
  "combineSkills ds fs as = firstByPath [] (ds @ fs @ as)
   \<and> combineSkills ds fs as =
       map (\<lambda>i. (ds @ fs @ as) ! i)
         (filter (\<lambda>i. path ((ds @ fs @ as) ! i) \<notin> path ` set (take i (ds @ fs @ as)))
            [0..<length (ds @ fs @ as)])
   \<and> distinct (map path (combineSkills ds fs as))
   \<and> set (combineSkills ds fs as) \<subseteq> set ds \<union> set fs \<union> set as
   \<and> subseq (combineSkills ds fs as) (ds @ fs @ as)
   \<and> combineSkills (combineSkills ds fs as) [] [] = combineSkills ds fs as
   \<and> combineSkills [] (combineSkills ds fs as) [] = combineSkills ds fs as
   \<and> combineSkills [] [] (combineSkills ds fs as) = combineSkills ds fs as"
proof -
  let ?r = "combineSkills ds fs as"
  have r: "?r = firstByPath [] (ds @ fs @ as)"
    by (rule combineSkills_firstByPath)
  have idx: "?r = map (\<lambda>i. (ds @ fs @ as) ! i)
         (filter (\<lambda>i. path ((ds @ fs @ as) ! i) \<notin> path ` set (take i (ds @ fs @ as)))
            [0..<length (ds @ fs @ as)])"
    using firstByPath_index [of "[]" "ds @ fs @ as"] r by simp
  have d: "distinct (map path ?r)"
    unfolding r by (rule firstByPath_distinct)
  have s: "set ?r \<subseteq> set ds \<union> set fs \<union> set as"
    using firstByPath_set [of "[]" "ds @ fs @ as"] r by auto
  have q: "subseq ?r (ds @ fs @ as)"
    unfolding r by (rule firstByPath_subseq)
  have fixed: "firstByPath [] ?r = ?r"
    using d by (intro firstByPath_fixed) simp_all
  have i1: "combineSkills ?r [] [] = ?r"
    using fixed combineSkills_firstByPath [of ?r "[]" "[]"] by simp
  have i2: "combineSkills [] ?r [] = ?r"
    using fixed combineSkills_firstByPath [of "[]" ?r "[]"] by simp
  have i3: "combineSkills [] [] ?r = ?r"
    using fixed combineSkills_firstByPath [of "[]" "[]" ?r] by simp
  from r idx d s q i1 i2 i3 show ?thesis by blast
qed

theorem combineSkills_first_occurrence_wins_witness:
  "combineSkills
     [\<lparr>name = ''TypeScript Expert'', path = ''typescript-expert'', description = ''d1'', isDefault = Some True\<rparr>,
      \<lparr>name = ''Clean Code'', path = ''clean-code'', description = ''d2'', isDefault = Some True\<rparr>]
     [\<lparr>name = ''React'', path = ''react-best-practices'', description = ''d3'', isDefault = None\<rparr>]
     [\<lparr>name = ''Clean Code again'', path = ''clean-code'', description = ''d4'', isDefault = None\<rparr>]
   = [\<lparr>name = ''TypeScript Expert'', path = ''typescript-expert'', description = ''d1'', isDefault = Some True\<rparr>,
      \<lparr>name = ''Clean Code'', path = ''clean-code'', description = ''d2'', isDefault = Some True\<rparr>,
      \<lparr>name = ''React'', path = ''react-best-practices'', description = ''d3'', isDefault = None\<rparr>]"
  using combineSkills_first_occurrence_wins
    [of "[\<lparr>name = ''TypeScript Expert'', path = ''typescript-expert'', description = ''d1'', isDefault = Some True\<rparr>,
      \<lparr>name = ''Clean Code'', path = ''clean-code'', description = ''d2'', isDefault = Some True\<rparr>]"
     "[\<lparr>name = ''React'', path = ''react-best-practices'', description = ''d3'', isDefault = None\<rparr>]"
     "[\<lparr>name = ''Clean Code again'', path = ''clean-code'', description = ''d4'', isDefault = None\<rparr>]"]
  by simp

end
